(* ===== verification/Prelude.thy ===== *)
theory Prelude
  imports Main "HOL-Library.Sublist"
begin

text \<open>
  Shared ground of the development: Go's 64-bit signed integers, the byte strings and the
  part of the packages \<^verbatim>\<open>strings\<close> and \<^verbatim>\<open>strconv\<close> that the runtime uses,
  the view the runtime has of its host at one instant (environment variables, readable
  files, wall clock), and the readers of configuration variables.

  A Go \<^verbatim>\<open>int64\<close> (and \<^verbatim>\<open>int\<close>, 64 bits wide on every platform the images are
  built for) is an \<open>int\<close> in \<open>[-2^63, 2^63)\<close>; every sum, difference and product of
  the source is wrapped by \<open>i64\<close>. A Go \<^verbatim>\<open>string\<close> or \<^verbatim>\<open>[]byte\<close> is a
  \<open>string\<close> of bytes. A function that returns a value and an error returns a pair whose
  second half is \<open>None\<close> for the nil error.
\<close>

named_theorems frame \<open>fields an operation leaves alone\<close>
named_theorems go_defs \<open>definitions unfolded to evaluate a closed term\<close>

section \<open>64-bit signed integers\<close>

definition i64 :: "int \<Rightarrow> int" where
  "i64 x = (x + 2 ^ 63) mod 2 ^ 64 - 2 ^ 63"

definition in_i64 :: "int \<Rightarrow> bool" where
  "in_i64 x \<longleftrightarrow> - (2 ^ 63) \<le> x \<and> x < 2 ^ 63"

lemma i64_in_range [simp, intro]: "in_i64 (i64 x)"
proof -
  have "0 \<le> (x + 2 ^ 63) mod 2 ^ 64" "(x + 2 ^ 63) mod 2 ^ 64 < 2 ^ 64"
    by simp_all
  then show ?thesis
    unfolding i64_def in_i64_def by simp
qed

lemma i64_id [simp]: "in_i64 x \<Longrightarrow> i64 x = x"
  by (simp add: i64_def in_i64_def)

lemma i64_idem [simp]: "i64 (i64 x) = i64 x"
  by simp

lemma i64_mod: "i64 x mod 2 ^ 64 = x mod 2 ^ 64"
  by (simp add: i64_def mod_diff_left_eq)

lemma i64_eqI: "x mod 2 ^ 64 = y mod 2 ^ 64 \<Longrightarrow> i64 x = i64 y"
  unfolding i64_def by (metis mod_add_left_eq)

lemma i64_add_left [simp]: "i64 (i64 x + y) = i64 (x + y)"
  by (rule i64_eqI) (metis i64_mod mod_add_left_eq)

lemma i64_add_right [simp]: "i64 (x + i64 y) = i64 (x + y)"
  by (metis add.commute i64_add_left)

lemma i64_diff_right [simp]: "i64 (x - i64 y) = i64 (x - y)"
  by (rule i64_eqI) (metis i64_mod mod_diff_right_eq)

lemma i64_diff_left [simp]: "i64 (i64 x - y) = i64 (x - y)"
  by (rule i64_eqI) (metis i64_mod mod_diff_left_eq)

lemma in_i64_0 [simp]: "in_i64 0"
  by (simp add: in_i64_def)

lemma i64_0 [simp]: "i64 0 = 0"
  by simp

lemma in_i64_between: "in_i64 a \<Longrightarrow> in_i64 b \<Longrightarrow> a \<le> x \<Longrightarrow> x \<le> b \<Longrightarrow> in_i64 x"
  by (auto simp: in_i64_def)

lemma in_i64_nonneg_diff: "in_i64 a \<Longrightarrow> 0 \<le> b \<Longrightarrow> b \<le> a \<Longrightarrow> in_i64 (a - b)"
  by (auto simp: in_i64_def)

lemma in_i64_small: "0 \<le> x \<Longrightarrow> x \<le> 2 ^ 53 \<Longrightarrow> in_i64 x"
  by (simp add: in_i64_def)

text \<open>Go's integer division truncates towards zero.\<close>

definition go_quot :: "int \<Rightarrow> int \<Rightarrow> int" where
  "go_quot a b = sgn a * sgn b * (\<bar>a\<bar> div \<bar>b\<bar>)"

lemma go_quot_nonneg [simp]: "0 \<le> a \<Longrightarrow> 0 < b \<Longrightarrow> go_quot a b = a div b"
  by (cases "a = 0") (auto simp: go_quot_def)

lemma go_quot_pos_iff: "0 < b \<Longrightarrow> 0 < go_quot a b \<longleftrightarrow> b \<le> a"
proof -
  assume b: "0 < b"
  consider "0 < a" | "a = 0" | "a < 0" by linarith
  then show ?thesis
  proof cases
    case 1
    then show ?thesis using b by (simp add: pos_imp_zdiv_pos_iff)
  next
    case 2
    then show ?thesis using b by (simp add: go_quot_def)
  next
    case 3
    then have "go_quot a b = - ((- a) div b)" using b by (simp add: go_quot_def)
    moreover have "0 \<le> (- a) div b" using 3 b by (simp add: pos_imp_zdiv_nonneg_iff)
    ultimately show ?thesis using 3 b by linarith
  qed
qed

section \<open>Byte strings: the package strings\<close>

definition HasPrefix :: "string \<Rightarrow> string \<Rightarrow> bool" where
  "HasPrefix s p \<longleftrightarrow> take (length p) s = p"

definition TrimPrefix :: "string \<Rightarrow> string \<Rightarrow> string" where
  "TrimPrefix s p = (if HasPrefix s p then drop (length p) s else s)"

lemma HasPrefix_append [simp]: "HasPrefix (p @ s) p"
  by (simp add: HasPrefix_def)

lemma TrimPrefix_append [simp]: "TrimPrefix (p @ s) p = s"
  by (simp add: TrimPrefix_def)

lemma HasPrefix_iff: "HasPrefix s p \<longleftrightarrow> prefix p s"
  by (auto simp: HasPrefix_def prefix_def) (metis append_take_drop_id)

text \<open>\<^verbatim>\<open>strings.Split(s, sep)\<close> for a one-byte separator: never empty.\<close>

fun Split :: "string \<Rightarrow> char \<Rightarrow> string list" where
  "Split [] sep = [[]]"
| "Split (c # cs) sep =
     (if c = sep then [] # Split cs sep
      else (case Split cs sep of [] \<Rightarrow> [[c]] | p # ps \<Rightarrow> (c # p) # ps))"

lemma Split_nonempty [simp]: "Split s sep \<noteq> []"
  by (induction s) (auto split: list.splits)

lemma Split_no_sep: "sep \<notin> set s \<Longrightarrow> Split s sep = [s]"
  by (induction s) auto

lemma Split_append_sep:
  "sep \<notin> set s \<Longrightarrow> Split (s @ sep # t) sep = s # Split t sep"
  by (induction s) auto

lemma Split_parts_no_sep: "p \<in> set (Split s sep) \<Longrightarrow> sep \<notin> set p"
proof (induction s arbitrary: p)
  case Nil
  then show ?case by simp
next
  case (Cons c cs)
  then obtain q qs where q: "Split cs sep = q # qs"
    by (cases "Split cs sep") auto
  with Cons.IH have "sep \<notin> set q" "\<And>r. r \<in> set qs \<Longrightarrow> sep \<notin> set r"
    by auto
  with Cons.prems q show ?case
    by (auto split: if_splits)
qed

text \<open>\<^verbatim>\<open>strings.SplitN(s, sep, 3)\<close>: the third part keeps its separators.\<close>

definition SplitN3 :: "string \<Rightarrow> char \<Rightarrow> string list" where
  "SplitN3 s sep =
     (case dropWhile (\<lambda>c. c \<noteq> sep) s of
        [] \<Rightarrow> [s]
      | _ # r \<Rightarrow>
          takeWhile (\<lambda>c. c \<noteq> sep) s #
          (case dropWhile (\<lambda>c. c \<noteq> sep) r of
             [] \<Rightarrow> [r]
           | _ # r' \<Rightarrow> [takeWhile (\<lambda>c. c \<noteq> sep) r, r']))"

text \<open>White space of \<^verbatim>\<open>strings.Fields\<close> and \<^verbatim>\<open>strings.TrimSpace\<close>, for ASCII text.\<close>

definition is_space :: "char \<Rightarrow> bool" where
  "is_space c \<longleftrightarrow> c \<in> {CHR '' '', CHR 0x09, CHR 0x0A, CHR 0x0B, CHR 0x0C, CHR 0x0D}"

definition TrimSpace :: "string \<Rightarrow> string" where
  "TrimSpace s = rev (dropWhile is_space (rev (dropWhile is_space s)))"

fun Fields_acc :: "string \<Rightarrow> string \<Rightarrow> string list" where
  "Fields_acc w [] = (if w = [] then [] else [rev w])"
| "Fields_acc w (c # cs) =
     (if is_space c then (if w = [] then Fields_acc [] cs else rev w # Fields_acc [] cs)
      else Fields_acc (c # w) cs)"

definition Fields :: "string \<Rightarrow> string list" where
  "Fields s = Fields_acc [] s"

definition Contains :: "string \<Rightarrow> string \<Rightarrow> bool" where
  "Contains s t \<longleftrightarrow> (\<exists>i \<in> set [0..<Suc (length s)]. HasPrefix (drop i s) t)"

text \<open>The text after the last occurrence of a byte (the whole text when there is none),
  that is \<^verbatim>\<open>s[strings.LastIndex(s, c)+1:]\<close>.\<close>

definition after_last :: "char \<Rightarrow> string \<Rightarrow> string" where
  "after_last c s = rev (takeWhile (\<lambda>d. d \<noteq> c) (rev s))"

lemma after_last_none: "c \<notin> set s \<Longrightarrow> after_last c s = s"
proof -
  assume "c \<notin> set s"
  then have "takeWhile (\<lambda>d. d \<noteq> c) (rev s) = rev s"
    by (auto simp: takeWhile_eq_all_conv)
  then show ?thesis unfolding after_last_def by (simp only: rev_rev_ident)
qed

lemma after_last_append: "c \<notin> set t \<Longrightarrow> after_last c (s @ c # t) = t"
proof -
  assume "c \<notin> set t"
  then have "takeWhile (\<lambda>d. d \<noteq> c) (rev t @ c # rev s) = rev t"
    by (subst takeWhile_append2) auto
  then show ?thesis by (simp add: after_last_def)
qed

section \<open>Paths: the package path/filepath\<close>

fun join_with :: "string \<Rightarrow> string list \<Rightarrow> string" where
  "join_with sep [] = []"
| "join_with sep [x] = x"
| "join_with sep (x # y # ys) = x @ sep @ join_with sep (y # ys)"

definition clean_part :: "bool \<Rightarrow> string \<Rightarrow> string list \<Rightarrow> string list" where
  "clean_part rooted p acc =
     (if p = [] \<or> p = ''.'' then acc
      else if p = ''..'' then
        (case acc of [] \<Rightarrow> if rooted then [] else [p]
                   | q # qs \<Rightarrow> if q = ''..'' then p # acc else qs)
      else p # acc)"

definition path_Clean :: "string \<Rightarrow> string" where
  "path_Clean s =
     (let rooted = HasPrefix s ''/'';
          body = join_with ''/'' (rev (fold (clean_part rooted) (Split s (CHR ''/'')) []))
      in if rooted then CHR ''/'' # body else if body = [] then ''.'' else body)"

definition path_Join :: "string list \<Rightarrow> string" where
  "path_Join es = (case dropWhile (\<lambda>e. e = []) es of [] \<Rightarrow> [] | es' \<Rightarrow> path_Clean (join_with ''/'' es'))"

section \<open>Numbers in text: the package strconv\<close>

datatype num_error = ErrSyntax | ErrRange

definition is_digit :: "char \<Rightarrow> bool" where
  "is_digit c \<longleftrightarrow> 48 \<le> (of_char c :: int) \<and> (of_char c :: int) \<le> 57"

definition digit_val :: "char \<Rightarrow> int" where
  "digit_val c = of_char c - 48"

definition digits_val :: "string \<Rightarrow> int" where
  "digits_val s = fold (\<lambda>c n. 10 * n + digit_val c) s 0"

text \<open>
  \<^verbatim>\<open>strconv.ParseInt(s, 10, 64)\<close> (and \<^verbatim>\<open>strconv.Atoi\<close>, which agrees with it on
  64-bit platforms): the value together with the error. A syntax error comes with 0, a range
  error with the nearest representable value, exactly as Go returns them. Digits are read from the left as an unsigned
  64-bit number: what follows a digit that overflows it is not looked at.
\<close>

definition parse_digits :: "bool \<Rightarrow> string \<Rightarrow> int \<times> num_error option" where
  "parse_digits neg ds =
     (let read = takeWhile is_digit ds; n = digits_val read in
      if ds = [] \<or> read \<noteq> ds \<and> n < 2 ^ 64 then (0, Some ErrSyntax)
      else
        if neg then (if n \<le> 2 ^ 63 then (- n, None) else (- (2 ^ 63), Some ErrRange))
        else (if n < 2 ^ 63 then (n, None) else (2 ^ 63 - 1, Some ErrRange)))"

definition ParseInt :: "string \<Rightarrow> int \<times> num_error option" where
  "ParseInt s =
     (case s of
        [] \<Rightarrow> (0, Some ErrSyntax)
      | c # cs \<Rightarrow>
          if c = CHR ''-'' then parse_digits True cs
          else if c = CHR ''+'' then parse_digits False cs
          else parse_digits False s)"

lemma digits_val_snoc: "digits_val (s @ [c]) = 10 * digits_val s + digit_val c"
  by (simp add: digits_val_def)

lemma digits_val_nonneg: "list_all is_digit s \<Longrightarrow> 0 \<le> digits_val s"
  by (induction s rule: rev_induct)
     (auto simp: digits_val_snoc digit_val_def is_digit_def, simp add: digits_val_def)

lemma parse_digits_in_range: "in_i64 (fst (parse_digits neg ds))"
proof -
  have "list_all is_digit (takeWhile is_digit ds)" by (auto simp: list_all_iff dest: set_takeWhileD)
  from digits_val_nonneg[OF this] show ?thesis by (auto simp: parse_digits_def in_i64_def Let_def)
qed

lemma ParseInt_in_range: "in_i64 (fst (ParseInt s))"
  by (auto simp: ParseInt_def parse_digits_in_range split: list.splits)

text \<open>Decimal printing of an integer (\<^verbatim>\<open>%d\<close>).\<close>

definition digit_char :: "nat \<Rightarrow> char" where
  "digit_char d = char_of (48 + d)"

fun nat_digits :: "nat \<Rightarrow> string" where
  "nat_digits n = (if n < 10 then [digit_char n] else nat_digits (n div 10) @ [digit_char (n mod 10)])"

declare nat_digits.simps [simp del]

definition itoa :: "int \<Rightarrow> string" where
  "itoa n = (if n < 0 then CHR ''-'' # nat_digits (nat (- n)) else nat_digits (nat n))"

lemma digit_char_props:
  assumes "d < 10"
  shows "is_digit (digit_char d)" "digit_val (digit_char d) = int d"
    "digit_char d \<noteq> CHR ''-''" "digit_char d \<noteq> CHR ''+''" "digit_char d \<noteq> CHR '',''" "\<not> is_space (digit_char d)"
proof -
  have n: "(of_char (digit_char d) :: nat) = 48 + d"
    using assms by (simp add: digit_char_def of_char_of)
  have c: "(of_char (digit_char d) :: int) = 48 + int d"
    using arg_cong[OF n, of int] by (simp add: of_nat_of_char)
  then show "is_digit (digit_char d)" "digit_val (digit_char d) = int d"
    using assms by (auto simp: is_digit_def digit_val_def)
  have "(of_char (CHR ''-'') :: int) = 45" "(of_char (CHR ''+'') :: int) = 43"
    "(of_char (CHR '','') :: int) = 44" "(of_char (CHR '' '') :: int) = 32" by simp_all
  with c show "digit_char d \<noteq> CHR ''-''" "digit_char d \<noteq> CHR ''+''" "digit_char d \<noteq> CHR '',''"
    by auto
  show "\<not> is_space (digit_char d)" using c by (auto simp: is_space_def)
qed

lemma nat_digits_chars:
  "x \<in> set (nat_digits n) \<Longrightarrow> \<exists>d < 10. x = digit_char d"
proof (induction n rule: nat_digits.induct)
  case (1 n)
  show ?case
  proof (cases "n < 10")
    case True
    with "1.prems" show ?thesis by (auto simp: nat_digits.simps[of n])
  next
    case False
    with "1.prems" have "x \<in> set (nat_digits (n div 10)) \<or> x = digit_char (n mod 10)"
      by (simp add: nat_digits.simps[of n] disj_commute)
    moreover have "n mod 10 < 10" by simp
    ultimately show ?thesis using "1.IH"[OF False] by metis
  qed
qed

lemma nat_digits_nonempty [simp]: "nat_digits n \<noteq> []"
  by (subst nat_digits.simps) simp

lemma digits_val_nat_digits: "digits_val (nat_digits n) = int n"
proof (induction n rule: nat_digits.induct)
  case (1 n)
  show ?case
  proof (cases "n < 10")
    case True
    then show ?thesis
      by (simp add: nat_digits.simps[of n] digits_val_def digit_char_props)
  next
    case False
    with 1 show ?thesis
      by (simp add: nat_digits.simps[of n] digits_val_snoc digit_char_props zdiv_int zmod_int)
  qed
qed

lemma nat_digits_all_digits: "list_all is_digit (nat_digits n)"
  by (auto simp: list_all_iff dest!: nat_digits_chars digit_char_props(1))

lemma parse_digits_nat_digits:
  "int n < 2 ^ 63 \<Longrightarrow> parse_digits False (nat_digits n) = (int n, None)"
  "int n \<le> 2 ^ 63 \<Longrightarrow> parse_digits True (nat_digits n) = (- int n, None)"
proof -
  have tw: "takeWhile is_digit (nat_digits n) = nat_digits n" using nat_digits_all_digits[of n] by (simp add: takeWhile_eq_all_conv list_all_iff)
  show "int n < 2 ^ 63 \<Longrightarrow> parse_digits False (nat_digits n) = (int n, None)"
    "int n \<le> 2 ^ 63 \<Longrightarrow> parse_digits True (nat_digits n) = (- int n, None)"
    by (simp_all add: parse_digits_def Let_def tw digits_val_nat_digits)
qed

lemma nat_digits_no_sign:
  "nat_digits n = c # cs \<Longrightarrow> c \<noteq> CHR ''-'' \<and> c \<noteq> CHR ''+''"
  using nat_digits_chars[of c n] digit_char_props(3,4) by fastforce

lemma ParseInt_itoa: "in_i64 n \<Longrightarrow> ParseInt (itoa n) = (n, None)"
proof (cases "n < 0")
  case True
  assume "in_i64 n"
  with True show ?thesis
    by (simp add: ParseInt_def itoa_def in_i64_def parse_digits_nat_digits)
next
  case False
  assume n: "in_i64 n"
  obtain c cs where e: "nat_digits (nat n) = c # cs" by (cases "nat_digits (nat n)") auto
  have "parse_digits False (nat_digits (nat n)) = (n, None)"
    using n False by (simp add: in_i64_def parse_digits_nat_digits)
  with False e nat_digits_no_sign[OF e] show ?thesis
    by (simp add: ParseInt_def itoa_def)
qed

lemma itoa_nonempty [simp]: "itoa n \<noteq> []"
  by (simp add: itoa_def)

text \<open>The first value a partial function gives along a list: a loop that returns at the
  first line it can use.\<close>

fun first_some :: "('a \<Rightarrow> 'b option) \<Rightarrow> 'a list \<Rightarrow> 'b option" where
  "first_some f [] = None"
| "first_some f (x # xs) = (case f x of None \<Rightarrow> first_some f xs | Some y \<Rightarrow> Some y)"

lemma first_some_None: "first_some f xs = None \<longleftrightarrow> (\<forall>x \<in> set xs. f x = None)"
  by (induction xs) (auto split: option.splits)

lemma first_some_SomeD: "first_some f xs = Some y \<Longrightarrow> \<exists>x \<in> set xs. f x = Some y"
  by (induction xs) (auto split: option.splits)

lemma first_some_same_dom:
  assumes "\<And>x. f x = None \<longleftrightarrow> g x = None"
  shows "first_some f xs = Some y \<Longrightarrow> \<exists>x \<in> set xs. f x = Some y \<and> first_some g xs = g x"
proof (induction xs)
  case (Cons x xs)
  show ?case
  proof (cases "f x")
    case None
    with assms have "g x = None" by blast
    with None Cons show ?thesis by auto
  next
    case (Some z)
    with assms[of x] obtain w where "g x = Some w" by auto
    with Some Cons show ?thesis by auto
  qed
qed simp

section \<open>The host at one instant\<close>

text \<open>
  What the runtime reads from outside its own memory at one instant: \<^verbatim>\<open>os.Getenv\<close> (the
  empty string for an unset variable), \<^verbatim>\<open>os.ReadFile\<close> (\<open>None\<close> when it fails) and
  \<^verbatim>\<open>time.Now().UnixNano()\<close>. A function of the source that reads several files in a row
  reads them from one such view.
\<close>

record host =
  getenv :: "string \<Rightarrow> string"
  files :: "string \<Rightarrow> string option"
  now :: int

section \<open>Configuration readers\<close>

text \<open>
  The readers of integer variables share one shape: a default, replaced by the variable when
  it parses and passes a test. \<open>Duration\<close>s are in nanoseconds; a number of milliseconds is
  multiplied in 64-bit arithmetic, as \<^verbatim>\<open>time.Duration(ms) * time.Millisecond\<close> does.
\<close>

definition env_int :: "(int \<Rightarrow> bool) \<Rightarrow> host \<Rightarrow> string \<Rightarrow> int \<Rightarrow> int" where
  "env_int ok h name def =
     (let v = getenv h name in
      if v \<noteq> [] then
        (case ParseInt v of (parsed, None) \<Rightarrow> if ok parsed then parsed else def
                          | (_, Some _) \<Rightarrow> def)
      else def)"

definition positiveIntEnv :: "host \<Rightarrow> string \<Rightarrow> int \<Rightarrow> int" where
  "positiveIntEnv h name def = env_int (\<lambda>n. 0 < n) h name def"

definition millis :: "int \<Rightarrow> int" where
  "millis ms = i64 (ms * 1000000)"

lemma env_int_ok: "ok def \<Longrightarrow> ok (env_int ok h name def)"
  by (auto simp: env_int_def Let_def split: prod.splits option.splits)

lemma positiveIntEnv_pos: "0 < def \<Longrightarrow> 0 < positiveIntEnv h name def"
  unfolding positiveIntEnv_def by (rule env_int_ok)

lemma positiveIntEnv_unset: "getenv h name = [] \<Longrightarrow> positiveIntEnv h name def = def"
  by (simp add: positiveIntEnv_def env_int_def)

section \<open>Simulation between a detailed component and its specification\<close>

text \<open>
  A component keeps a concrete state, its specification an abstract one; both answer the same
  operations. When every permitted operation keeps the relation between the two states, so
  does every permitted run.
\<close>

locale simulation =
  fixes R :: "'c \<Rightarrow> 'a \<Rightarrow> bool"
    and cstep :: "'o \<Rightarrow> 'c \<Rightarrow> 'c"
    and astep :: "'o \<Rightarrow> 'a \<Rightarrow> 'a"
    and ok :: "'o \<Rightarrow> 'a \<Rightarrow> bool"
  assumes step: "R c a \<Longrightarrow> ok x a \<Longrightarrow> R (cstep x c) (astep x a)"
begin

fun permitted :: "'o list \<Rightarrow> 'a \<Rightarrow> bool" where
  "permitted [] a = True"
| "permitted (x # xs) a = (ok x a \<and> permitted xs (astep x a))"

lemma run: "R c a \<Longrightarrow> permitted xs a \<Longrightarrow> R (fold cstep xs c) (fold astep xs a)"
  by (induction xs arbitrary: c a) (auto intro: step)

end

section \<open>Invariants of a step function\<close>

text \<open>
  An invariant is a property of the states that every operation keeps whatever its argument;
  it then holds after every sequence of operations.
\<close>

locale invariant_steps =
  fixes inv :: "'s \<Rightarrow> bool" and step :: "'o \<Rightarrow> 's \<Rightarrow> 's"
  assumes keeps: "inv s \<Longrightarrow> inv (step x s)"
begin

lemma run_keeps: "inv s \<Longrightarrow> inv (fold step xs s)"
  by (induction xs arbitrary: s) (auto intro: keeps)

end

end
