(* ===== verification/Float64.thy ===== *)
theory Float64
  imports Complex_Main Prelude
begin

text \<open>
  Go's \<^verbatim>\<open>float64\<close>: a finite value is the rational it denotes, and every arithmetic
  operation rounds its exact result to the nearest representable value, ties to even
  (IEEE 754 binary64: 53 significant bits, exponents down to \<open>2^-1074\<close>, overflow to an
  infinity). The sign of a zero is not represented: no operation of the modelled code can
  observe it. Conversion to \<^verbatim>\<open>int64\<close> truncates; out of range it gives \<open>-2^63\<close>, what
  amd64 (the platform of the images) returns.

  The theory then shows what the energy code relies on: rounding is monotone, and integers of
  at most 53 bits are exact.
\<close>

section \<open>Rounding\<close>

function bit_len :: "int \<Rightarrow> int" where
  "bit_len n = (if n \<le> 0 then 0 else 1 + bit_len (n div 2))"
  by pat_completeness auto
termination
  by (relation "measure nat") auto

declare bit_len.simps [simp del]

definition flog2 :: "rat \<Rightarrow> int" where
  "flog2 x = (let (n, d) = quotient_of x; k = bit_len n - bit_len d in
     if 2 powi k \<le> x then k else k - 1)"

definition half_even :: "rat \<Rightarrow> int" where
  "half_even y = (let f = \<lfloor>y\<rfloor>; r = y - of_int f in
     if r < 1/2 then f else if r > 1/2 then f + 1 else if even f then f else f + 1)"

definition ulp_exp :: "rat \<Rightarrow> int" where
  "ulp_exp x = max (flog2 \<bar>x\<bar> - 52) (- 1074)"

definition rnd :: "rat \<Rightarrow> rat" where
  "rnd x = (if x = 0 then 0
            else let u = 2 powi ulp_exp x in of_int (half_even (x / u)) * u)"

section \<open>Values and operations\<close>

datatype f64 = Fin rat | PInf | NInf | NaN

definition to_f64 :: "rat \<Rightarrow> f64" where
  "to_f64 x = (let r = rnd x in
     if r \<noteq> 0 \<and> 1024 \<le> flog2 \<bar>r\<bar> then (if 0 < r then PInf else NInf) else Fin r)"

definition f_of_int :: "int \<Rightarrow> f64" where
  "f_of_int n = to_f64 (of_int n)"

fun f_add :: "f64 \<Rightarrow> f64 \<Rightarrow> f64" where
  "f_add NaN _ = NaN"
| "f_add _ NaN = NaN"
| "f_add PInf NInf = NaN"
| "f_add NInf PInf = NaN"
| "f_add PInf _ = PInf"
| "f_add _ PInf = PInf"
| "f_add NInf _ = NInf"
| "f_add _ NInf = NInf"
| "f_add (Fin a) (Fin b) = to_f64 (a + b)"

definition f_signed_inf :: "rat \<Rightarrow> f64" where
  "f_signed_inf a = (if a = 0 then NaN else if 0 < a then PInf else NInf)"

fun f_mul :: "f64 \<Rightarrow> f64 \<Rightarrow> f64" where
  "f_mul NaN _ = NaN"
| "f_mul _ NaN = NaN"
| "f_mul PInf PInf = PInf"
| "f_mul PInf NInf = NInf"
| "f_mul NInf PInf = NInf"
| "f_mul NInf NInf = PInf"
| "f_mul PInf (Fin b) = f_signed_inf b"
| "f_mul NInf (Fin b) = f_signed_inf (- b)"
| "f_mul (Fin a) PInf = f_signed_inf a"
| "f_mul (Fin a) NInf = f_signed_inf (- a)"
| "f_mul (Fin a) (Fin b) = to_f64 (a * b)"

fun f_div :: "f64 \<Rightarrow> f64 \<Rightarrow> f64" where
  "f_div NaN _ = NaN"
| "f_div _ NaN = NaN"
| "f_div (Fin a) (Fin b) = (if b = 0 then f_signed_inf a else to_f64 (a / b))"
| "f_div (Fin a) _ = Fin 0"
| "f_div PInf (Fin b) = (if 0 \<le> b then PInf else NInf)"
| "f_div NInf (Fin b) = (if 0 \<le> b then NInf else PInf)"
| "f_div _ _ = NaN"

fun f_lt :: "f64 \<Rightarrow> f64 \<Rightarrow> bool" where
  "f_lt (Fin a) (Fin b) = (a < b)"
| "f_lt (Fin a) PInf = True"
| "f_lt NInf (Fin b) = True"
| "f_lt NInf PInf = True"
| "f_lt _ _ = False"

definition f_le :: "f64 \<Rightarrow> f64 \<Rightarrow> bool" where
  "f_le a b \<longleftrightarrow> f_lt a b \<or> (a = b \<and> a \<noteq> NaN)"

fun f_to_i64 :: "f64 \<Rightarrow> int" where
  "f_to_i64 (Fin r) = (let t = (if 0 \<le> r then \<lfloor>r\<rfloor> else \<lceil>r\<rceil>) in
     if in_i64 t then t else - (2 ^ 63))"
| "f_to_i64 _ = - (2 ^ 63)"

definition f_finite :: "f64 \<Rightarrow> bool" where
  "f_finite x \<longleftrightarrow> (case x of Fin _ \<Rightarrow> True | _ \<Rightarrow> False)"

section \<open>Logarithm and rounding lemmas\<close>

lemma f_to_i64_in_i64 [simp]: "in_i64 (f_to_i64 x)"
  by (cases x) (auto simp: Let_def in_i64_def)

lemma powi_two_Suc: "(2::rat) powi (k + 1) = 2 * 2 powi k"
  by (simp add: power_int_add)

lemma powi_two_pred: "(2::rat) powi (k - 1) = 2 powi k / 2"
  by (simp add: power_int_diff)

lemma powi_two_int_ex: "0 \<le> k \<Longrightarrow> \<exists>j. (2::rat) powi k = of_int j"
  by (metis of_int_numeral of_int_power power_int_def)

lemma bit_len_0 [simp]: "bit_len 0 = 0"
  by (simp add: bit_len.simps)

lemma bit_len_bounds:
  "0 < n \<Longrightarrow> 0 \<le> bit_len n \<and> 2 powi bit_len n \<le> (2 * of_int n :: rat) \<and> of_int n < (2::rat) powi bit_len n"
proof (induction n rule: bit_len.induct)
  case (1 n)
  show ?case
  proof (cases "n = 1")
    case True
    then show ?thesis by (simp add: bit_len.simps)
  next
    case False
    let ?m = "n div 2"
    have m: "0 < ?m" "2 * ?m \<le> n" "n < 2 * ?m + 2" using "1.prems" False by linarith+
    have ih: "0 \<le> bit_len ?m" "2 powi bit_len ?m \<le> (2 * of_int ?m :: rat)" "of_int ?m < (2::rat) powi bit_len ?m"
      using "1.IH" "1.prems" m(1) by auto
    have e: "bit_len n = 1 + bit_len ?m" using "1.prems" by (subst bit_len.simps) simp
    have p: "(2::rat) powi bit_len n = 2 * 2 powi bit_len ?m" by (simp add: e power_int_add)
    obtain j where j: "(2::rat) powi bit_len ?m = of_int j"
      using powi_two_int_ex[OF ih(1)] by blast
    have "of_int ?m + 1 \<le> (2::rat) powi bit_len ?m" using ih(3) unfolding j
      by (metis add.commute of_int_1 of_int_add of_int_le_iff of_int_less_iff zless_imp_add1_zle)
    moreover have "(of_int n :: rat) < 2 * of_int ?m + 2" "(2 * of_int ?m :: rat) \<le> of_int n"
      using m(2,3) by linarith+
    ultimately show ?thesis using ih e unfolding p by linarith
  qed
qed

lemma powi_two_le_mono [simp]: "(2::rat) powi a \<le> 2 powi b \<longleftrightarrow> a \<le> b"
  using power_int_strict_increasing[of a b "2::rat"] power_int_increasing[of b a "2::rat"]
    power_int_increasing[of a b "2::rat"] power_int_strict_increasing[of b a "2::rat"]
  by (cases "a \<le> b") (auto simp: not_le)

lemma powi_two_less_mono [simp]: "(2::rat) powi a < 2 powi b \<longleftrightarrow> a < b"
  by (simp add: less_le_not_le)

lemma powi_two_pos [simp]: "0 < (2::rat) powi a"
  by simp

lemma powi_two_ratio: "(2::rat) powi a / 2 powi b = 2 powi (a - b)"
  by (simp add: power_int_diff)

lemma powi_two_int: "b \<le> a \<Longrightarrow> (2::rat) powi a = of_int (2 ^ nat (a - b)) * 2 powi b"
proof -
  assume "b \<le> a"
  then have "(2::rat) powi a = 2 powi (int (nat (a - b)) + b)" by simp
  also have "\<dots> = 2 powi int (nat (a - b)) * 2 powi b" by (simp add: power_int_add)
  finally show ?thesis by (simp add: power_int_def)
qed

lemma flog2_bounds:
  assumes x: "0 < x"
  shows "2 powi flog2 x \<le> x \<and> x < 2 powi (flog2 x + 1)"
proof -
  obtain n d where q: "quotient_of x = (n, d)" by (cases "quotient_of x")
  then have d: "0 < d" by (rule quotient_of_denom_pos)
  from q have xe: "x = of_int n / of_int d" by (rule quotient_of_div)
  with x d have n: "0 < n" by (simp add: zero_less_divide_iff)
  let ?a = "(2::rat) powi bit_len n" and ?b = "(2::rat) powi bit_len d"
  let ?k = "bit_len n - bit_len d"
  have na: "?a \<le> 2 * of_int n" "of_int n < ?a" using bit_len_bounds[OF n] by auto
  have db: "?b \<le> 2 * of_int d" "of_int d < ?b" using bit_len_bounds[OF d] by auto
  have pk: "(2::rat) powi ?k = ?a / ?b" by (simp add: power_int_diff)
  have up: "x < 2 powi (?k + 1)"
  proof -
    have "of_int n * ?b < ?a * (2 * of_int d)"
      using na(2) db(1) n d by (intro mult_less_le_imp_less) auto
    then have "x < 2 * (?a / ?b)" unfolding xe using d by (simp add: field_simps)
    then show ?thesis unfolding powi_two_Suc pk .
  qed
  have lo: "2 powi (?k - 1) \<le> x"
  proof -
    have "?a * of_int d \<le> 2 * of_int n * ?b"
      using na(1) db(2) n d by (intro mult_mono) auto
    then have "?a / ?b / 2 \<le> x" unfolding xe using d by (simp add: field_simps)
    then show ?thesis unfolding powi_two_pred pk .
  qed
  show ?thesis
    using up lo by (auto simp: flog2_def q Let_def)
qed

lemma flog2_unique:
  assumes "2 powi k \<le> x" and "x < 2 powi (k + 1)"
  shows "flog2 x = k"
proof -
  have x: "0 < x" using assms(1) powi_two_pos[of k] by linarith
  have "(2::rat) powi flog2 x < 2 powi (k + 1)" "(2::rat) powi k < 2 powi (flog2 x + 1)"
    using flog2_bounds[OF x] assms by linarith+
  then show ?thesis by simp
qed

lemma flog2_mono: "0 < x \<Longrightarrow> x \<le> y \<Longrightarrow> flog2 x \<le> flog2 y"
proof -
  assume x: "0 < x" and xy: "x \<le> y"
  then have "(2::rat) powi flog2 x < 2 powi (flog2 y + 1)"
    using flog2_bounds[of x] flog2_bounds[of y] by linarith
  then show ?thesis by simp
qed

lemma half_even_of_int [simp]: "half_even (of_int n) = n"
  by (simp add: half_even_def)

lemma half_even_near: "\<bar>of_int (half_even y) - y\<bar> \<le> 1/2"
proof -
  have f: "of_int \<lfloor>y\<rfloor> \<le> y" "y < of_int \<lfloor>y\<rfloor> + 1" by linarith+
  show ?thesis using f by (auto simp: half_even_def Let_def abs_le_iff not_less)
qed

lemma half_even_mono: "x \<le> y \<Longrightarrow> half_even x \<le> half_even y"
proof -
  assume xy: "x \<le> y"
  then have "\<lfloor>x\<rfloor> \<le> \<lfloor>y\<rfloor>" by (rule floor_mono)
  then consider "\<lfloor>x\<rfloor> = \<lfloor>y\<rfloor>" | "\<lfloor>x\<rfloor> + 1 \<le> \<lfloor>y\<rfloor>" by linarith
  then show ?thesis
  proof cases
    case 1
    then show ?thesis using xy by (auto simp: half_even_def Let_def)
  next
    case 2
    have "half_even x \<le> \<lfloor>x\<rfloor> + 1" "\<lfloor>y\<rfloor> \<le> half_even y"
      by (auto simp: half_even_def Let_def)
    with 2 show ?thesis by linarith
  qed
qed

lemma half_even_neg: "half_even (- y) = - half_even y"
proof (cases "y \<in> \<int>")
  case True
  then obtain n where "y = of_int n" by (auto elim: Ints_cases)
  then show ?thesis by (metis half_even_of_int of_int_minus)
next
  case False
  then have fl: "\<lfloor>- y\<rfloor> = - \<lfloor>y\<rfloor> - 1"
    by (metis ceiling_altdef ceiling_def Ints_of_int add_diff_cancel_right' minus_add_distrib uminus_add_conv_diff minus_equation_iff diff_minus_eq_add add.commute)
  show ?thesis unfolding half_even_def Let_def fl by (auto simp: algebra_simps)
qed

lemma ulp_exp_neg [simp]: "ulp_exp (- x) = ulp_exp x"
  by (simp add: ulp_exp_def)

lemma rnd_0 [simp]: "rnd 0 = 0"
  by (simp add: rnd_def)

lemma rnd_neg: "rnd (- x) = - rnd x"
  by (simp add: rnd_def Let_def half_even_neg minus_divide_left [symmetric])

lemma rnd_multiple:
  assumes "x = of_int n * 2 powi ulp_exp x"
  shows "rnd x = x"
proof -
  have "x / 2 powi ulp_exp x = of_int n"
    using assms powi_two_pos[of "ulp_exp x"] by (simp add: nonzero_divide_eq_eq)
  then show ?thesis using assms by (auto simp: rnd_def Let_def)
qed

lemma rnd_scale:
  assumes "x \<noteq> 0" and "ulp_exp x \<le> k"
  shows "x \<le> 2 powi k \<Longrightarrow> rnd x \<le> 2 powi k" and "2 powi k \<le> x \<Longrightarrow> 2 powi k \<le> rnd x"
proof -
  let ?u = "2 powi ulp_exp x :: rat" and ?m = "2 ^ nat (k - ulp_exp x) :: int"
  have p: "2 powi k = of_int ?m * ?u" using assms(2) by (rule powi_two_int)
  have r: "rnd x = of_int (half_even (x / ?u)) * ?u" using assms(1) by (simp add: rnd_def Let_def)
  show "rnd x \<le> 2 powi k" if "x \<le> 2 powi k"
  proof -
    have "x / ?u \<le> of_int ?m" using that unfolding p by (simp only: pos_divide_le_eq powi_two_pos)
    then have "half_even (x / ?u) \<le> half_even (of_int ?m)" by (rule half_even_mono)
    then have "half_even (x / ?u) \<le> ?m" by (simp only: half_even_of_int)
    then have "(of_int (half_even (x / ?u)) :: rat) \<le> of_int ?m" by (simp only: of_int_le_iff)
    then show ?thesis unfolding r p by (intro mult_right_mono) auto
  qed
  show "2 powi k \<le> rnd x" if "2 powi k \<le> x"
  proof -
    have "of_int ?m \<le> x / ?u" using that unfolding p by (simp only: pos_le_divide_eq powi_two_pos)
    then have "half_even (of_int ?m) \<le> half_even (x / ?u)" by (rule half_even_mono)
    then have "?m \<le> half_even (x / ?u)" by (simp only: half_even_of_int)
    then have "(of_int ?m :: rat) \<le> of_int (half_even (x / ?u))" by (simp only: of_int_le_iff)
    then show ?thesis unfolding r p by (intro mult_right_mono) auto
  qed
qed

lemma rnd_nonneg: "0 \<le> x \<Longrightarrow> 0 \<le> rnd x"
proof (cases "x = 0")
  case False
  assume "0 \<le> x"
  then have "half_even 0 \<le> half_even (x / 2 powi ulp_exp x)"
    by (intro half_even_mono) simp
  then have "0 \<le> half_even (x / 2 powi ulp_exp x)"
    using half_even_of_int[of 0] by simp
  then show ?thesis using False by (simp add: rnd_def Let_def)
qed simp

lemma rnd_mono_pos:
  assumes x: "0 < x" and xy: "x \<le> y"
  shows "rnd x \<le> rnd y"
proof (cases "ulp_exp x = ulp_exp y")
  case True
  let ?u = "2 powi ulp_exp y :: rat"
  have "half_even (x / ?u) \<le> half_even (y / ?u)"
    using xy by (intro half_even_mono divide_right_mono) auto
  then show ?thesis using True x xy by (auto simp: rnd_def Let_def)
next
  case False
  have l: "flog2 x \<le> flog2 y" using x xy by (rule flog2_mono)
  with False x xy have lt: "flog2 x < flog2 y" and uy: "ulp_exp y \<le> flog2 y"
    by (auto simp: ulp_exp_def)
  have ux: "ulp_exp x \<le> flog2 y"
    using l False x xy by (auto simp: ulp_exp_def)
  have "x \<le> 2 powi flog2 y"
    using flog2_bounds[OF x] lt powi_two_le_mono[of "flog2 x + 1" "flog2 y"] by linarith
  then have "rnd x \<le> 2 powi flog2 y" using rnd_scale(1)[OF _ ux] x by simp
  also have "\<dots> \<le> rnd y"
    using flog2_bounds[of y] x xy rnd_scale(2)[OF _ uy] by auto
  finally show ?thesis .
qed

lemma rnd_mono: "x \<le> y \<Longrightarrow> rnd x \<le> rnd y"
proof -
  assume xy: "x \<le> y"
  consider "0 < x" | "x \<le> 0" "0 \<le> y" | "y < 0" by linarith
  then show ?thesis
  proof cases
    case 1
    then show ?thesis using xy by (rule rnd_mono_pos)
  next
    case 2
    then show ?thesis using rnd_nonneg[of y] rnd_nonneg[of "- x"] rnd_neg[of x] by linarith
  next
    case 3
    then have "rnd (- y) \<le> rnd (- x)" using xy by (intro rnd_mono_pos) auto
    then show ?thesis by (simp add: rnd_neg)
  qed
qed

lemma rnd_int_pos:
  assumes "0 < n" and "n \<le> 2 ^ 53"
  shows "rnd (of_int n) = of_int n"
proof (cases "n = 2 ^ 53")
  case True
  have "flog2 (2 ^ 53) = 53" by (rule flog2_unique) (simp_all add: power_int_def)
  then have "ulp_exp (2 ^ 53) = 1" by (simp add: ulp_exp_def)
  then have "rnd (2 ^ 53) = 2 ^ 53" by (intro rnd_multiple[of _ "2 ^ 52"]) simp
  then show ?thesis using True by simp
next
  case False
  with assms have n: "(of_int n :: rat) < 2 powi 53" "0 < (of_int n :: rat)"
    by (simp_all add: power_int_def)
  then have "(2::rat) powi flog2 (of_int n) < 2 powi 53"
    using flog2_bounds[OF n(2)] by linarith
  then have "flog2 (of_int n) < 53" by (simp only: powi_two_less_mono)
  then have u: "ulp_exp (of_int n) \<le> 0" using n by (simp add: ulp_exp_def)
  have "(1::rat) = of_int (2 ^ nat (0 - ulp_exp (of_int n))) * 2 powi ulp_exp (of_int n)"
    using powi_two_int[OF u] by simp
  then have "of_int n = of_int (n * 2 ^ nat (0 - ulp_exp (of_int n))) * (2::rat) powi ulp_exp (of_int n)"
    by (metis mult.assoc mult.right_neutral of_int_mult)
  then show ?thesis by (rule rnd_multiple)
qed

lemma rnd_int: "\<bar>n\<bar> \<le> 2 ^ 53 \<Longrightarrow> rnd (of_int n) = of_int n"
  using rnd_int_pos[of n] rnd_int_pos[of "- n"] rnd_neg[of "of_int n"]
  by (cases "0 < n"; cases "n = 0") auto

lemma rnd_abs_le:
  assumes "\<bar>x\<bar> \<le> 2 powi k" and "- 1074 \<le> k"
  shows "\<bar>rnd x\<bar> \<le> 2 powi k"
proof (cases "x = 0")
  case False
  then have p: "0 < \<bar>x\<bar>" by simp
  have "(2::rat) powi flog2 \<bar>x\<bar> \<le> 2 powi k" using flog2_bounds[OF p] assms(1) by linarith
  then have u: "ulp_exp x \<le> k" using assms(2) by (simp add: ulp_exp_def)
  have "rnd x \<le> 2 powi k" "rnd (- x) \<le> 2 powi k"
    using rnd_scale(1)[OF False u] rnd_scale(1)[of "- x" k] False u assms(1) by auto
  then show ?thesis by (simp add: rnd_neg abs_le_iff)
qed simp

lemma to_f64_Fin: "\<bar>x\<bar> \<le> 2 ^ 1023 \<Longrightarrow> to_f64 x = Fin (rnd x)"
proof -
  assume "\<bar>x\<bar> \<le> 2 ^ 1023"
  then have r: "\<bar>rnd x\<bar> \<le> 2 powi 1023" by (intro rnd_abs_le) (simp_all add: power_int_def)
  have "flog2 \<bar>rnd x\<bar> < 1024" if "rnd x \<noteq> 0"
  proof -
    have "(2::rat) powi flog2 \<bar>rnd x\<bar> \<le> 2 powi 1023"
      using flog2_bounds[of "\<bar>rnd x\<bar>"] that r by simp
    then show ?thesis by (simp only: powi_two_le_mono)
  qed
  then show ?thesis by (auto simp: to_f64_def Let_def)
qed

lemma rat_le_pow_trans: "\<bar>x\<bar> \<le> (2::rat) ^ m \<Longrightarrow> m \<le> n \<Longrightarrow> \<bar>x\<bar> \<le> 2 ^ n"
  by (erule order_trans) (rule power_increasing, simp_all)

lemma to_f64_small: "\<bar>x\<bar> \<le> 2 ^ 63 \<Longrightarrow> to_f64 x = Fin (rnd x)"
  by (rule to_f64_Fin, erule rat_le_pow_trans) simp

lemma rnd_relative:
  assumes "2 powi (- 1022) \<le> \<bar>x\<bar>"
  shows "\<bar>rnd x - x\<bar> \<le> \<bar>x\<bar> / 2 ^ 53"
proof -
  let ?u = "2 powi ulp_exp x :: rat"
  have x0: "0 < \<bar>x\<bar>" using assms by (metis less_le_trans powi_two_pos)
  note b = flog2_bounds[OF x0]
  have "2 powi (- 1022) < (2::rat) powi (flog2 \<bar>x\<bar> + 1)" using assms b by linarith
  then have "- 1022 < flog2 \<bar>x\<bar> + 1" by (simp only: powi_two_less_mono)
  then have "ulp_exp x = flog2 \<bar>x\<bar> - 52" by (simp add: ulp_exp_def)
  then have u: "?u = 2 powi flog2 \<bar>x\<bar> / 2 ^ 52" by (simp add: power_int_diff)
  have "rnd x - x = (of_int (half_even (x / ?u)) - x / ?u) * ?u"
    using x0 by (simp add: rnd_def Let_def left_diff_distrib)
  then have "\<bar>rnd x - x\<bar> = \<bar>of_int (half_even (x / ?u)) - x / ?u\<bar> * ?u"
    by (simp only: abs_mult abs_of_pos[OF powi_two_pos])
  also have "\<dots> \<le> 1/2 * ?u" by (intro mult_right_mono half_even_near) simp
  also have "\<dots> \<le> \<bar>x\<bar> / 2 ^ 53" using b u by simp
  finally show ?thesis .
qed

lemma in_i64_abs_rat: "in_i64 n \<Longrightarrow> \<bar>of_int n :: rat\<bar> \<le> 2 ^ 63"
proof -
  assume "in_i64 n"
  then have "\<bar>n\<bar> \<le> 2 ^ 63" by (auto simp: in_i64_def)
  then have "(of_int \<bar>n\<bar> :: rat) \<le> of_int (2 ^ 63)" by (simp only: of_int_le_iff)
  then show ?thesis by (simp only: of_int_abs of_int_power of_int_numeral)
qed

lemma f_of_int_Fin: "in_i64 n \<Longrightarrow> f_of_int n = Fin (rnd (of_int n))"
  unfolding f_of_int_def by (rule to_f64_small, rule in_i64_abs_rat)

lemma f_of_int_exact: "\<bar>n\<bar> \<le> 2 ^ 53 \<Longrightarrow> f_of_int n = Fin (of_int n)"
  by (subst f_of_int_Fin) (auto simp: in_i64_def rnd_int abs_le_iff)

section \<open>The contract the energy arithmetic relies on\<close>

text \<open>
  What attribution needs of a rounding function: it is monotone and keeps the integers of at
  most 53 bits. The client lemmas are proved once for any such function.
\<close>

locale rounding =
  fixes r :: "rat \<Rightarrow> rat"
  assumes mono: "x \<le> y \<Longrightarrow> r x \<le> r y"
    and int_exact: "\<bar>n\<bar> \<le> 2 ^ 53 \<Longrightarrow> r (of_int n) = of_int n"
begin

lemma zero: "r 0 = 0"
  using int_exact[of 0] by simp

lemma one: "r 1 = 1"
  using int_exact[of 1] by simp

lemma nonneg: "0 \<le> x \<Longrightarrow> 0 \<le> r x"
  using mono[of 0 x] zero by simp

lemma int_upper: "\<bar>n\<bar> \<le> 2 ^ 53 \<Longrightarrow> x \<le> of_int n \<Longrightarrow> r x \<le> of_int n"
  using mono[of x "of_int n"] int_exact by simp

lemma int_lower: "\<bar>n\<bar> \<le> 2 ^ 53 \<Longrightarrow> of_int n \<le> x \<Longrightarrow> of_int n \<le> r x"
  using mono[of "of_int n" x] int_exact by simp

lemma share_le:
  assumes "0 \<le> n" "n \<le> 2 ^ 53" "0 \<le> c" "c \<le> 1"
  shows "0 \<le> \<lfloor>r (of_int n * c)\<rfloor> \<and> \<lfloor>r (of_int n * c)\<rfloor> \<le> n"
proof -
  have "of_int n * c \<le> of_int n" using assms by (simp add: mult_left_le)
  then have "r (of_int n * c) \<le> of_int n" using assms by (intro int_upper) auto
  moreover have "0 \<le> r (of_int n * c)" using assms by (intro nonneg) simp
  ultimately show ?thesis by (auto simp: floor_le_iff)
qed

lemma share_mono:
  assumes "0 \<le> n" "n \<le> m" "0 \<le> c" "c \<le> d"
  shows "\<lfloor>r (of_int n * c)\<rfloor> \<le> \<lfloor>r (of_int m * d)\<rfloor>"
  using assms by (intro floor_mono mono mult_mono) auto

end

interpretation ieee: rounding rnd
  by unfold_locales (auto intro: rnd_mono rnd_int)

end
