(* ===== verification/Attribution.thy ===== *)
theory Attribution
  imports Float64
begin

text \<open>
  The measurement primitives of \<^verbatim>\<open>src/openwhisk/metrics_helpers.go\<close>: the RAPL energy
  counter and its wrap-around, the CPU time of a container read from its cgroup, the core
  count of the measured socket, and the attribution formula that shares the node's energy
  by CPU time. Log lines are not part of the model.

  The formula reads three configuration values that do not change while an invocation runs
  (the counter's range, the overflow-proximity fraction, the core count); they are the record
  \<open>rapl_cfg\<close>, which \<open>rapl_cfg_of\<close> reads from the host.
\<close>

section \<open>Snapshots and breakdowns\<close>

record CPUSnapshot =
  ProcessTicks :: int
  WallNs :: int

record AttributionBreakdown =
  AttributedUJ :: int
  DeltaProcessUsec :: int
  CapacityUsec :: int
  CPURatio :: f64

definition zero_breakdown :: AttributionBreakdown where
  "zero_breakdown = \<lparr>AttributedUJ = 0, DeltaProcessUsec = 0, CapacityUsec = 0, CPURatio = Fin 0\<rparr>"

datatype read_error = EFile | ENum num_error

section \<open>The RAPL counter\<close>

definition raplPath :: "host \<Rightarrow> string" where
  "raplPath h = (if getenv h ''RAPL_PATH'' = []
     then ''/sys/class/powercap/intel-rapl/intel-rapl:0/energy_uj'' else getenv h ''RAPL_PATH'')"

definition readEnergy :: "host \<Rightarrow> int \<times> read_error option" where
  "readEnergy h = (case files h (raplPath h) of
       None \<Rightarrow> (0, Some EFile)
     | Some dat \<Rightarrow> (case ParseInt (TrimSpace dat) of (v, e) \<Rightarrow> (v, map_option ENum e)))"

text \<open>\<open>None\<close> is the panic of slicing up to index -1 when the path has no slash.\<close>

definition raplMaxDir :: "host \<Rightarrow> string option" where
  "raplMaxDir h = (let p = raplPath h in
     if CHR ''/'' \<in> set p then Some (take (length p - length (after_last (CHR ''/'') p) - 1) p)
     else None)"

definition readRAPLMax :: "host \<Rightarrow> int option" where
  "readRAPLMax h = (case raplMaxDir h of
       None \<Rightarrow> None
     | Some dir \<Rightarrow> Some (case files h (dir @ ''/max_energy_range_uj'') of
           None \<Rightarrow> 2 ^ 32
         | Some dat \<Rightarrow> (case ParseInt (TrimSpace dat) of
               (v, None) \<Rightarrow> if v \<le> 0 then 2 ^ 32 else v
             | (_, Some _) \<Rightarrow> 2 ^ 32)))"

text \<open>\<open>parseFloat\<close> stands for \<^verbatim>\<open>strconv.ParseFloat(v, 64)\<close>, \<open>None\<close> on an error.\<close>

definition raplOverflowProximityThreshold :: "(string \<Rightarrow> f64 option) \<Rightarrow> host \<Rightarrow> f64" where
  "raplOverflowProximityThreshold parseFloat h =
     (let v = getenv h ''RAPL_OVERFLOW_PROXIMITY_THRESHOLD'' in
      if v \<noteq> [] then
        (case parseFloat v of
           Some parsed \<Rightarrow> if f_lt (Fin 0) parsed \<and> f_le parsed (Fin 1) then parsed else Fin (rnd (9/10))
         | None \<Rightarrow> Fin (rnd (9/10)))
      else Fin (rnd (9/10)))"

section \<open>CPU time of a container\<close>

definition readStatTicks :: "string \<Rightarrow> int option" where
  "readStatTicks s =
     (if CHR '')'' \<notin> set s then None
      else let fields = Fields (after_last (CHR '')'') s) in
        if length fields < 13 then None
        else (case (ParseInt (fields ! 11), ParseInt (fields ! 12)) of
                ((utime, None), (stime, None)) \<Rightarrow> Some (i64 (utime + stime))
              | _ \<Rightarrow> None))"

definition usage_line :: "string \<Rightarrow> (int option) option" where
  "usage_line line =
     (if \<not> HasPrefix line ''usage_usec '' then None
      else let fields = Fields line in
        if length fields < 2 then None
        else Some (case ParseInt (fields ! 1) of (v, None) \<Rightarrow> Some v | _ \<Rightarrow> None))"

definition readCgroupV2CPUUsec :: "host \<Rightarrow> string \<Rightarrow> int option" where
  "readCgroupV2CPUUsec h path = (case files h path of
       None \<Rightarrow> None
     | Some dat \<Rightarrow> (case first_some usage_line (Split dat (CHR 0x0A)) of
           Some r \<Rightarrow> r | None \<Rightarrow> None))"

definition v2_stat_path :: "string \<Rightarrow> string option" where
  "v2_stat_path line =
     (if HasPrefix line ''0::/''
      then Some (''/sys/fs/cgroup/'' @ TrimSpace (TrimPrefix line ''0::/'') @ ''/cpu.stat'')
      else None)"

definition v1_usage_path :: "string \<Rightarrow> string option" where
  "v1_usage_path line = (case SplitN3 line (CHR '':'') of
       [_, ctl, slice] \<Rightarrow>
         if ctl = ''cpuacct'' \<or> Contains ctl ''cpuacct''
         then Some (''/sys/fs/cgroup/cpuacct/'' @ TrimSpace slice @ ''/cpuacct.usage'') else None
     | _ \<Rightarrow> None)"

definition read_cpuacct :: "host \<Rightarrow> string \<Rightarrow> int option" where
  "read_cpuacct h path = (case files h path of
       None \<Rightarrow> None
     | Some dat \<Rightarrow> (case ParseInt (TrimSpace dat) of
           (ns, None) \<Rightarrow> Some (go_quot ns 1000) | _ \<Rightarrow> None))"

definition cgroup_file :: "int \<Rightarrow> string" where
  "cgroup_file pid = ''/proc/'' @ itoa pid @ ''/cgroup''"

definition readProcessTicks :: "host \<Rightarrow> int \<Rightarrow> int option" where
  "readProcessTicks h pid =
     (if pid \<le> 0 then None
      else case files h (cgroup_file pid) of
        None \<Rightarrow> None
      | Some dat \<Rightarrow>
          (let lines = Split dat (CHR 0x0A) in
           case first_some (\<lambda>l. Option.bind (v2_stat_path l) (readCgroupV2CPUUsec h)) lines of
             Some usec \<Rightarrow> Some usec
           | None \<Rightarrow> first_some (\<lambda>l. Option.bind (v1_usage_path l) (read_cpuacct h)) lines))"

definition ResolveCgroupCPUStatPath :: "host \<Rightarrow> int \<Rightarrow> string option" where
  "ResolveCgroupCPUStatPath h pid =
     (if pid \<le> 0 then None
      else case files h (cgroup_file pid) of
        None \<Rightarrow> None
      | Some dat \<Rightarrow>
          (let lines = Split dat (CHR 0x0A) in
           case first_some (\<lambda>l. Option.bind (v2_stat_path l)
                  (\<lambda>p. if readCgroupV2CPUUsec h p \<noteq> None then Some p else None)) lines of
             Some p \<Rightarrow> Some p
           | None \<Rightarrow> first_some (\<lambda>l. Option.bind (v1_usage_path l)
                  (\<lambda>p. if files h p \<noteq> None then Some p else None)) lines))"

definition readCPUSnapshot :: "host \<Rightarrow> int \<Rightarrow> CPUSnapshot" where
  "readCPUSnapshot h pid =
     \<lparr>ProcessTicks = (case readProcessTicks h pid of Some t \<Rightarrow> t | None \<Rightarrow> 0), WallNs = now h\<rparr>"

definition readCPUSnapshotFromCgroup :: "host \<Rightarrow> string \<Rightarrow> CPUSnapshot" where
  "readCPUSnapshotFromCgroup h cgroupPath =
     (if cgroupPath = [] then \<lparr>ProcessTicks = 0, WallNs = now h\<rparr>
      else case readCgroupV2CPUUsec h (cgroupPath @ ''/cpu.stat'') of
        None \<Rightarrow> \<lparr>ProcessTicks = 0, WallNs = now h\<rparr>
      | Some usec \<Rightarrow> \<lparr>ProcessTicks = usec, WallNs = now h\<rparr>)"

section \<open>Core counts\<close>

text \<open>A range whose upper bound is the largest 64-bit integer makes the source's loop
  wrap around and never end; the list \<open>[lo..hi]\<close> is the finite set of the other ranges.\<close>

definition core_part :: "string \<Rightarrow> int list" where
  "core_part part = (case Split (TrimSpace part) (CHR ''-'') of
       [b] \<Rightarrow> (case ParseInt b of (i, None) \<Rightarrow> [i] | _ \<Rightarrow> [])
     | [b1, b2] \<Rightarrow> (case (ParseInt b1, ParseInt b2) of
           ((lo, None), (hi, None)) \<Rightarrow> [lo..hi] | _ \<Rightarrow> [])
     | _ \<Rightarrow> [])"

definition parseCoreMask :: "string \<Rightarrow> int set" where
  "parseCoreMask msk =
     (if msk = [] then {} else set (concat (map core_part (Split msk (CHR '','')))))"

definition countCores :: "string \<Rightarrow> int" where
  "countCores msk = (if msk = [] then 0 else int (card (parseCoreMask msk)))"

definition countAllCores :: "host \<Rightarrow> int" where
  "countAllCores h = (case files h ''/proc/stat'' of
       None \<Rightarrow> 1
     | Some dat \<Rightarrow>
         (let n = int (length (filter (\<lambda>l. HasPrefix l ''cpu'' \<and> \<not> HasPrefix l ''cpu '')
                                 (Split dat (CHR 0x0A))))
          in if n = 0 then 1 else n))"

definition nbCores :: "host \<Rightarrow> int" where
  "nbCores h = (let n = countCores (getenv h ''RAPL_CORES'') in
     if n \<le> 0 then countAllCores h else n)"

record rapl_cfg =
  rc_max :: int
  rc_prox :: f64
  rc_cores :: int

definition rapl_cfg_of :: "(string \<Rightarrow> f64 option) \<Rightarrow> host \<Rightarrow> rapl_cfg option" where
  "rapl_cfg_of parseFloat h = (case readRAPLMax h of
       None \<Rightarrow> None
     | Some m \<Rightarrow> Some \<lparr>rc_max = m, rc_prox = raplOverflowProximityThreshold parseFloat h,
                       rc_cores = nbCores h\<rparr>)"

section \<open>The attribution formula\<close>

definition overflow_threshold :: "rapl_cfg \<Rightarrow> int" where
  "overflow_threshold c = f_to_i64 (f_mul (f_of_int (rc_max c)) (rc_prox c))"

definition deltaRAPLUJ :: "rapl_cfg \<Rightarrow> int \<Rightarrow> int \<Rightarrow> int" where
  "deltaRAPLUJ c start stop =
     (if start \<le> stop then i64 (stop - start)
      else if overflow_threshold c \<le> start then i64 (i64 (rc_max c - start) + stop)
      else 0)"

definition cpu_ratio :: "int \<Rightarrow> int \<Rightarrow> f64" where
  "cpu_ratio process capacity =
     (let q = f_div (f_of_int process) (f_of_int capacity) in if f_lt (Fin 1) q then Fin 1 else q)"

definition attributionDetail ::
    "rapl_cfg \<Rightarrow> int \<Rightarrow> int \<Rightarrow> CPUSnapshot \<Rightarrow> CPUSnapshot \<Rightarrow> AttributionBreakdown" where
  "attributionDetail c energyStart energyEnd snapStart snapEnd =
     (let deltaRAPL = deltaRAPLUJ c energyStart energyEnd in
      if deltaRAPL \<le> 0 then zero_breakdown
      else let deltaProcessUsec = i64 (ProcessTicks snapEnd - ProcessTicks snapStart) in
      if deltaProcessUsec \<le> 0 then zero_breakdown
      else let durationUsec = go_quot (i64 (WallNs snapEnd - WallNs snapStart)) 1000 in
      if durationUsec \<le> 0 then zero_breakdown
      else let capacityUsec = i64 (durationUsec * rc_cores c);
               cpuRatio = cpu_ratio deltaProcessUsec capacityUsec;
               attributed = f_to_i64 (f_mul (f_of_int deltaRAPL) cpuRatio)
        in \<lparr>AttributedUJ = attributed, DeltaProcessUsec = deltaProcessUsec,
            CapacityUsec = capacityUsec, CPURatio = cpuRatio\<rparr>)"

definition attributedEnergyUJ ::
    "rapl_cfg \<Rightarrow> int \<Rightarrow> int \<Rightarrow> CPUSnapshot \<Rightarrow> CPUSnapshot \<Rightarrow> int" where
  "attributedEnergyUJ c energyStart energyEnd snapStart snapEnd =
     AttributedUJ (attributionDetail c energyStart energyEnd snapStart snapEnd)"

lemma attributedEnergyUJ_in_i64: "in_i64 (attributedEnergyUJ c e0 e1 s0 s1)"
  by (simp add: attributedEnergyUJ_def attributionDetail_def Let_def zero_breakdown_def f_to_i64_in_i64)

section \<open>The configuration is well formed\<close>

definition cfg_ok :: "rapl_cfg \<Rightarrow> bool" where
  "cfg_ok c \<longleftrightarrow> 0 < rc_max c \<and> in_i64 (rc_max c) \<and> 1 \<le> rc_cores c \<and>
     (case rc_prox c of Fin p \<Rightarrow> 0 < p \<and> p \<le> 1 | _ \<Rightarrow> False)"

lemma readRAPLMax_range: "readRAPLMax h = Some m \<Longrightarrow> 0 < m \<and> in_i64 m"
  using ParseInt_in_range
  by (auto simp: readRAPLMax_def in_i64_def split: option.splits prod.splits if_splits)
     (metis fst_conv in_i64_def)+

lemma rnd_nine_tenths: "0 < rnd (9/10) \<and> rnd (9/10) \<le> 1"
  by code_simp

lemma proximity_range:
  "\<exists>p. raplOverflowProximityThreshold pf h = Fin p \<and> 0 < p \<and> p \<le> 1"
proof -
  have "\<exists>p. x = Fin p \<and> 0 < p \<and> p \<le> 1" if "f_lt (Fin 0) x" "f_le x (Fin 1)" for x
    using that by (cases x) (auto simp: f_le_def)
  then show ?thesis
    using rnd_nine_tenths
    by (auto simp: raplOverflowProximityThreshold_def Let_def split: option.splits)
qed

lemma nbCores_pos: "1 \<le> nbCores h"
  by (auto simp: nbCores_def Let_def countAllCores_def Suc_le_eq split: option.splits)

lemma rapl_cfg_of_ok: "rapl_cfg_of pf h = Some c \<Longrightarrow> cfg_ok c"
  using proximity_range[of pf h] nbCores_pos[of h] readRAPLMax_range[of h]
  by (auto simp: rapl_cfg_of_def cfg_ok_def split: option.splits)

section \<open>Bounds of the attribution\<close>

lemma deltaRAPLUJ_bounds:
  assumes "cfg_ok c" "0 \<le> a" "a \<le> rc_max c" "0 \<le> b" "b \<le> rc_max c"
  shows "0 \<le> deltaRAPLUJ c a b \<and> deltaRAPLUJ c a b \<le> rc_max c"
proof -
  have m: "in_i64 (rc_max c)" using assms(1) by (simp add: cfg_ok_def)
  have r: "in_i64 x" if "0 \<le> x" "x \<le> rc_max c" for x
    using in_i64_between[OF in_i64_0 m that] .
  show ?thesis
  proof (cases "a \<le> b")
    case True
    then show ?thesis using assms r[of "b - a"] by (simp add: deltaRAPLUJ_def)
  next
    case False
    then show ?thesis using assms r[of "rc_max c - a"] r[of "rc_max c - a + b"]
      by (simp add: deltaRAPLUJ_def)
  qed
qed

lemma cpu_ratio_Fin:
  assumes "0 < p" "in_i64 p" "0 < k" "in_i64 k"
  shows "cpu_ratio p k = Fin (min 1 (rnd (rnd (of_int p) / rnd (of_int k))))"
proof -
  let ?p = "rnd (of_int p)" and ?k = "rnd (of_int k)"
  have k1: "1 \<le> ?k" using ieee.int_lower[of 1 "of_int k"] assms by simp
  have p0: "0 \<le> ?p" using assms by (intro ieee.nonneg) simp
  have "\<bar>?p\<bar> \<le> 2 powi 63"
    using in_i64_abs_rat[OF assms(2)] by (intro rnd_abs_le) (simp_all add: power_int_def)
  then have "?p \<le> 2 ^ 63 * 1" using p0 by (simp add: power_int_def)
  also have "\<dots> \<le> 2 ^ 63 * ?k" using k1 by (intro mult_left_mono) auto
  finally have "?p / ?k \<le> 2 ^ 63" using k1 by (simp add: divide_le_eq)
  then have "to_f64 (?p / ?k) = Fin (rnd (?p / ?k))"
    using p0 k1 by (intro to_f64_small) simp
  then have "f_div (f_of_int p) (f_of_int k) = Fin (rnd (?p / ?k))"
    using assms k1 by (simp add: f_of_int_Fin)
  then show ?thesis by (auto simp: cpu_ratio_def Let_def min_def)
qed

lemma cpu_ratio_range:
  assumes "0 < p" "in_i64 p" "0 < k" "in_i64 k"
  obtains q where "cpu_ratio p k = Fin q" "0 \<le> q" "q \<le> 1"
proof -
  have "0 \<le> rnd (rnd (of_int p) / rnd (of_int k))"
    using assms by (intro ieee.nonneg divide_nonneg_nonneg) auto
  then show ?thesis using that[OF cpu_ratio_Fin[OF assms]] by (simp add: min_def)
qed

lemma f_share:
  assumes "0 \<le> n" "n \<le> 2 ^ 53" "0 \<le> q" "q \<le> 1"
  shows "f_to_i64 (f_mul (f_of_int n) (Fin q)) = \<lfloor>rnd (of_int n * q)\<rfloor>"
proof -
  have b: "0 \<le> \<lfloor>rnd (of_int n * q)\<rfloor>" "\<lfloor>rnd (of_int n * q)\<rfloor> \<le> n"
    using ieee.share_le[OF assms] by auto
  have i: "in_i64 \<lfloor>rnd (of_int n * q)\<rfloor>" by (rule in_i64_small[OF b(1) order_trans[OF b(2) assms(2)]])
  have r: "0 \<le> rnd (of_int n * q)" using assms by (intro ieee.nonneg) simp
  have "of_int n * q \<le> of_int n" using assms by (simp add: mult_left_le)
  also have "\<dots> \<le> 2 ^ 53" using assms(2) by (metis of_int_le_iff of_int_numeral of_int_power)
  finally have "\<bar>of_int n * q\<bar> \<le> 2 ^ 53" using assms by simp
  then have "\<bar>of_int n * q\<bar> \<le> 2 ^ 63" by (rule rat_le_pow_trans) simp
  then have "f_mul (f_of_int n) (Fin q) = Fin (rnd (of_int n * q))"
    using assms by (simp add: f_of_int_exact to_f64_small)
  then show ?thesis using i r by simp
qed

text \<open>A measuring window short enough for its capacity (wall time times cores, in
  microseconds) to fit 64 bits: 2.9 million years on one core, 2900 years on a thousand.\<close>

definition window_ok :: "rapl_cfg \<Rightarrow> CPUSnapshot \<Rightarrow> CPUSnapshot \<Rightarrow> bool" where
  "window_ok c s0 s1 \<longleftrightarrow> go_quot (i64 (WallNs s1 - WallNs s0)) 1000 * rc_cores c < 2 ^ 63"

definition measured :: "rapl_cfg \<Rightarrow> int \<Rightarrow> int \<Rightarrow> CPUSnapshot \<Rightarrow> CPUSnapshot \<Rightarrow> bool" where
  "measured c e0 e1 s0 s1 \<longleftrightarrow> 0 < deltaRAPLUJ c e0 e1 \<and>
     0 < i64 (ProcessTicks s1 - ProcessTicks s0) \<and> 0 < go_quot (i64 (WallNs s1 - WallNs s0)) 1000"

lemma attributionDetail_unmeasured:
  "\<not> measured c e0 e1 s0 s1 \<Longrightarrow> attributionDetail c e0 e1 s0 s1 = zero_breakdown"
  by (auto simp: measured_def attributionDetail_def Let_def)

lemma attributionDetail_measured:
  assumes "measured c e0 e1 s0 s1"
  shows "attributionDetail c e0 e1 s0 s1 =
     (let dp = i64 (ProcessTicks s1 - ProcessTicks s0);
          cap = i64 (go_quot (i64 (WallNs s1 - WallNs s0)) 1000 * rc_cores c);
          q = cpu_ratio dp cap
      in \<lparr>AttributedUJ = f_to_i64 (f_mul (f_of_int (deltaRAPLUJ c e0 e1)) q),
          DeltaProcessUsec = dp, CapacityUsec = cap, CPURatio = q\<rparr>)"
  using assms by (auto simp: measured_def attributionDetail_def Let_def)

lemma capacity_exact:
  assumes "cfg_ok c" "window_ok c s0 s1" "0 < go_quot (i64 (WallNs s1 - WallNs s0)) 1000"
  shows "0 < go_quot (i64 (WallNs s1 - WallNs s0)) 1000 * rc_cores c"
    and "in_i64 (go_quot (i64 (WallNs s1 - WallNs s0)) 1000 * rc_cores c)"
  using assms by (auto simp: cfg_ok_def window_ok_def in_i64_def intro: order_trans[of _ 0])

lemma attributionDetail_share:
  assumes "cfg_ok c" "window_ok c s0 s1" "measured c e0 e1 s0 s1" "deltaRAPLUJ c e0 e1 \<le> 2 ^ 53"
  obtains q where "CPURatio (attributionDetail c e0 e1 s0 s1) = Fin q" "0 \<le> q" "q \<le> 1"
    "q = min 1 (rnd (rnd (of_int (i64 (ProcessTicks s1 - ProcessTicks s0)))
           / rnd (of_int (go_quot (i64 (WallNs s1 - WallNs s0)) 1000 * rc_cores c))))"
    "AttributedUJ (attributionDetail c e0 e1 s0 s1) = \<lfloor>rnd (of_int (deltaRAPLUJ c e0 e1) * q)\<rfloor>"
proof -
  let ?dp = "i64 (ProcessTicks s1 - ProcessTicks s0)"
  let ?cap = "go_quot (i64 (WallNs s1 - WallNs s0)) 1000 * rc_cores c"
  have m: "0 < ?dp" "0 < deltaRAPLUJ c e0 e1" "0 < go_quot (i64 (WallNs s1 - WallNs s0)) 1000"
    using assms(3) by (auto simp: measured_def)
  note cap = capacity_exact[OF assms(1,2) m(3)]
  obtain q where q: "cpu_ratio ?dp ?cap = Fin q" "0 \<le> q" "q \<le> 1"
    using cpu_ratio_range[OF m(1) i64_in_range cap] .
  have qe: "q = min 1 (rnd (rnd (of_int ?dp) / rnd (of_int ?cap)))"
    using q(1) cpu_ratio_Fin[OF m(1) i64_in_range cap] by simp
  show ?thesis
    using that[OF _ q(2,3) qe] attributionDetail_measured[OF assms(3)] cap q(1)
      f_share[OF _ assms(4) q(2,3)] m(2)
    by (simp add: Let_def)
qed

lemma attribution_range:
  assumes "cfg_ok c" "rc_max c \<le> 2 ^ 53" "window_ok c s0 s1"
    and "0 \<le> e0" "e0 \<le> rc_max c" "0 \<le> e1" "e1 \<le> rc_max c"
  shows "0 \<le> attributedEnergyUJ c e0 e1 s0 s1"
    and "attributedEnergyUJ c e0 e1 s0 s1 \<le> deltaRAPLUJ c e0 e1"
    and "\<exists>q. CPURatio (attributionDetail c e0 e1 s0 s1) = Fin q \<and> 0 \<le> q \<and> q \<le> 1"
proof -
  have d: "0 \<le> deltaRAPLUJ c e0 e1" "deltaRAPLUJ c e0 e1 \<le> 2 ^ 53"
    using deltaRAPLUJ_bounds[OF assms(1,4-7)] assms(2) by auto
  have "0 \<le> attributedEnergyUJ c e0 e1 s0 s1 \<and> attributedEnergyUJ c e0 e1 s0 s1 \<le> deltaRAPLUJ c e0 e1
       \<and> (\<exists>q. CPURatio (attributionDetail c e0 e1 s0 s1) = Fin q \<and> 0 \<le> q \<and> q \<le> 1)"
  proof (cases "measured c e0 e1 s0 s1")
    case False
    with d show ?thesis
      by (simp add: attributedEnergyUJ_def attributionDetail_unmeasured zero_breakdown_def)
  next
    case True
    obtain q where "CPURatio (attributionDetail c e0 e1 s0 s1) = Fin q" "0 \<le> q" "q \<le> 1"
      "AttributedUJ (attributionDetail c e0 e1 s0 s1) = \<lfloor>rnd (of_int (deltaRAPLUJ c e0 e1) * q)\<rfloor>"
      using attributionDetail_share[OF assms(1,3) True d(2)] .
    then show ?thesis using ieee.share_le[OF d] by (auto simp: attributedEnergyUJ_def)
  qed
  then show "0 \<le> attributedEnergyUJ c e0 e1 s0 s1"
    "attributedEnergyUJ c e0 e1 s0 s1 \<le> deltaRAPLUJ c e0 e1"
    "\<exists>q. CPURatio (attributionDetail c e0 e1 s0 s1) = Fin q \<and> 0 \<le> q \<and> q \<le> 1" by blast+
qed

lemma ratio_mono:
  assumes "0 < p" "p \<le> p'" "0 < k"
  shows "min 1 (rnd (rnd (of_int p) / rnd (of_int k))) \<le> min 1 (rnd (rnd (of_int p') / rnd (of_int k)))"
proof -
  have "0 \<le> rnd (of_int k)" using assms by (intro ieee.nonneg) simp
  then have "rnd (of_int p) / rnd (of_int k) \<le> rnd (of_int p') / rnd (of_int k)"
    using assms by (intro divide_right_mono ieee.mono) auto
  then have "rnd (rnd (of_int p) / rnd (of_int k)) \<le> rnd (rnd (of_int p') / rnd (of_int k))"
    by (rule ieee.mono)
  then show ?thesis by (simp add: min_def)
qed

lemma attributedEnergyUJ_mono_cpu:
  assumes "cfg_ok c" "rc_max c \<le> 2 ^ 53" "window_ok c s0 s1"
    and "0 \<le> e0" "e0 \<le> rc_max c" "0 \<le> e1" "e1 \<le> rc_max c"
    and "0 \<le> ProcessTicks s0" "ProcessTicks s0 \<le> ProcessTicks s1" "ProcessTicks s1 \<le> t" "in_i64 t"
  shows "attributedEnergyUJ c e0 e1 s0 s1 \<le> attributedEnergyUJ c e0 e1 s0 (s1\<lparr>ProcessTicks := t\<rparr>)"
    (is "_ \<le> attributedEnergyUJ c e0 e1 s0 ?s")
proof (cases "measured c e0 e1 s0 s1")
  case False
  have "window_ok c s0 ?s" using assms(3) by (simp add: window_ok_def)
  then have "0 \<le> attributedEnergyUJ c e0 e1 s0 ?s" by (intro attribution_range(1) assms)
  with False show ?thesis
    by (simp add: attributedEnergyUJ_def attributionDetail_unmeasured zero_breakdown_def)
next
  case True
  have d: "0 \<le> deltaRAPLUJ c e0 e1" "deltaRAPLUJ c e0 e1 \<le> 2 ^ 53"
    using deltaRAPLUJ_bounds[OF assms(1,4-7)] assms(2) by auto
  have dp: "i64 (ProcessTicks s1 - ProcessTicks s0) = ProcessTicks s1 - ProcessTicks s0"
    "i64 (t - ProcessTicks s0) = t - ProcessTicks s0"
    using assms(8-11) by (auto intro!: i64_id simp: in_i64_def)
  have w: "window_ok c s0 ?s" and m: "measured c e0 e1 s0 ?s"
    using assms(3,10) True by (auto simp: window_ok_def measured_def dp)
  have cap: "0 < go_quot (i64 (WallNs s1 - WallNs s0)) 1000 * rc_cores c"
    using True capacity_exact(1)[OF assms(1,3)] by (simp add: measured_def)
  obtain q where q: "0 \<le> q" "q = min 1 (rnd (rnd (of_int (i64 (ProcessTicks s1 - ProcessTicks s0)))
           / rnd (of_int (go_quot (i64 (WallNs s1 - WallNs s0)) 1000 * rc_cores c))))"
    "AttributedUJ (attributionDetail c e0 e1 s0 s1) = \<lfloor>rnd (of_int (deltaRAPLUJ c e0 e1) * q)\<rfloor>"
    using attributionDetail_share[OF assms(1,3) True d(2)] .
  obtain q' where q': "q' = min 1 (rnd (rnd (of_int (i64 (ProcessTicks ?s - ProcessTicks s0)))
           / rnd (of_int (go_quot (i64 (WallNs ?s - WallNs s0)) 1000 * rc_cores c))))"
    "AttributedUJ (attributionDetail c e0 e1 s0 ?s) = \<lfloor>rnd (of_int (deltaRAPLUJ c e0 e1) * q')\<rfloor>"
    using attributionDetail_share[OF assms(1) w m d(2)] .
  have "0 < ProcessTicks s1 - ProcessTicks s0" using True by (simp add: measured_def dp)
  moreover have "ProcessTicks ?s = t" "WallNs ?s = WallNs s1" by simp_all
  ultimately have "q \<le> q'"
    using ratio_mono[OF _ diff_right_mono[OF assms(10), of "ProcessTicks s0"] cap]
    by (simp only: q(2) q'(1) dp)
  then show ?thesis
    using q q' d by (simp add: attributedEnergyUJ_def ieee.share_mono)
qed

section \<open>Properties\<close>

text \<open>C14: the energy attributed to a container over a window is never negative and never more
  than the node's own energy over that window, and the reported CPU ratio lies in [0, 1]: for
  every well-formed configuration, counter readings within the counter's range (itself at most
  2^53 microjoules) and a window whose capacity fits 64 bits.\<close>

theorem attribution_bounds:
  assumes "cfg_ok c" "rc_max c \<le> 2 ^ 53" "window_ok c s0 s1"
    and "0 \<le> e0" "e0 \<le> rc_max c" "0 \<le> e1" "e1 \<le> rc_max c"
  shows "0 \<le> attributedEnergyUJ c e0 e1 s0 s1
       \<and> attributedEnergyUJ c e0 e1 s0 s1 \<le> deltaRAPLUJ c e0 e1
       \<and> (\<exists>q. CPURatio (attributionDetail c e0 e1 s0 s1) = Fin q \<and> 0 \<le> q \<and> q \<le> 1)"
  using attribution_range[OF assms] by blast

text \<open>More CPU time over the same window and the same energy readings never lowers the
  attributed energy.\<close>

theorem attribution_mono_cpu:
  assumes "cfg_ok c" "rc_max c \<le> 2 ^ 53" "window_ok c s0 s1"
    and "0 \<le> e0" "e0 \<le> rc_max c" "0 \<le> e1" "e1 \<le> rc_max c"
    and "0 \<le> ProcessTicks s0" "ProcessTicks s0 \<le> ProcessTicks s1" "ProcessTicks s1 \<le> t" "in_i64 t"
  shows "attributedEnergyUJ c e0 e1 s0 s1 \<le> attributedEnergyUJ c e0 e1 s0 (s1\<lparr>ProcessTicks := t\<rparr>)"
  using assms by (rule attributedEnergyUJ_mono_cpu)

text \<open>A decreasing reading of the RAPL counter is corrected as a wrap-around exactly when
  the earlier reading was near the top of the counter; the correction then recovers the true
  consumption \<open>d\<close> of a counter that wrapped once, and otherwise the reading counts for
  nothing instead of for the whole range of the counter.\<close>

theorem rapl_wraparound:
  assumes "cfg_ok c" "0 \<le> start" "start \<le> rc_max c" "0 \<le> stop" "stop < start"
    and "start + d = rc_max c + stop"
  shows "deltaRAPLUJ c start stop = (if overflow_threshold c \<le> start then d else 0)"
proof -
  have "in_i64 (rc_max c - start)" "in_i64 (rc_max c - start + stop)"
    using assms by (auto simp: cfg_ok_def in_i64_def)
  then show ?thesis using assms by (simp add: deltaRAPLUJ_def)
qed

definition cfg_example :: rapl_cfg where
  "cfg_example = \<lparr>rc_max = 2 ^ 32, rc_prox = Fin (rnd (9/10)), rc_cores = 1\<rparr>"

lemma cfg_example_ok: "cfg_ok cfg_example"
  by code_simp

theorem attribution_bounds_witness:
  "0 \<le> attributedEnergyUJ cfg_example 1000 301000 \<lparr>ProcessTicks = 0, WallNs = 0\<rparr> \<lparr>ProcessTicks = 1000, WallNs = 4000000\<rparr>
   \<and> attributedEnergyUJ cfg_example 1000 301000 \<lparr>ProcessTicks = 0, WallNs = 0\<rparr> \<lparr>ProcessTicks = 1000, WallNs = 4000000\<rparr> = 75000"
proof -
  have v: "attributedEnergyUJ cfg_example 1000 301000 \<lparr>ProcessTicks = 0, WallNs = 0\<rparr> \<lparr>ProcessTicks = 1000, WallNs = 4000000\<rparr> = 75000"
    by code_simp
  show ?thesis
    using attribution_bounds[of cfg_example "\<lparr>ProcessTicks = 0, WallNs = 0\<rparr>"
        "\<lparr>ProcessTicks = 1000, WallNs = 4000000\<rparr>" 1000 301000] cfg_example_ok v
    by (simp add: cfg_example_def window_ok_def in_i64_def)
qed

theorem attribution_mono_cpu_witness:
  "attributedEnergyUJ cfg_example 1000 301000 \<lparr>ProcessTicks = 0, WallNs = 0\<rparr> \<lparr>ProcessTicks = 1000, WallNs = 4000000\<rparr>
   \<le> attributedEnergyUJ cfg_example 1000 301000 \<lparr>ProcessTicks = 0, WallNs = 0\<rparr> \<lparr>ProcessTicks = 2000, WallNs = 4000000\<rparr>"
  using attribution_mono_cpu[of cfg_example "\<lparr>ProcessTicks = 0, WallNs = 0\<rparr>"
      "\<lparr>ProcessTicks = 1000, WallNs = 4000000\<rparr>" 1000 301000 2000] cfg_example_ok
  by (simp add: cfg_example_def window_ok_def in_i64_def)

theorem rapl_wraparound_witness:
  "deltaRAPLUJ cfg_example 4294967290 10 = 16 \<and> deltaRAPLUJ cfg_example 5000 4990 = 0"
proof -
  have t: "overflow_threshold cfg_example = 3865470566" by code_simp
  show ?thesis
    using rapl_wraparound[of cfg_example 4294967290 10 16] cfg_example_ok
      rapl_wraparound[of cfg_example 5000 4990 4294967286] t
    by (simp add: cfg_example_def)
qed

end
