(* ===== verification/Segments.thy ===== *)
theory Segments
  imports Attribution
begin

text \<open>
  \<^verbatim>\<open>src/openwhisk/energySegments.go\<close>: the energy of a step is the sum over its execution
  segments. A freeze closes the running segment, a resume opens a new one, and nothing is
  attributed in between. Two parties account for the same segments: the monitor's
  \<open>stepMeter\<close>, which decides against the threshold, and the freeze marks, from which the
  sidecar and the final measurement recompute the energy with \<open>segmentedAttribution\<close>.
  The theory shows that the two always agree.
\<close>

section \<open>Freeze marks\<close>

record freezeMark =
  FreezeEnergyUJ :: int
  FreezeCPU :: CPUSnapshot
  Resumed :: bool
  ResumeEnergyUJ :: int
  ResumeCPU :: CPUSnapshot

type_synonym freezeMarks = "freezeMark list"

definition marks_reset :: "freezeMarks \<Rightarrow> freezeMarks" where
  "marks_reset f = []"

definition zero_snapshot :: CPUSnapshot where
  "zero_snapshot = \<lparr>ProcessTicks = 0, WallNs = 0\<rparr>"

definition noteFreeze :: "int \<Rightarrow> CPUSnapshot \<Rightarrow> freezeMarks \<Rightarrow> freezeMarks" where
  "noteFreeze energyUJ cpu f = f @ [\<lparr>FreezeEnergyUJ = energyUJ, FreezeCPU = cpu, Resumed = False,
     ResumeEnergyUJ = 0, ResumeCPU = zero_snapshot\<rparr>]"

definition noteResume :: "int \<Rightarrow> CPUSnapshot \<Rightarrow> freezeMarks \<Rightarrow> freezeMarks" where
  "noteResume energyUJ cpu f =
     (if f \<noteq> [] \<and> \<not> Resumed (last f)
      then butlast f @ [(last f)\<lparr>Resumed := True, ResumeEnergyUJ := energyUJ, ResumeCPU := cpu\<rparr>]
      else f)"

definition refineFreezeCPU :: "int \<Rightarrow> freezeMarks \<Rightarrow> freezeMarks" where
  "refineFreezeCPU cpuTicks f =
     (if f \<noteq> [] \<and> \<not> Resumed (last f) \<and> ProcessTicks (FreezeCPU (last f)) < cpuTicks
      then butlast f @ [(last f)\<lparr>FreezeCPU := (FreezeCPU (last f))\<lparr>ProcessTicks := cpuTicks\<rparr>\<rparr>]
      else f)"

definition marks_snapshot :: "freezeMarks \<Rightarrow> freezeMark list" where
  "marks_snapshot f = f"

section \<open>Attribution over the segments\<close>

definition breakdown_add :: "AttributionBreakdown \<Rightarrow> AttributionBreakdown \<Rightarrow> AttributionBreakdown" where
  "breakdown_add tot d = tot\<lparr>
     AttributedUJ := i64 (AttributedUJ tot + AttributedUJ d),
     DeltaProcessUsec := i64 (DeltaProcessUsec tot + DeltaProcessUsec d),
     CapacityUsec := i64 (CapacityUsec tot + CapacityUsec d)\<rparr>"

fun segment_loop :: "rapl_cfg \<Rightarrow> int \<Rightarrow> CPUSnapshot \<Rightarrow> AttributionBreakdown \<Rightarrow> freezeMark list
    \<Rightarrow> int \<Rightarrow> CPUSnapshot \<Rightarrow> AttributionBreakdown" where
  "segment_loop c curEnergy curCPU tot [] energyEnd snapEnd =
     breakdown_add tot (attributionDetail c curEnergy energyEnd curCPU snapEnd)"
| "segment_loop c curEnergy curCPU tot (m # ms) energyEnd snapEnd =
     (let tot' = breakdown_add tot
            (attributionDetail c curEnergy (FreezeEnergyUJ m) curCPU (FreezeCPU m)) in
      if \<not> Resumed m then tot'
      else segment_loop c (ResumeEnergyUJ m) (ResumeCPU m) tot' ms energyEnd snapEnd)"

definition segmentedAttribution :: "rapl_cfg \<Rightarrow> int \<Rightarrow> int \<Rightarrow> CPUSnapshot \<Rightarrow> CPUSnapshot
    \<Rightarrow> freezeMark list \<Rightarrow> AttributionBreakdown" where
  "segmentedAttribution c energyStart energyEnd snapStart snapEnd marks =
     (if marks = [] then attributionDetail c energyStart energyEnd snapStart snapEnd
      else let tot = segment_loop c energyStart snapStart zero_breakdown marks energyEnd snapEnd in
        if 0 < CapacityUsec tot
        then tot\<lparr>CPURatio := cpu_ratio (DeltaProcessUsec tot) (CapacityUsec tot)\<rparr>
        else tot)"

section \<open>The monitor's meter\<close>

record stepMeter =
  closedUJ :: int
  segEnergy :: int
  segCPU :: CPUSnapshot
  frozen :: bool
  frozenEnergy :: int
  frozenCPU :: CPUSnapshot
  lastSegEnergy :: int
  lastSegCPU :: CPUSnapshot
  lastSegUJ :: int

definition newStepMeter :: "int \<Rightarrow> CPUSnapshot \<Rightarrow> stepMeter" where
  "newStepMeter energyStart cpuStart =
     \<lparr>closedUJ = 0, segEnergy = energyStart, segCPU = cpuStart, frozen = False,
      frozenEnergy = 0, frozenCPU = zero_snapshot,
      lastSegEnergy = 0, lastSegCPU = zero_snapshot, lastSegUJ = 0\<rparr>"

definition joules :: "int \<Rightarrow> f64" where
  "joules uj = f_div (f_of_int uj) (f_of_int 1000000)"

definition closedJ :: "stepMeter \<Rightarrow> f64" where
  "closedJ m = joules (closedUJ m)"

definition stepJ :: "rapl_cfg \<Rightarrow> stepMeter \<Rightarrow> int \<Rightarrow> CPUSnapshot \<Rightarrow> f64" where
  "stepJ c m energyNow cpuNow =
     (if frozen m then closedJ m
      else joules (i64 (closedUJ m + attributedEnergyUJ c (segEnergy m) energyNow (segCPU m) cpuNow)))"

definition closeAt :: "rapl_cfg \<Rightarrow> int \<Rightarrow> CPUSnapshot \<Rightarrow> stepMeter \<Rightarrow> stepMeter" where
  "closeAt c energyUJ cpu m =
     (let uj = attributedEnergyUJ c (segEnergy m) energyUJ (segCPU m) cpu in
      m\<lparr>lastSegEnergy := segEnergy m, lastSegCPU := segCPU m, lastSegUJ := uj,
        closedUJ := i64 (closedUJ m + uj),
        frozen := True, frozenEnergy := energyUJ, frozenCPU := cpu\<rparr>)"

definition refineFrozenCPU :: "rapl_cfg \<Rightarrow> int \<Rightarrow> stepMeter \<Rightarrow> int \<times> stepMeter" where
  "refineFrozenCPU c cpuTicks m =
     (if \<not> frozen m \<or> cpuTicks \<le> ProcessTicks (frozenCPU m) then (0, m)
      else let late = i64 (cpuTicks - ProcessTicks (frozenCPU m));
               cpu = (frozenCPU m)\<lparr>ProcessTicks := cpuTicks\<rparr>;
               refined = attributedEnergyUJ c (lastSegEnergy m) (frozenEnergy m) (lastSegCPU m) cpu
        in (late, m\<lparr>frozenCPU := cpu, closedUJ := i64 (closedUJ m + i64 (refined - lastSegUJ m)),
                    lastSegUJ := refined\<rparr>))"

definition openAt :: "int \<Rightarrow> CPUSnapshot \<Rightarrow> stepMeter \<Rightarrow> stepMeter" where
  "openAt energyUJ cpu m = m\<lparr>segEnergy := energyUJ, segCPU := cpu, frozen := False\<rparr>"

section \<open>The executor's side: reading the host at a segment boundary\<close>

definition cpuSnapshot :: "host \<Rightarrow> string \<Rightarrow> int \<Rightarrow> CPUSnapshot" where
  "cpuSnapshot h cgroupPath pid =
     (if cgroupPath \<noteq> [] then readCPUSnapshotFromCgroup h cgroupPath else readCPUSnapshot h pid)"

definition segmentSnapshot :: "host \<Rightarrow> string \<Rightarrow> int \<Rightarrow> int \<times> CPUSnapshot \<times> read_error option" where
  "segmentSnapshot h cgroupPath pid =
     (case readEnergy h of (energyUJ, err) \<Rightarrow> (energyUJ, cpuSnapshot h cgroupPath pid, err))"

text \<open>\<open>None\<close>: the step is not frozen.\<close>

definition refineFrozenSegment :: "rapl_cfg \<Rightarrow> host \<Rightarrow> string \<Rightarrow> int \<Rightarrow> stepMeter \<times> freezeMarks
    \<Rightarrow> int option \<times> stepMeter \<times> freezeMarks" where
  "refineFrozenSegment c h cgroupPath pid st =
     (case st of (meter, marks) \<Rightarrow>
        if \<not> frozen meter then (None, meter, marks)
        else let ticks = ProcessTicks (cpuSnapshot h cgroupPath pid);
                 (late, meter') = refineFrozenCPU c ticks meter
          in (Some late, meter', refineFreezeCPU ticks marks))"

definition closeSegmentAtFreeze :: "rapl_cfg \<Rightarrow> host \<Rightarrow> string \<Rightarrow> int \<Rightarrow> stepMeter \<times> freezeMarks
    \<Rightarrow> bool \<times> stepMeter \<times> freezeMarks" where
  "closeSegmentAtFreeze c h cgroupPath pid st =
     (case st of (meter, marks) \<Rightarrow> case segmentSnapshot h cgroupPath pid of (energyUJ, cpu, err) \<Rightarrow>
        if err \<noteq> None \<or> ProcessTicks cpu < ProcessTicks (segCPU meter) then (False, meter, marks)
        else (True, closeAt c energyUJ cpu meter, noteFreeze energyUJ cpu marks))"

definition openSegmentAtResume :: "host \<Rightarrow> string \<Rightarrow> int \<Rightarrow> stepMeter \<times> freezeMarks
    \<Rightarrow> bool \<times> stepMeter \<times> freezeMarks" where
  "openSegmentAtResume h cgroupPath pid st =
     (case st of (meter, marks) \<Rightarrow>
        if \<not> frozen meter then (False, meter, marks)
        else case segmentSnapshot h cgroupPath pid of (energy, cpu, err) \<Rightarrow>
          let ok = (err = None \<and> ProcessTicks (frozenCPU meter) \<le> ProcessTicks cpu);
              energyUJ = (if ok then energy else frozenEnergy meter);
              start = \<lparr>ProcessTicks = ProcessTicks (frozenCPU meter),
                       WallNs = (if WallNs cpu = 0 then now h else WallNs cpu)\<rparr>
          in (ok, openAt energyUJ start meter, noteResume energyUJ start marks))"


section \<open>Runs of an invocation\<close>

text \<open>
  What a pause cycle does to the segments, in the order \<^verbatim>\<open>runPauseCycle\<close> calls it: the
  segment is closed once the cgroup is confirmed frozen, refined while it still is, and opened
  once it has resumed. A run refuses a freeze of a step that is already frozen.
\<close>

datatype seg_event = AtFreeze host | WhileFrozen host | AtResume host

fun seg_event_step :: "rapl_cfg \<Rightarrow> string \<Rightarrow> int \<Rightarrow> seg_event \<Rightarrow> stepMeter \<times> freezeMarks \<Rightarrow> stepMeter \<times> freezeMarks" where
  "seg_event_step c path pid (AtFreeze h) st = snd (closeSegmentAtFreeze c h path pid st)"
| "seg_event_step c path pid (WhileFrozen h) st = snd (refineFrozenSegment c h path pid st)"
| "seg_event_step c path pid (AtResume h) st = snd (openSegmentAtResume h path pid st)"

fun seg_event_ok :: "seg_event \<Rightarrow> stepMeter \<times> freezeMarks \<Rightarrow> bool" where
  "seg_event_ok (AtFreeze h) st = (\<not> frozen (fst st))"
| "seg_event_ok _ st = True"

fun seg_run :: "rapl_cfg \<Rightarrow> string \<Rightarrow> int \<Rightarrow> seg_event list \<Rightarrow> stepMeter \<times> freezeMarks
    \<Rightarrow> (stepMeter \<times> freezeMarks) option" where
  "seg_run c path pid [] st = Some st"
| "seg_run c path pid (ev # evs) st =
     (if seg_event_ok ev st then seg_run c path pid evs (seg_event_step c path pid ev st) else None)"

section \<open>The segments the marks describe\<close>

text \<open>Where the segment running after the given marks began, and the energy of the segments
  they close.\<close>

fun cur_start :: "int \<Rightarrow> CPUSnapshot \<Rightarrow> freezeMark list \<Rightarrow> int \<times> CPUSnapshot" where
  "cur_start e s [] = (e, s)"
| "cur_start e s (m # ms) = cur_start (ResumeEnergyUJ m) (ResumeCPU m) ms"

fun closed_sum :: "rapl_cfg \<Rightarrow> int \<Rightarrow> CPUSnapshot \<Rightarrow> freezeMark list \<Rightarrow> int" where
  "closed_sum c e s [] = 0"
| "closed_sum c e s (m # ms) = attributedEnergyUJ c e (FreezeEnergyUJ m) s (FreezeCPU m)
     + closed_sum c (ResumeEnergyUJ m) (ResumeCPU m) ms"

definition open_mark :: "freezeMark list \<Rightarrow> bool" where
  "open_mark ms \<longleftrightarrow> ms \<noteq> [] \<and> \<not> Resumed (last ms)"

definition wf_marks :: "freezeMark list \<Rightarrow> bool" where
  "wf_marks ms \<longleftrightarrow> list_all Resumed (butlast ms)"

lemma cur_start_snoc [simp]: "cur_start e s (ms @ [m]) = (ResumeEnergyUJ m, ResumeCPU m)"
  by (induction ms arbitrary: e s) auto

lemma closed_sum_snoc [simp]:
  "closed_sum c e s (ms @ [m]) = closed_sum c e s ms
     + attributedEnergyUJ c (fst (cur_start e s ms)) (FreezeEnergyUJ m) (snd (cur_start e s ms)) (FreezeCPU m)"
  by (induction ms arbitrary: e s) auto

lemma open_mark_simps [simp]:
  "\<not> open_mark []" "open_mark (ms @ [m]) \<longleftrightarrow> \<not> Resumed m"
  by (simp_all add: open_mark_def)

lemma open_markE:
  assumes "open_mark ms" obtains ms' m where "ms = ms' @ [m]" "\<not> Resumed m"
  using assms by (cases ms rule: rev_cases) auto

lemma wf_marks_simps [simp]:
  "wf_marks []" "wf_marks (ms @ [m]) \<longleftrightarrow> list_all Resumed ms"
  by (simp_all add: wf_marks_def)

lemma wf_marks_closed: "wf_marks ms \<Longrightarrow> \<not> open_mark ms \<Longrightarrow> list_all Resumed ms"
  by (cases ms rule: rev_cases) auto

lemma breakdown_add_sel [simp]:
  "AttributedUJ (breakdown_add t d) = i64 (AttributedUJ t + AttributedUJ d)"
  "DeltaProcessUsec (breakdown_add t d) = i64 (DeltaProcessUsec t + DeltaProcessUsec d)"
  "CapacityUsec (breakdown_add t d) = i64 (CapacityUsec t + CapacityUsec d)"
  "CPURatio (breakdown_add t d) = CPURatio t"
  by (simp_all add: breakdown_add_def)

lemma wf_marks_Cons: "wf_marks (m # ms) \<longleftrightarrow> ms = [] \<or> Resumed m \<and> wf_marks ms"
  by (auto simp: wf_marks_def)

lemma open_mark_Cons: "open_mark (m # ms) \<longleftrightarrow> (if ms = [] then \<not> Resumed m else open_mark ms)"
  by (auto simp: open_mark_def)

lemma segment_loop_attributed:
  "wf_marks ms \<Longrightarrow> AttributedUJ (segment_loop c e s tot ms eE sE) =
     i64 (AttributedUJ tot + closed_sum c e s ms +
       (if open_mark ms then 0
        else attributedEnergyUJ c (fst (cur_start e s ms)) eE (snd (cur_start e s ms)) sE))"
proof (induction ms arbitrary: e s tot)
  case Nil
  then show ?case by (simp add: attributedEnergyUJ_def)
next
  case (Cons m ms)
  show ?case
  proof (cases "ms = []")
    case True
    then show ?thesis
      by (simp add: Let_def attributedEnergyUJ_def open_mark_Cons add.assoc)
  next
    case False
    with Cons.prems have "Resumed m" "wf_marks ms" by (auto simp: wf_marks_Cons)
    with Cons.IH[of "ResumeEnergyUJ m" "ResumeCPU m"] False show ?thesis
      by (simp add: Let_def attributedEnergyUJ_def open_mark_Cons add.assoc)
  qed
qed

lemma segmentedAttribution_attributed:
  assumes "wf_marks ms"
  shows "AttributedUJ (segmentedAttribution c e0 eE s0 sE ms) =
     i64 (closed_sum c e0 s0 ms +
       (if open_mark ms then 0
        else attributedEnergyUJ c (fst (cur_start e0 s0 ms)) eE (snd (cur_start e0 s0 ms)) sE))"
  using segment_loop_attributed[OF assms, of c e0 s0 zero_breakdown eE sE]
    attributedEnergyUJ_in_i64[of c e0 eE s0 sE]
  by (auto simp: segmentedAttribution_def Let_def zero_breakdown_def attributedEnergyUJ_def)

section \<open>The meter simulates the marks\<close>

datatype seg_op = OpClose int CPUSnapshot | OpRefine int | OpOpen int CPUSnapshot

fun meter_op :: "rapl_cfg \<Rightarrow> seg_op \<Rightarrow> stepMeter \<Rightarrow> stepMeter" where
  "meter_op c (OpClose e cpu) m = closeAt c e cpu m"
| "meter_op c (OpRefine t) m = snd (refineFrozenCPU c t m)"
| "meter_op c (OpOpen e cpu) m = openAt e cpu m"

fun marks_op :: "seg_op \<Rightarrow> freezeMarks \<Rightarrow> freezeMarks" where
  "marks_op (OpClose e cpu) f = noteFreeze e cpu f"
| "marks_op (OpRefine t) f = refineFreezeCPU t f"
| "marks_op (OpOpen e cpu) f = noteResume e cpu f"

fun marks_op_ok :: "seg_op \<Rightarrow> freezeMarks \<Rightarrow> bool" where
  "marks_op_ok (OpClose e cpu) f = (\<not> open_mark f)"
| "marks_op_ok (OpRefine t) f = True"
| "marks_op_ok (OpOpen e cpu) f = open_mark f"

definition agree :: "rapl_cfg \<Rightarrow> int \<Rightarrow> CPUSnapshot \<Rightarrow> stepMeter \<Rightarrow> freezeMarks \<Rightarrow> bool" where
  "agree c e0 s0 m f \<longleftrightarrow>
     wf_marks f \<and> frozen m = open_mark f \<and> closedUJ m = i64 (closed_sum c e0 s0 f) \<and>
     (if open_mark f
      then (lastSegEnergy m, lastSegCPU m) = cur_start e0 s0 (butlast f) \<and>
           frozenEnergy m = FreezeEnergyUJ (last f) \<and> frozenCPU m = FreezeCPU (last f) \<and>
           lastSegUJ m = attributedEnergyUJ c (lastSegEnergy m) (frozenEnergy m) (lastSegCPU m) (frozenCPU m)
      else (segEnergy m, segCPU m) = cur_start e0 s0 f)"

lemma agree_new: "agree c e0 s0 (newStepMeter e0 s0) []"
  by (simp add: agree_def newStepMeter_def)

lemma agree_close:
  assumes "agree c e0 s0 m f" "\<not> open_mark f"
  shows "agree c e0 s0 (closeAt c e cpu m) (noteFreeze e cpu f)"
proof -
  have s: "cur_start e0 s0 f = (segEnergy m, segCPU m)" using assms by (simp add: agree_def)
  have r: "list_all Resumed f" using assms by (auto simp: agree_def intro: wf_marks_closed)
  show ?thesis
    using assms r by (simp add: agree_def closeAt_def noteFreeze_def Let_def s)
qed

lemma agree_refine:
  assumes "agree c e0 s0 m f"
  shows "agree c e0 s0 (snd (refineFrozenCPU c t m)) (refineFreezeCPU t f)"
proof (cases "open_mark f")
  case False
  then show ?thesis
    using assms by (auto simp: agree_def refineFrozenCPU_def refineFreezeCPU_def open_mark_def)
next
  case True
  then obtain f' k where f: "f = f' @ [k]" "\<not> Resumed k" by (rule open_markE)
  have s: "cur_start e0 s0 f' = (lastSegEnergy m, lastSegCPU m)"
    using assms f by (simp add: agree_def)
  have "i64 (closedUJ m + i64 (r - lastSegUJ m)) = i64 (closed_sum c e0 s0 f' + r)" for r
    using assms f by (simp add: agree_def s)
  then show ?thesis
    using assms f by (auto simp: agree_def refineFrozenCPU_def refineFreezeCPU_def Let_def s)
qed

lemma agree_open:
  assumes "agree c e0 s0 m f" "open_mark f"
  shows "agree c e0 s0 (openAt e cpu m) (noteResume e cpu f)"
proof -
  obtain f' k where f: "f = f' @ [k]" "\<not> Resumed k" using assms(2) by (rule open_markE)
  show ?thesis using assms f by (simp add: agree_def openAt_def noteResume_def)
qed

interpretation seg: simulation "agree c e0 s0" "meter_op c" marks_op marks_op_ok
  for c e0 s0
proof unfold_locales
  fix m f x assume "agree c e0 s0 m f" "marks_op_ok x f"
  then show "agree c e0 s0 (meter_op c x m) (marks_op x f)"
    by (cases x) (auto intro: agree_close agree_refine agree_open)
qed


text \<open>Every executor operation performs at most one operation on the meter and the same one
  on the marks.\<close>

lemma closeSegmentAtFreeze_op:
  "snd (closeSegmentAtFreeze c h path pid (m, f)) \<in>
     {(m, f)} \<union> {(meter_op c (OpClose e cpu) m, marks_op (OpClose e cpu) f) |e cpu. True}"
  by (auto simp: closeSegmentAtFreeze_def split: prod.splits)

lemma refineFrozenSegment_op:
  "snd (refineFrozenSegment c h path pid (m, f)) \<in>
     {(m, f)} \<union> {(meter_op c (OpRefine t) m, marks_op (OpRefine t) f) |t. True}"
proof (cases "frozen m")
  case True
  let ?t = "ProcessTicks (cpuSnapshot h path pid)"
  have "snd (refineFrozenSegment c h path pid (m, f)) = (meter_op c (OpRefine ?t) m, marks_op (OpRefine ?t) f)"
    using True by (simp add: refineFrozenSegment_def Let_def split: prod.splits)
  then show ?thesis by blast
qed (simp add: refineFrozenSegment_def)

lemma openSegmentAtResume_op:
  "snd (openSegmentAtResume h path pid (m, f)) \<in>
     {(m, f)} \<union> {(meter_op c (OpOpen e cpu) m, marks_op (OpOpen e cpu) f) |e cpu. frozen m}"
  by (auto simp: openSegmentAtResume_def Let_def split: prod.splits)

lemma agree_frozen: "agree c e0 s0 m f \<Longrightarrow> frozen m = open_mark f"
  by (simp add: agree_def)

lemma agree_event:
  assumes "agree c e0 s0 m f" "seg_event_ok ev (m, f)" "seg_event_step c path pid ev (m, f) = (m', f')"
  shows "agree c e0 s0 m' f'"
proof (cases ev)
  case (AtFreeze h)
  with assms show ?thesis
    using closeSegmentAtFreeze_op[of c h path pid m f] seg.step[OF assms(1), of "OpClose _ _"]
    by (auto simp: agree_frozen)
next
  case (WhileFrozen h)
  with assms show ?thesis
    using refineFrozenSegment_op[of c h path pid m f] seg.step[OF assms(1), of "OpRefine _"] by auto
next
  case (AtResume h)
  with assms show ?thesis
    using openSegmentAtResume_op[of h path pid m f c] seg.step[OF assms(1), of "OpOpen _ _"]
    by (auto simp: agree_frozen)
qed

lemma agree_run:
  "agree c e0 s0 m f \<Longrightarrow> seg_run c path pid evs (m, f) = Some (m', f') \<Longrightarrow> agree c e0 s0 m' f'"
proof (induction evs arbitrary: m f)
  case (Cons ev evs)
  obtain m1 f1 where st: "seg_event_step c path pid ev (m, f) = (m1, f1)" by fastforce
  with Cons.prems have "seg_event_ok ev (m, f)" "seg_run c path pid evs (m1, f1) = Some (m', f')"
    by (auto split: if_splits)
  with Cons.IH agree_event[OF Cons.prems(1) _ st] show ?case by blast
qed simp

lemma agree_stepJ:
  assumes "agree c e0 s0 m f"
  shows "stepJ c m e s = joules (AttributedUJ (segmentedAttribution c e0 e s0 s f))"
  using assms
  by (cases "open_mark f")
     (auto simp: agree_def stepJ_def closedJ_def segmentedAttribution_attributed prod_eq_iff)

text \<open>A step's marks never lose CPU time: a segment opens at the CPU time its predecessor
  closed with.\<close>

definition chained :: "freezeMark list \<Rightarrow> bool" where
  "chained f \<longleftrightarrow> list_all (\<lambda>m. Resumed m \<longrightarrow> ProcessTicks (ResumeCPU m) = ProcessTicks (FreezeCPU m)) f"

lemma chained_simps [simp]:
  "chained []"
  "chained (ms @ [m]) \<longleftrightarrow> chained ms \<and> (Resumed m \<longrightarrow> ProcessTicks (ResumeCPU m) = ProcessTicks (FreezeCPU m))"
  "chained (m # ms) \<longleftrightarrow> (Resumed m \<longrightarrow> ProcessTicks (ResumeCPU m) = ProcessTicks (FreezeCPU m)) \<and> chained ms"
  by (auto simp: chained_def)

lemma chained_resume:
  assumes "agree c e0 s0 m f" "chained f" "frozen m" "ProcessTicks cpu = ProcessTicks (frozenCPU m)"
  shows "chained (noteResume e cpu f)"
proof -
  obtain f' k where f: "f = f' @ [k]" "\<not> Resumed k"
    using assms(1,3) agree_frozen open_markE by metis
  with assms show ?thesis by (simp add: noteResume_def agree_def)
qed

lemma chained_refine: "chained f \<Longrightarrow> chained (refineFreezeCPU t f)"
  by (cases f rule: rev_cases) (auto simp: refineFreezeCPU_def)

lemma chained_event:
  assumes "agree c e0 s0 m f" "chained f" "seg_event_step c path pid ev (m, f) = (m', f')"
  shows "chained f'"
proof (cases ev)
  case (AtFreeze h)
  with assms show ?thesis
    by (auto simp: closeSegmentAtFreeze_def noteFreeze_def split: prod.splits if_splits)
next
  case (WhileFrozen h)
  with assms show ?thesis
    using refineFrozenSegment_op[of c h path pid m f] chained_refine by auto
next
  case (AtResume h)
  with assms show ?thesis
    by (auto simp: openSegmentAtResume_def Let_def intro!: chained_resume split: prod.splits if_splits)
qed

lemma chained_run:
  "agree c e0 s0 m f \<Longrightarrow> chained f \<Longrightarrow> seg_run c path pid evs (m, f) = Some (m', f') \<Longrightarrow> chained f'"
proof (induction evs arbitrary: m f)
  case (Cons ev evs)
  obtain m1 f1 where st: "seg_event_step c path pid ev (m, f) = (m1, f1)" by fastforce
  with Cons.prems have "seg_event_ok ev (m, f)" "seg_run c path pid evs (m1, f1) = Some (m', f')"
    by (auto split: if_splits)
  with Cons.IH[OF agree_event[OF Cons.prems(1) _ st] chained_event[OF Cons.prems(1,2) st]]
  show ?case by blast
qed simp

text \<open>All the segments of a step were measured: on each, the node's counter, the container's
  CPU time and the clock advanced.\<close>

fun all_measured :: "rapl_cfg \<Rightarrow> int \<Rightarrow> CPUSnapshot \<Rightarrow> freezeMark list \<Rightarrow> int \<Rightarrow> CPUSnapshot \<Rightarrow> bool" where
  "all_measured c e s [] eE sE = measured c e eE s sE"
| "all_measured c e s (m # ms) eE sE = (measured c e (FreezeEnergyUJ m) s (FreezeCPU m) \<and>
     (Resumed m \<longrightarrow> all_measured c (ResumeEnergyUJ m) (ResumeCPU m) ms eE sE))"

fun last_reading :: "CPUSnapshot \<Rightarrow> freezeMark list \<Rightarrow> CPUSnapshot" where
  "last_reading sE [] = sE"
| "last_reading sE (m # ms) = (if Resumed m then last_reading sE ms else FreezeCPU m)"

lemma DeltaProcessUsec_measured:
  "measured c e0 e1 s0 s1 \<Longrightarrow>
     DeltaProcessUsec (attributionDetail c e0 e1 s0 s1) = i64 (ProcessTicks s1 - ProcessTicks s0)"
  by (simp add: attributionDetail_measured Let_def)

lemma segment_loop_cpu:
  "chained ms \<Longrightarrow> all_measured c e s ms eE sE \<Longrightarrow>
     DeltaProcessUsec (segment_loop c e s tot ms eE sE) =
       i64 (DeltaProcessUsec tot + (ProcessTicks (last_reading sE ms) - ProcessTicks s))"
proof (induction ms arbitrary: e s tot)
  case Nil
  then show ?case by (simp add: DeltaProcessUsec_measured)
next
  case (Cons m ms)
  have "i64 (i64 x + (y - z)) = i64 (x + (y - z))" for x y z by simp
  with Cons show ?case by (auto simp: Let_def DeltaProcessUsec_measured)
qed

text \<open>Lengthening a freeze: everything read after the resume comes later by \<open>w\<close>
  nanoseconds and \<open>k\<close> microjoules of the node.\<close>

definition shift_cpu :: "int \<Rightarrow> CPUSnapshot \<Rightarrow> CPUSnapshot" where
  "shift_cpu w s = s\<lparr>WallNs := WallNs s + w\<rparr>"

definition shift_resume :: "int \<Rightarrow> int \<Rightarrow> freezeMark \<Rightarrow> freezeMark" where
  "shift_resume k w m = m\<lparr>ResumeEnergyUJ := ResumeEnergyUJ m + k, ResumeCPU := shift_cpu w (ResumeCPU m)\<rparr>"

definition shift_mark :: "int \<Rightarrow> int \<Rightarrow> freezeMark \<Rightarrow> freezeMark" where
  "shift_mark k w m = (shift_resume k w m)\<lparr>FreezeEnergyUJ := FreezeEnergyUJ m + k, FreezeCPU := shift_cpu w (FreezeCPU m)\<rparr>"

fun rising :: "int \<Rightarrow> freezeMark list \<Rightarrow> int \<Rightarrow> bool" where
  "rising e [] eE = (e \<le> eE)"
| "rising e (m # ms) eE = (e \<le> FreezeEnergyUJ m \<and> rising (ResumeEnergyUJ m) ms eE)"

lemma attributionDetail_shift:
  "e0 \<le> e1 \<Longrightarrow> attributionDetail c (e0 + k) (e1 + k) (shift_cpu w s0) (shift_cpu w s1) = attributionDetail c e0 e1 s0 s1"
  by (simp add: attributionDetail_def deltaRAPLUJ_def shift_cpu_def Let_def)

lemma shift_sel [simp]:
  "Resumed (shift_resume k w m) = Resumed m" "Resumed (shift_mark k w m) = Resumed m"
  "FreezeEnergyUJ (shift_resume k w m) = FreezeEnergyUJ m" "FreezeCPU (shift_resume k w m) = FreezeCPU m"
  "FreezeEnergyUJ (shift_mark k w m) = FreezeEnergyUJ m + k" "FreezeCPU (shift_mark k w m) = shift_cpu w (FreezeCPU m)"
  "ResumeEnergyUJ (shift_resume k w m) = ResumeEnergyUJ m + k" "ResumeCPU (shift_resume k w m) = shift_cpu w (ResumeCPU m)"
  "ResumeEnergyUJ (shift_mark k w m) = ResumeEnergyUJ m + k" "ResumeCPU (shift_mark k w m) = shift_cpu w (ResumeCPU m)"
  by (simp_all add: shift_mark_def shift_resume_def)

lemma segment_loop_shift:
  "rising e ms eE \<Longrightarrow> segment_loop c (e + k) (shift_cpu w s) tot (map (shift_mark k w) ms) (eE + k) (shift_cpu w sE)
     = segment_loop c e s tot ms eE sE"
  by (induction ms arbitrary: e s tot) (auto simp: attributionDetail_shift Let_def)

lemma segment_loop_longer_freeze:
  "rising (ResumeEnergyUJ m) post eE \<Longrightarrow>
     segment_loop c e s tot (pre @ shift_resume k w m # map (shift_mark k w) post) (eE + k) (shift_cpu w sE)
     = segment_loop c e s tot (pre @ m # post) eE sE"
  by (induction pre arbitrary: e s tot) (auto simp: segment_loop_shift Let_def)

text \<open>Every reading lies in the counter's range, every segment's capacity fits 64 bits.\<close>

fun segs_ok :: "rapl_cfg \<Rightarrow> int \<Rightarrow> CPUSnapshot \<Rightarrow> freezeMark list \<Rightarrow> int \<Rightarrow> CPUSnapshot \<Rightarrow> bool" where
  "segs_ok c e s [] eE sE = (0 \<le> e \<and> e \<le> rc_max c \<and> 0 \<le> eE \<and> eE \<le> rc_max c \<and> window_ok c s sE)"
| "segs_ok c e s (m # ms) eE sE = (0 \<le> e \<and> e \<le> rc_max c \<and> 0 \<le> FreezeEnergyUJ m \<and> FreezeEnergyUJ m \<le> rc_max c
     \<and> window_ok c s (FreezeCPU m) \<and> segs_ok c (ResumeEnergyUJ m) (ResumeCPU m) ms eE sE)"

fun running_energy :: "rapl_cfg \<Rightarrow> int \<Rightarrow> freezeMark list \<Rightarrow> int \<Rightarrow> int" where
  "running_energy c e [] eE = deltaRAPLUJ c e eE"
| "running_energy c e (m # ms) eE = deltaRAPLUJ c e (FreezeEnergyUJ m) +
     (if Resumed m then running_energy c (ResumeEnergyUJ m) ms eE else 0)"

lemma running_energy_nonneg:
  "cfg_ok c \<Longrightarrow> segs_ok c e s ms eE sE \<Longrightarrow> 0 \<le> running_energy c e ms eE"
proof (induction ms arbitrary: e s)
  case (Cons m ms)
  then show ?case using deltaRAPLUJ_bounds[of c e "FreezeEnergyUJ m"] by fastforce
qed (auto simp: deltaRAPLUJ_bounds)

lemma segment_loop_bounds:
  assumes "cfg_ok c" "rc_max c \<le> 2 ^ 53"
  shows "segs_ok c e s ms eE sE \<Longrightarrow> 0 \<le> AttributedUJ tot \<Longrightarrow>
     AttributedUJ tot + running_energy c e ms eE < 2 ^ 63 \<Longrightarrow>
     AttributedUJ tot \<le> AttributedUJ (segment_loop c e s tot ms eE sE) \<and>
     AttributedUJ (segment_loop c e s tot ms eE sE) \<le> AttributedUJ tot + running_energy c e ms eE"
proof (induction ms arbitrary: e s tot)
  case Nil
  then have "0 \<le> attributedEnergyUJ c e eE s sE" "attributedEnergyUJ c e eE s sE \<le> deltaRAPLUJ c e eE"
    by (auto intro: attribution_range assms)
  with Nil show ?case by (simp add: attributedEnergyUJ_def[symmetric] in_i64_def)
next
  case (Cons m ms)
  let ?a = "attributedEnergyUJ c e (FreezeEnergyUJ m) s (FreezeCPU m)"
  let ?r = "running_energy c (ResumeEnergyUJ m) ms eE"
  have a: "0 \<le> ?a" "?a \<le> deltaRAPLUJ c e (FreezeEnergyUJ m)"
    using Cons.prems by (auto intro: attribution_range assms)
  have r: "0 \<le> ?r" using running_energy_nonneg[OF assms(1)] Cons.prems by auto
  have "AttributedUJ tot + ?a < 2 ^ 63" using Cons.prems a r by (auto split: if_splits)
  then have s: "i64 (AttributedUJ tot + ?a) = AttributedUJ tot + ?a"
    using Cons.prems a by (simp add: in_i64_def)
  have "AttributedUJ tot + ?a + ?r < 2 ^ 63" if "Resumed m" using Cons.prems a that by simp
  then show ?case
    using Cons.IH[of "ResumeEnergyUJ m" "ResumeCPU m" "breakdown_add tot (attributionDetail c e (FreezeEnergyUJ m) s (FreezeCPU m))"]
      Cons.prems a s by (auto simp: Let_def attributedEnergyUJ_def)
qed

section \<open>Properties of the segments\<close>

text \<open>C6: whatever pause cycles a step goes through, the energy its monitor compares with the
  threshold is the energy the sidecar and the final measurement compute from the freeze marks:
  the meter and \<open>segmentedAttribution\<close> agree at every instant, in 64-bit arithmetic and
  with float64 joules.\<close>

theorem meter_agrees_with_marks:
  assumes "seg_run c path pid evs (newStepMeter e0 s0, marks_reset f0) = Some (m, f)"
  shows "stepJ c m e s = joules (AttributedUJ (segmentedAttribution c e0 e s0 s (marks_snapshot f)))"
  using agree_stepJ[OF agree_run[OF agree_new assms[unfolded marks_reset_def]]]
  by (simp add: marks_snapshot_def)


text \<open>C19: the energy of a step never exceeds what the node consumed while the step was
  running: nothing is attributed between a freeze and its resume, and the total neither
  overflows nor becomes negative as long as the node's energy over the segments fits 64 bits.\<close>

theorem segmented_bounds:
  assumes "cfg_ok c" "rc_max c \<le> 2 ^ 53" "segs_ok c e0 s0 ms eE sE" "running_energy c e0 ms eE < 2 ^ 63"
  shows "0 \<le> AttributedUJ (segmentedAttribution c e0 eE s0 sE ms)
       \<and> AttributedUJ (segmentedAttribution c e0 eE s0 sE ms) \<le> running_energy c e0 ms eE"
proof (cases "ms = []")
  case True
  with assms attribution_range(1,2)[OF assms(1,2), of s0 sE e0 eE] show ?thesis
    by (simp add: segmentedAttribution_def attributedEnergyUJ_def)
next
  case False
  with assms segment_loop_bounds[OF assms(1-3), of zero_breakdown] show ?thesis
    by (simp add: segmentedAttribution_def Let_def zero_breakdown_def)
qed

text \<open>C21: what the node does while a step is frozen does not count. However long the freeze
  lasts and whatever the other containers consume meanwhile, that is shifting every later
  reading of the clock and of the (not wrapping) counter, the whole breakdown is unchanged.\<close>

theorem freeze_interval_is_free:
  assumes "Resumed m" "rising (ResumeEnergyUJ m) post eE"
  shows "segmentedAttribution c e0 (eE + k) s0 (shift_cpu w sE) (pre @ shift_resume k w m # map (shift_mark k w) post)
       = segmentedAttribution c e0 eE s0 sE (pre @ m # post)"
  using segment_loop_longer_freeze[OF assms(2)] by (simp add: segmentedAttribution_def)

text \<open>A step killed while frozen is settled at its effective freeze: once a run of pause
  cycles has left the meter frozen, the end-of-step reading has no influence on the breakdown,
  and the meter reports the energy of the closed segments whatever it is shown.\<close>

theorem frozen_step_is_settled:
  assumes "seg_run c path pid evs (newStepMeter e0 s0, []) = Some (m, f)" "frozen m"
  shows "segmentedAttribution c e0 e s0 s f = segmentedAttribution c e0 e' s0 s' f
       \<and> stepJ c m e s = closedJ m
       \<and> closedJ m = joules (AttributedUJ (segmentedAttribution c e0 e s0 s f))"
proof -
  note ag = agree_run[OF agree_new assms(1)]
  then obtain f' k where f: "f = f' @ [k]" "\<not> Resumed k"
    using assms(2) agree_frozen open_markE by metis
  have "segment_loop c e0 s0 tot (f' @ [k]) e s = segment_loop c e0 s0 tot (f' @ [k]) e' s'" for tot
    using f(2) by (induction f' arbitrary: e0 s0 tot) (auto simp: Let_def)
  with f agree_stepJ[OF ag, of e s] assms(2) show ?thesis
    by (simp add: segmentedAttribution_def stepJ_def)
qed

text \<open>C20: the CPU time of a step is counted once and only once. After any run of pause cycles
  in which every segment was measured, the CPU time summed over the segments is the difference
  of the container's counter between the start of the step and its last reading, although each
  resume was observed after the container had already started computing again.\<close>

theorem cpu_time_counted_once:
  assumes "seg_run c path pid evs (newStepMeter e0 s0, []) = Some (m, f)"
    and "all_measured c e0 s0 f eE sE"
  shows "DeltaProcessUsec (segmentedAttribution c e0 eE s0 sE f) =
     i64 (ProcessTicks (last_reading sE f) - ProcessTicks s0)"
proof -
  have "chained f" using chained_run[OF agree_new _ assms(1)] by simp
  from segment_loop_cpu[OF this assms(2), of zero_breakdown] assms(2) show ?thesis
    by (cases f) (simp_all add: segmentedAttribution_def Let_def zero_breakdown_def DeltaProcessUsec_measured)
qed


section \<open>Concrete runs\<close>

text \<open>A host that shows an energy counter, the CPU time of the cgroup \<^verbatim>\<open>/cg\<close> and a clock.\<close>

definition sample_host :: "string \<Rightarrow> string \<Rightarrow> int \<Rightarrow> host" where
  "sample_host energy cpu t = \<lparr>getenv = (\<lambda>_. []),
     files = (\<lambda>p. if p = ''/sys/class/powercap/intel-rapl/intel-rapl:0/energy_uj'' then Some energy
                  else if p = ''/cg/cpu.stat'' then Some (''usage_usec '' @ cpu) else None),
     now = t\<rparr>"

definition paused_run :: "seg_event list" where
  "paused_run = [AtFreeze (sample_host ''301000'' ''1000'' 4000000), WhileFrozen (sample_host ''400000'' ''1200'' 5000000)]"

definition resumed_run :: "seg_event list" where
  "resumed_run = paused_run @ [AtResume (sample_host ''901000'' ''1250'' 9000000)]"

lemma paused_run_value:
  "seg_run cfg_example ''/cg'' 7 paused_run (newStepMeter 1000 zero_snapshot, []) =
     Some (\<lparr>closedUJ = 90000, segEnergy = 1000, segCPU = zero_snapshot, frozen = True, frozenEnergy = 301000,
            frozenCPU = \<lparr>ProcessTicks = 1200, WallNs = 4000000\<rparr>, lastSegEnergy = 1000,
            lastSegCPU = zero_snapshot, lastSegUJ = 90000\<rparr>,
           [\<lparr>FreezeEnergyUJ = 301000, FreezeCPU = \<lparr>ProcessTicks = 1200, WallNs = 4000000\<rparr>, Resumed = False,
             ResumeEnergyUJ = 0, ResumeCPU = zero_snapshot\<rparr>])"
  by code_simp

definition resumed_mark :: freezeMark where
  "resumed_mark = \<lparr>FreezeEnergyUJ = 301000, FreezeCPU = \<lparr>ProcessTicks = 1200, WallNs = 4000000\<rparr>, Resumed = True,
     ResumeEnergyUJ = 901000, ResumeCPU = \<lparr>ProcessTicks = 1200, WallNs = 9000000\<rparr>\<rparr>"

lemma resumed_run_value:
  "map_option snd (seg_run cfg_example ''/cg'' 7 resumed_run (newStepMeter 1000 zero_snapshot, [])) = Some [resumed_mark]"
  by code_simp

definition end_snapshot :: CPUSnapshot where
  "end_snapshot = \<lparr>ProcessTicks = 2200, WallNs = 13000000\<rparr>"

theorem meter_agrees_with_marks_witness:
  "\<exists>m f. seg_run cfg_example ''/cg'' 7 resumed_run (newStepMeter 1000 zero_snapshot, []) = Some (m, f) \<and>
     stepJ cfg_example m 1201000 end_snapshot =
       joules (AttributedUJ (segmentedAttribution cfg_example 1000 1201000 zero_snapshot end_snapshot f)) \<and>
     AttributedUJ (segmentedAttribution cfg_example 1000 1201000 zero_snapshot end_snapshot f) = 165000"
proof -
  obtain m f where r: "seg_run cfg_example ''/cg'' 7 resumed_run (newStepMeter 1000 zero_snapshot, []) = Some (m, f)"
    "f = [resumed_mark]"
    using resumed_run_value by auto
  have "AttributedUJ (segmentedAttribution cfg_example 1000 1201000 zero_snapshot end_snapshot [resumed_mark]) = 165000"
    by code_simp
  then show ?thesis
    using r meter_agrees_with_marks[of cfg_example "''/cg''" 7 resumed_run 1000 zero_snapshot "[]" m f 1201000 end_snapshot]
    by (auto simp: marks_reset_def marks_snapshot_def)
qed

lemma segs_ok_example: "segs_ok cfg_example 1000 zero_snapshot [resumed_mark] 1201000 end_snapshot"
  by code_simp

lemma running_energy_example: "running_energy cfg_example 1000 [resumed_mark] 1201000 = 600000"
  by code_simp

theorem segmented_bounds_witness:
  "0 \<le> AttributedUJ (segmentedAttribution cfg_example 1000 1201000 zero_snapshot end_snapshot [resumed_mark])
   \<and> AttributedUJ (segmentedAttribution cfg_example 1000 1201000 zero_snapshot end_snapshot [resumed_mark]) \<le> 600000"
  using segmented_bounds[of cfg_example 1000 zero_snapshot "[resumed_mark]" 1201000 end_snapshot]
    cfg_example_ok segs_ok_example running_energy_example by (simp add: cfg_example_def)

theorem freeze_interval_is_free_witness:
  "segmentedAttribution cfg_example 1000 (1201000 + 7000000) zero_snapshot (shift_cpu 250000000 end_snapshot)
     [shift_resume 7000000 250000000 resumed_mark]
   = segmentedAttribution cfg_example 1000 1201000 zero_snapshot end_snapshot [resumed_mark]"
  using freeze_interval_is_free[of resumed_mark "[]" 1201000 cfg_example 1000 7000000 zero_snapshot 250000000 end_snapshot "[]"]
  by (simp add: resumed_mark_def)

theorem frozen_step_is_settled_witness:
  "\<exists>m f. seg_run cfg_example ''/cg'' 7 paused_run (newStepMeter 1000 zero_snapshot, []) = Some (m, f) \<and> frozen m \<and>
     segmentedAttribution cfg_example 1000 900000 zero_snapshot end_snapshot f
       = segmentedAttribution cfg_example 1000 0 zero_snapshot zero_snapshot f"
  using frozen_step_is_settled[OF paused_run_value, of 900000 end_snapshot 0 zero_snapshot] paused_run_value by auto

theorem cpu_time_counted_once_witness:
  "\<exists>m f. seg_run cfg_example ''/cg'' 7 resumed_run (newStepMeter 1000 zero_snapshot, []) = Some (m, f) \<and>
     DeltaProcessUsec (segmentedAttribution cfg_example 1000 1201000 zero_snapshot end_snapshot f) = 2200"
proof -
  obtain m f where r: "seg_run cfg_example ''/cg'' 7 resumed_run (newStepMeter 1000 zero_snapshot, []) = Some (m, f)"
    "f = [resumed_mark]"
    using resumed_run_value by auto
  have "all_measured cfg_example 1000 zero_snapshot [resumed_mark] 1201000 end_snapshot" by code_simp
  then have "DeltaProcessUsec (segmentedAttribution cfg_example 1000 1201000 zero_snapshot end_snapshot f) =
      i64 (ProcessTicks (last_reading end_snapshot [resumed_mark]) - ProcessTicks zero_snapshot)"
    using cpu_time_counted_once[OF r(1), of 1201000 end_snapshot] r(2) by simp
  also have "\<dots> = 2200" by code_simp
  finally show ?thesis using r(1) by blast
qed

end
