(* ===== verification/Freezer.thy ===== *)
theory Freezer
  imports Prelude
begin

text \<open>
  \<^verbatim>\<open>src/openwhisk/cgroupFreezer.go\<close>: the dedicated cgroup of an activation and the state
  machine around freezing, resuming and killing it.

  The kernel is seen through the files of the cgroup. One call that writes a control file and
  polls \<^verbatim>\<open>cgroup.events\<close> takes a \<open>cg_io\<close>: whether the write succeeded, the clock
  at which the deadline was set, and what each poll read together with the clock after it. The
  list may be as long as one likes; a call whose list runs out before it returns is still
  polling, and its value is \<open>None\<close>. The trace and reservation identifiers the operations
  take only reach log lines and are left out.
\<close>

section \<open>States and errors\<close>

datatype RuntimeState = StateRunning | StateFreezing | StateFrozen | StateResuming
  | StateKilling | StateStopped | StateUnknown

datatype cg_error = EWrite string | EReadEvents | EFieldMissing string
  | ETimedOut string string string

datatype transition_reason = NeedsRunning | NeedsFrozen | PauseIDMismatch string
  | NeedsRunningOrFrozen | CgroupFailed cg_error

record TransitionError =
  teEvent :: string
  tePauseID :: string
  AttemptedOp :: string
  FromState :: RuntimeState
  Reason :: transition_reason

definition newTransitionError :: "string \<Rightarrow> RuntimeState \<Rightarrow> string \<Rightarrow> transition_reason \<Rightarrow> TransitionError" where
  "newTransitionError oper from pauseID reason =
     \<lparr>teEvent = ''RUNTIME_STATE_TRANSITION_ERROR'', tePauseID = pauseID, AttemptedOp = oper,
      FromState = from, Reason = reason\<rparr>"

section \<open>The cgroup handle\<close>

definition cgroupTimeout :: "host \<Rightarrow> string \<Rightarrow> int \<Rightarrow> int" where
  "cgroupTimeout h envVar defaultMs = millis (env_int (\<lambda>parsed. 0 < parsed) h envVar defaultMs)"

definition cgroupMountRoot :: "host \<Rightarrow> string" where
  "cgroupMountRoot h = (if getenv h ''CGROUP_MOUNT_ROOT'' \<noteq> [] then getenv h ''CGROUP_MOUNT_ROOT''
     else ''/sys/fs/cgroup'')"

definition ownCgroupRelativePath :: "host \<Rightarrow> string option" where
  "ownCgroupRelativePath h = (case files h ''/proc/self/cgroup'' of
       None \<Rightarrow> None
     | Some dat \<Rightarrow> first_some (\<lambda>line. if HasPrefix line ''0::'' then Some (TrimPrefix line ''0::'') else None)
         (Split dat (CHR 0x0A)))"

definition cgroupBaseDir :: "host \<Rightarrow> string option" where
  "cgroupBaseDir h = (if getenv h ''CGROUP_BASE_DIR'' \<noteq> [] then Some (getenv h ''CGROUP_BASE_DIR'')
     else map_option (\<lambda>own. path_Join [cgroupMountRoot h, own, ''ow-activations'']) (ownCgroupRelativePath h))"

text \<open>The two flags say whether creating the base directory and the activation's own
  directory succeeds.\<close>

definition newCgroupHandle :: "host \<Rightarrow> bool \<Rightarrow> bool \<Rightarrow> string \<Rightarrow> string option" where
  "newCgroupHandle h mkdirAll mkdir name = (case cgroupBaseDir h of
       None \<Rightarrow> None
     | Some base \<Rightarrow> if \<not> mkdirAll then None
         else if \<not> mkdir then None else Some (path_Join [base, name]))"

definition event_line :: "string \<Rightarrow> string \<Rightarrow> string option" where
  "event_line field line = (case Fields line of [k, v] \<Rightarrow> if k = field then Some v else None | _ \<Rightarrow> None)"

definition readEventField :: "string option \<Rightarrow> string \<Rightarrow> cg_error + string" where
  "readEventField dat field = (case dat of
       None \<Rightarrow> Inl EReadEvents
     | Some d \<Rightarrow> (case first_some (event_line field) (Split d (CHR 0x0A)) of
           Some v \<Rightarrow> Inr v | None \<Rightarrow> Inl (EFieldMissing field)))"

record cg_io =
  io_write :: bool
  io_start :: int
  io_polls :: "(string option \<times> int) list"

text \<open>\<open>None\<close>: still polling; \<open>Some None\<close>: the nil error.\<close>

fun poll_events :: "string \<Rightarrow> string \<Rightarrow> int \<Rightarrow> (string option \<times> int) list \<Rightarrow> cg_error option option" where
  "poll_events field want deadline [] = None"
| "poll_events field want deadline ((dat, t) # polls) = (case readEventField dat field of
       Inl e \<Rightarrow> Some (Some e)
     | Inr got \<Rightarrow>
         if got = want then Some None
         else if deadline < t then Some (Some (ETimedOut field want got))
         else poll_events field want deadline polls)"

definition waitForEventField :: "string \<Rightarrow> string \<Rightarrow> int \<Rightarrow> cg_io \<Rightarrow> cg_error option option" where
  "waitForEventField field want timeout io = poll_events field want (io_start io + timeout) (io_polls io)"

definition cgroup_freeze :: "host \<Rightarrow> cg_io \<Rightarrow> cg_error option option" where
  "cgroup_freeze h io = (if \<not> io_write io then Some (Some (EWrite ''cgroup.freeze''))
     else waitForEventField ''frozen'' ''1'' (cgroupTimeout h ''CGROUP_FREEZE_TIMEOUT_MS'' 2000) io)"

definition cgroup_unfreeze :: "host \<Rightarrow> cg_io \<Rightarrow> cg_error option option" where
  "cgroup_unfreeze h io = (if \<not> io_write io then Some (Some (EWrite ''cgroup.freeze''))
     else waitForEventField ''frozen'' ''0'' (cgroupTimeout h ''CGROUP_RESUME_TIMEOUT_MS'' 2000) io)"

definition cgroup_kill :: "host \<Rightarrow> cg_io \<Rightarrow> cg_error option option" where
  "cgroup_kill h io = (if \<not> io_write io then Some (Some (EWrite ''cgroup.kill''))
     else waitForEventField ''populated'' ''0'' (cgroupTimeout h ''CGROUP_KILL_TIMEOUT_MS'' 2000) io)"

section \<open>The activation controller\<close>

text \<open>
  \<open>waitOnce\<close> caches the result of the one call of \<^verbatim>\<open>cmd.Wait()\<close>; \<open>None\<close> means
  that it has not returned yet. The second argument is what that call returns, \<open>None\<close> if it
  never does.
\<close>

type_synonym exit_error = "string option"
type_synonym waitOnce = "exit_error option"

definition waitOnce_wait :: "waitOnce \<Rightarrow> exit_error option \<Rightarrow> (exit_error \<times> waitOnce) option" where
  "waitOnce_wait w waited = (case w of
       Some err \<Rightarrow> Some (err, w)
     | None \<Rightarrow> map_option (\<lambda>err. (err, Some err)) waited)"

record ActivationController =
  acPath :: string
  acCmd :: "int option"
  acState :: RuntimeState
  acWaiter :: waitOnce
  lastPauseID :: string

definition NewActivationController :: "host \<Rightarrow> bool \<Rightarrow> bool \<Rightarrow> string \<Rightarrow> ActivationController option" where
  "NewActivationController h mkdirAll mkdir name = map_option
     (\<lambda>path. \<lparr>acPath = path, acCmd = None, acState = StateRunning, acWaiter = None, lastPauseID = []\<rparr>)
     (newCgroupHandle h mkdirAll mkdir name)"

text \<open>Starting needs the directory to open and the process to start (\<open>Some\<close> its PID).
  The flag of the result is whether an error is returned.\<close>

definition ac_Start :: "bool \<Rightarrow> int option \<Rightarrow> ActivationController \<Rightarrow> bool \<times> ActivationController" where
  "ac_Start opened started a =
     (if \<not> opened then (True, a)
      else case started of
        None \<Rightarrow> (True, a)
      | Some pid \<Rightarrow> (False, a\<lparr>acCmd := Some pid, acState := StateRunning\<rparr>))"

definition ac_Pid :: "ActivationController \<Rightarrow> int" where
  "ac_Pid a = (case acCmd a of None \<Rightarrow> 0 | Some pid \<Rightarrow> pid)"

definition ac_State :: "ActivationController \<Rightarrow> RuntimeState" where
  "ac_State a = acState a"

definition ac_CgroupPath :: "ActivationController \<Rightarrow> string" where
  [simp]: "ac_CgroupPath a = acPath a"

datatype cg_effect = CgWrite string string | SafetyKillConfirmTimeout int | CgRemove string

text \<open>Removing the directory is tried; whether it works only reaches a log line of the caller.\<close>

definition cg_remove :: "string \<Rightarrow> cg_effect list" where
  "cg_remove path = [CgRemove path]"

definition ac_Close :: "ActivationController \<Rightarrow> cg_effect list" where
  "ac_Close a = cg_remove (acPath a)"

type_synonym ac_result = "(TransitionError option \<times> cg_effect list \<times> ActivationController) option"

definition freezeExecution :: "host \<Rightarrow> string \<Rightarrow> cg_io \<Rightarrow> ActivationController \<Rightarrow> ac_result" where
  "freezeExecution h pauseID io a =
     (if acState a = StateFrozen \<and> lastPauseID a = pauseID then Some (None, [], a)
      else if acState a \<noteq> StateRunning
      then Some (Some (newTransitionError ''freeze'' (acState a) pauseID NeedsRunning), [], a)
      else case cgroup_freeze h io of
        None \<Rightarrow> None
      | Some (Some err) \<Rightarrow>
          Some (Some (newTransitionError ''freeze'' StateFreezing pauseID (CgroupFailed err)),
                [CgWrite ''cgroup.freeze'' ''1''], a\<lparr>acState := StateUnknown\<rparr>)
      | Some None \<Rightarrow>
          Some (None, [CgWrite ''cgroup.freeze'' ''1''],
                a\<lparr>acState := StateFrozen, lastPauseID := pauseID\<rparr>))"

definition resumeExecution :: "host \<Rightarrow> string \<Rightarrow> cg_io \<Rightarrow> ActivationController \<Rightarrow> ac_result" where
  "resumeExecution h pauseID io a =
     (if acState a = StateRunning \<and> lastPauseID a = pauseID then Some (None, [], a)
      else if acState a \<noteq> StateFrozen
      then Some (Some (newTransitionError ''resume'' (acState a) pauseID NeedsFrozen), [], a)
      else if pauseID \<noteq> lastPauseID a
      then Some (Some (newTransitionError ''resume'' (acState a) pauseID (PauseIDMismatch (lastPauseID a))), [], a)
      else case cgroup_unfreeze h io of
        None \<Rightarrow> None
      | Some (Some err) \<Rightarrow>
          Some (Some (newTransitionError ''resume'' StateResuming pauseID (CgroupFailed err)),
                [CgWrite ''cgroup.freeze'' ''0''], a\<lparr>acState := StateUnknown\<rparr>)
      | Some None \<Rightarrow>
          Some (None, [CgWrite ''cgroup.freeze'' ''0''],
                a\<lparr>acState := StateRunning, lastPauseID := pauseID\<rparr>))"

definition killConfirmWaitTimeout :: "host \<Rightarrow> int" where
  "killConfirmWaitTimeout h = millis (env_int (\<lambda>parsed. 0 \<le> parsed) h ''KILL_CONFIRM_WAIT_TIMEOUT_MS'' 0)"

text \<open>The reaping of the process after the kill: how long \<^verbatim>\<open>cmd.Wait()\<close> still takes and
  what it returns, or \<open>None\<close> if it never returns. A result already cached is available at
  once.\<close>

type_synonym reap = "(int \<times> exit_error) option"

definition reaped_within :: "int \<Rightarrow> waitOnce \<Rightarrow> reap \<Rightarrow> bool" where
  "reaped_within budget w r \<longleftrightarrow> w \<noteq> None \<or> (case r of None \<Rightarrow> False | Some (d, _) \<Rightarrow> d \<le> budget)"

definition ac_stopped :: "string \<Rightarrow> waitOnce \<Rightarrow> ActivationController \<Rightarrow> ActivationController" where
  "ac_stopped pauseID w a = a\<lparr>acState := StateStopped, acWaiter := w, lastPauseID := pauseID\<rparr>"

definition killExecution :: "host \<Rightarrow> string \<Rightarrow> cg_io \<times> reap \<Rightarrow> ActivationController \<Rightarrow> ac_result" where
  "killExecution h pauseID io_reap a =
     (if acState a = StateStopped then Some (None, [], a)
      else if acState a \<noteq> StateRunning \<and> acState a \<noteq> StateFrozen
      then Some (Some (newTransitionError ''kill'' (acState a) pauseID NeedsRunningOrFrozen), [], a)
      else case cgroup_kill h (fst io_reap) of
        None \<Rightarrow> None
      | Some (Some err) \<Rightarrow>
          Some (Some (newTransitionError ''kill'' StateKilling pauseID (CgroupFailed err)),
                [CgWrite ''cgroup.kill'' ''1''], a\<lparr>acState := StateUnknown\<rparr>)
      | Some None \<Rightarrow>
          if acCmd a = None
          then Some (None, [CgWrite ''cgroup.kill'' ''1''], ac_stopped pauseID (acWaiter a) a)
          else (let budget = killConfirmWaitTimeout h;
                    waited = waitOnce_wait (acWaiter a) (map_option snd (snd io_reap))
            in if 0 < budget then
                 (if reaped_within budget (acWaiter a) (snd io_reap)
                  then Some (None, [CgWrite ''cgroup.kill'' ''1''],
                             ac_stopped pauseID (case waited of Some (_, w) \<Rightarrow> w | None \<Rightarrow> None) a)
                  else Some (None, [CgWrite ''cgroup.kill'' ''1'', SafetyKillConfirmTimeout budget],
                             ac_stopped pauseID (acWaiter a) a))
               else (case waited of
                   None \<Rightarrow> None
                 | Some (_, w) \<Rightarrow> Some (None, [CgWrite ''cgroup.kill'' ''1''], ac_stopped pauseID w a))))"

definition WaitForExit :: "exit_error option \<Rightarrow> ActivationController \<Rightarrow> ((string + exit_error) \<times> ActivationController) option" where
  "WaitForExit waited a = (case acCmd a of
       None \<Rightarrow> Some (Inl ''WaitForExit: no process started'', a)
     | Some _ \<Rightarrow> map_option (\<lambda>(err, w). (Inr err, a\<lparr>acWaiter := w\<rparr>)) (waitOnce_wait (acWaiter a) waited))"


section \<open>The state machine\<close>

text \<open>One completed operation of a controller. The mutex is held throughout an operation, so
  these are the steps other threads can tell apart.\<close>

inductive ac_step :: "host \<Rightarrow> ActivationController \<Rightarrow> ActivationController \<Rightarrow> bool" for h where
  freeze: "freezeExecution h p io a = Some (err, fx, b) \<Longrightarrow> ac_step h a b"
| resume: "resumeExecution h p io a = Some (err, fx, b) \<Longrightarrow> ac_step h a b"
| kill: "killExecution h p ior a = Some (err, fx, b) \<Longrightarrow> ac_step h a b"

inductive_cases ac_stepE: "ac_step h a b"

definition legal_transition :: "RuntimeState \<Rightarrow> RuntimeState \<Rightarrow> bool" where
  "legal_transition s t \<longleftrightarrow> s = t \<or> (s, t) \<in>
     {(StateRunning, StateFrozen), (StateFrozen, StateRunning),
      (StateRunning, StateStopped), (StateFrozen, StateStopped),
      (StateRunning, StateUnknown), (StateFrozen, StateUnknown)}"

definition settled :: "ActivationController \<Rightarrow> bool" where
  "settled a \<longleftrightarrow> acState a \<in> {StateRunning, StateFrozen, StateStopped, StateUnknown}"

text \<open>The outcome of a completed operation, by cases.\<close>

lemma freezeExecution_cases:
  assumes "freezeExecution h p io a = Some (err, fx, b)"
  obtains (repeat) "acState a = StateFrozen" "lastPauseID a = p" "err = None" "fx = []" "b = a"
  | (refused) r where "err = Some (newTransitionError ''freeze'' (acState a) p r)" "fx = []" "b = a" "acState a \<noteq> StateRunning"
  | (failed) e where "acState a = StateRunning" "cgroup_freeze h io = Some (Some e)" "err = Some (newTransitionError ''freeze'' StateFreezing p (CgroupFailed e))"
      "fx = [CgWrite ''cgroup.freeze'' ''1'']" "b = a\<lparr>acState := StateUnknown\<rparr>"
  | (success) "acState a = StateRunning" "cgroup_freeze h io = Some None" "err = None"
      "fx = [CgWrite ''cgroup.freeze'' ''1'']" "b = a\<lparr>acState := StateFrozen, lastPauseID := p\<rparr>"
proof -
  consider "acState a = StateFrozen \<and> lastPauseID a = p"
    | "\<not> (acState a = StateFrozen \<and> lastPauseID a = p)" "acState a \<noteq> StateRunning"
    | e where "acState a = StateRunning" "cgroup_freeze h io = Some (Some e)"
    | "acState a = StateRunning" "cgroup_freeze h io = Some None"
    | "acState a = StateRunning" "cgroup_freeze h io = None"
    by (metis not_Some_eq)
  then show ?thesis
  proof cases
    case 1 with assms show ?thesis by (intro repeat) (simp_all add: freezeExecution_def)
  next
    case 2 with assms show ?thesis by (intro refused[of NeedsRunning]) (auto simp: freezeExecution_def)
  next
    case 3 with assms show ?thesis by (intro failed) (auto simp: freezeExecution_def)
  next
    case 4 with assms show ?thesis by (intro success) (simp_all add: freezeExecution_def)
  qed (use assms in \<open>simp add: freezeExecution_def\<close>)
qed

lemma resumeExecution_cases:
  assumes "resumeExecution h p io a = Some (err, fx, b)"
  obtains (repeat) "acState a = StateRunning" "lastPauseID a = p" "err = None" "fx = []" "b = a"
  | (refused) r where "err = Some (newTransitionError ''resume'' (acState a) p r)" "fx = []" "b = a"
      "acState a \<noteq> StateFrozen \<or> lastPauseID a \<noteq> p"
  | (failed) e where "acState a = StateFrozen" "lastPauseID a = p" "cgroup_unfreeze h io = Some (Some e)"
      "err = Some (newTransitionError ''resume'' StateResuming p (CgroupFailed e))"
      "fx = [CgWrite ''cgroup.freeze'' ''0'']" "b = a\<lparr>acState := StateUnknown\<rparr>"
  | (success) "acState a = StateFrozen" "lastPauseID a = p" "cgroup_unfreeze h io = Some None" "err = None"
      "fx = [CgWrite ''cgroup.freeze'' ''0'']" "b = a\<lparr>acState := StateRunning, lastPauseID := p\<rparr>"
proof -
  consider "acState a = StateRunning \<and> lastPauseID a = p"
    | "\<not> (acState a = StateRunning \<and> lastPauseID a = p)" "acState a \<noteq> StateFrozen"
    | "acState a = StateFrozen" "lastPauseID a \<noteq> p"
    | e where "acState a = StateFrozen" "lastPauseID a = p" "cgroup_unfreeze h io = Some (Some e)"
    | "acState a = StateFrozen" "lastPauseID a = p" "cgroup_unfreeze h io = Some None"
    | "acState a = StateFrozen" "lastPauseID a = p" "cgroup_unfreeze h io = None"
    by (metis not_Some_eq)
  then show ?thesis
  proof cases
    case 1 with assms show ?thesis by (intro repeat) (simp_all add: resumeExecution_def)
  next
    case 2 with assms show ?thesis by (intro refused[of NeedsFrozen]) (auto simp: resumeExecution_def)
  next
    case 3 with assms show ?thesis
      by (intro refused[of "PauseIDMismatch (lastPauseID a)"]) (auto simp: resumeExecution_def)
  next
    case 4 with assms show ?thesis by (intro failed) (auto simp: resumeExecution_def)
  next
    case 5 with assms show ?thesis by (intro success) (simp_all add: resumeExecution_def)
  qed (use assms in \<open>simp add: resumeExecution_def\<close>)
qed

lemma killExecution_cases:
  assumes "killExecution h p ior a = Some (err, fx, b)"
  obtains (repeat) "acState a = StateStopped" "err = None" "fx = []" "b = a"
  | (refused) r where "err = Some (newTransitionError ''kill'' (acState a) p r)" "fx = []" "b = a"
      "acState a \<noteq> StateRunning" "acState a \<noteq> StateFrozen" "acState a \<noteq> StateStopped"
  | (failed) e where "acState a \<in> {StateRunning, StateFrozen}" "cgroup_kill h (fst ior) = Some (Some e)"
      "err = Some (newTransitionError ''kill'' StateKilling p (CgroupFailed e))"
      "fx = [CgWrite ''cgroup.kill'' ''1'']" "b = a\<lparr>acState := StateUnknown\<rparr>"
  | (success) w where "acState a \<in> {StateRunning, StateFrozen}" "cgroup_kill h (fst ior) = Some None" "err = None"
      "hd fx = CgWrite ''cgroup.kill'' ''1''" "b = ac_stopped p w a"
proof -
  consider "acState a = StateStopped"
    | "acState a \<noteq> StateStopped" "acState a \<noteq> StateRunning" "acState a \<noteq> StateFrozen"
    | e where "acState a \<in> {StateRunning, StateFrozen}" "cgroup_kill h (fst ior) = Some (Some e)"
    | "acState a \<in> {StateRunning, StateFrozen}" "cgroup_kill h (fst ior) = Some None"
    | "acState a \<in> {StateRunning, StateFrozen}" "cgroup_kill h (fst ior) = None"
    by (metis insertCI not_Some_eq)
  then show ?thesis
  proof cases
    case 1 with assms show ?thesis by (intro repeat) (simp_all add: killExecution_def)
  next
    case 2 with assms show ?thesis
      by (intro refused[of NeedsRunningOrFrozen]) (auto simp: killExecution_def)
  next
    case 3 with assms show ?thesis by (intro failed) (auto simp: killExecution_def)
  next
    case 4
    with assms have "Some (err, fx, b) = killExecution h p ior a" by simp
    with 4 have "err = None \<and> hd fx = CgWrite ''cgroup.kill'' ''1'' \<and> (\<exists>w. b = ac_stopped p w a)"
      by (auto simp: killExecution_def Let_def split: if_splits option.splits)
    with 4 success show ?thesis by blast
  qed (use assms in \<open>auto simp: killExecution_def\<close>)
qed

lemma ac_stopped_sel [simp]:
  "acState (ac_stopped p w a) = StateStopped" "lastPauseID (ac_stopped p w a) = p"
  "acCmd (ac_stopped p w a) = acCmd a" "acPath (ac_stopped p w a) = acPath a"
  by (simp_all add: ac_stopped_def)

lemma ac_step_legal: "ac_step h a b \<Longrightarrow> legal_transition (acState a) (acState b)"
proof (induction rule: ac_step.induct)
  case (freeze p io a err fx b)
  then show ?case by (cases rule: freezeExecution_cases) (auto simp: legal_transition_def)
next
  case (resume p io a err fx b)
  then show ?case by (cases rule: resumeExecution_cases) (auto simp: legal_transition_def)
next
  case (kill p ior a err fx b)
  then show ?case by (cases rule: killExecution_cases) (auto simp: legal_transition_def)
qed

lemma ac_step_same_process: "ac_step h a b \<Longrightarrow> acPath b = acPath a \<and> acCmd b = acCmd a"
proof (induction rule: ac_step.induct)
  case (freeze p io a err fx b)
  then show ?case by (cases rule: freezeExecution_cases) auto
next
  case (resume p io a err fx b)
  then show ?case by (cases rule: resumeExecution_cases) auto
next
  case (kill p ior a err fx b)
  then show ?case by (cases rule: killExecution_cases) auto
qed

lemma ac_step_settled: "ac_step h a b \<Longrightarrow> settled a \<Longrightarrow> settled b"
  using ac_step_legal[of h a b] by (auto simp: settled_def legal_transition_def)

lemma ac_step_terminal: "ac_step h a b \<Longrightarrow> acState a \<in> {StateStopped, StateUnknown} \<Longrightarrow> b = a"
proof (induction rule: ac_step.induct)
  case (freeze p io a err fx b)
  from this(1) show ?case by (cases rule: freezeExecution_cases) (use freeze(2) in auto)
next
  case (resume p io a err fx b)
  from this(1) show ?case by (cases rule: resumeExecution_cases) (use resume(2) in auto)
next
  case (kill p ior a err fx b)
  from this(1) show ?case by (cases rule: killExecution_cases) (use kill(2) in auto)
qed

lemma ac_reach_settled: "(ac_step h)\<^sup>*\<^sup>* a b \<Longrightarrow> settled a \<Longrightarrow> settled b"
  by (induction rule: rtranclp_induct) (auto intro: ac_step_settled)

lemma ac_reach_terminal:
  "(ac_step h)\<^sup>*\<^sup>* a b \<Longrightarrow> acState a \<in> {StateStopped, StateUnknown} \<Longrightarrow> b = a"
  by (induction rule: rtranclp_induct) (auto dest: ac_step_terminal)

lemma ac_reach_same_process: "(ac_step h)\<^sup>*\<^sup>* a b \<Longrightarrow> acPath b = acPath a \<and> acCmd b = acCmd a"
  by (induction rule: rtranclp_induct) (auto dest: ac_step_same_process)

section \<open>Polling\<close>

lemma poll_events_confirmed:
  "poll_events field want deadline polls = Some None \<Longrightarrow>
     \<exists>dat t. (dat, t) \<in> set polls \<and> readEventField dat field = Inr want"
proof (induction polls)
  case (Cons p polls)
  obtain dat t where "p = (dat, t)" by fastforce
  with Cons show ?case by (auto split: sum.splits if_splits)
qed simp

definition read_back :: "string \<Rightarrow> string \<Rightarrow> cg_io \<Rightarrow> bool" where
  "read_back field v io \<longleftrightarrow> list_ex (\<lambda>(dat, t). readEventField dat field = Inr v) (io_polls io)"

lemma cgroup_confirmed:
  "cgroup_freeze h io = Some None \<Longrightarrow> read_back ''frozen'' ''1'' io"
  "cgroup_unfreeze h io = Some None \<Longrightarrow> read_back ''frozen'' ''0'' io"
  "cgroup_kill h io = Some None \<Longrightarrow> read_back ''populated'' ''0'' io"
  by (auto simp: cgroup_freeze_def cgroup_unfreeze_def cgroup_kill_def waitForEventField_def
        read_back_def list_ex_iff dest!: poll_events_confirmed split: if_splits)

text \<open>The clock advances at least five milliseconds between two polls.\<close>

fun paced :: "int \<Rightarrow> (string option \<times> int) list \<Rightarrow> bool" where
  "paced t [] = True"
| "paced t ((_, t') # polls) = (t \<le> t' \<and> paced (t' + 5000000) polls)"

lemma poll_events_bounded:
  "paced t polls \<Longrightarrow> deadline < t + int (length polls - 1) * 5000000 \<Longrightarrow> polls \<noteq> [] \<Longrightarrow>
     poll_events field want deadline polls \<noteq> None"
proof (induction polls arbitrary: t)
  case (Cons p polls)
  obtain dat t' where p: "p = (dat, t')" by fastforce
  have "poll_events field want deadline polls \<noteq> None" if "\<not> deadline < t'"
  proof (cases polls)
    case Nil
    with Cons.prems p that show ?thesis by simp
  next
    case (Cons q qs)
    with Cons.prems p have "deadline < (t' + 5000000) + int (length polls - 1) * 5000000"
      by (simp add: algebra_simps)
    with Cons.IH[of "t' + 5000000"] Cons.prems p Cons show ?thesis by simp
  qed
  then show ?case using p by (simp split: sum.split)
qed simp

section \<open>The contract of a pause controller\<close>

text \<open>
  What the energy monitor relies on. \<open>held a\<close> is the pause under which the activation is
  frozen. Freezing and resuming name a pause, and only the pause that froze an activation can
  resume it.
\<close>

locale pause_control =
  fixes freeze :: "string \<Rightarrow> 'i \<Rightarrow> 'a \<Rightarrow> ('e option \<times> 'x list \<times> 'a) option"
    and resume :: "string \<Rightarrow> 'i \<Rightarrow> 'a \<Rightarrow> ('e option \<times> 'x list \<times> 'a) option"
    and kill :: "string \<Rightarrow> 'k \<Rightarrow> 'a \<Rightarrow> ('e option \<times> 'x list \<times> 'a) option"
    and running :: "'a \<Rightarrow> bool" and stopped :: "'a \<Rightarrow> bool" and held :: "'a \<Rightarrow> string option"
  assumes held_not_running: "held a = Some p \<Longrightarrow> \<not> running a \<and> \<not> stopped a"
    and freeze_holds: "freeze p i a = Some (None, fx, b) \<Longrightarrow> held b = Some p"
    and resume_own: "held a = Some p \<Longrightarrow> resume p i a = Some (None, fx, b) \<Longrightarrow> running b"
    and resume_foreign: "held a = Some p \<Longrightarrow> q \<noteq> p \<Longrightarrow> \<exists>e. resume q i a = Some (Some e, [], a)"
    and kill_stops: "kill p k a = Some (None, fx, b) \<Longrightarrow> stopped b"
    and stopped_final: "stopped a \<Longrightarrow> resume p i a = Some (err, fx, b) \<Longrightarrow> stopped b"
begin

definition try_resume :: "string \<times> 'i \<Rightarrow> 'a \<Rightarrow> 'a" where
  "try_resume c a = (case resume (fst c) (snd c) a of Some (_, _, b) \<Rightarrow> b | None \<Rightarrow> a)"

lemma foreign_resumes_ignored:
  "held a = Some p \<Longrightarrow> (\<forall>c \<in> set cs. fst c \<noteq> p) \<Longrightarrow> fold try_resume cs a = a"
proof (induction cs)
  case (Cons c cs)
  then obtain e where "resume (fst c) (snd c) a = Some (Some e, [], a)"
    using resume_foreign by (metis list.set_intros(1))
  with Cons show ?case by (simp add: try_resume_def)
qed simp

lemma pause_then_resume:
  assumes "freeze p i a = Some (None, fx, b)" "\<forall>c \<in> set cs. fst c \<noteq> p"
    and "resume p j (fold try_resume cs b) = Some (None, fx', d)"
  shows "\<not> running b \<and> running d"
proof -
  have b: "held b = Some p" using freeze_holds[OF assms(1)] .
  with foreign_resumes_ignored[OF b assms(2)] assms(3) show ?thesis
    using held_not_running resume_own by auto
qed

lemma kill_is_final:
  assumes "kill p k a = Some (None, fx, b)"
  shows "stopped (fold try_resume cs b)"
proof -
  have "stopped x \<Longrightarrow> stopped (fold try_resume cs x)" for x
    by (induction cs arbitrary: x) (auto simp: try_resume_def stopped_final split: option.splits)
  then show ?thesis using kill_stops[OF assms] by blast
qed

end

definition ac_running :: "ActivationController \<Rightarrow> bool" where
  "ac_running a \<longleftrightarrow> acState a = StateRunning"

definition ac_is_stopped :: "ActivationController \<Rightarrow> bool" where
  "ac_is_stopped a \<longleftrightarrow> acState a = StateStopped"

definition ac_held :: "ActivationController \<Rightarrow> string option" where
  "ac_held a = (if acState a = StateFrozen then Some (lastPauseID a) else None)"

interpretation ctl: pause_control "freezeExecution h" "resumeExecution h" "killExecution h"
  ac_running ac_is_stopped ac_held for h
proof unfold_locales
  fix p i a fx b assume "freezeExecution h p i a = Some (None, fx, b)"
  then show "ac_held b = Some p" by (cases rule: freezeExecution_cases) (auto simp: ac_held_def)
next
  fix p k a fx b assume "killExecution h p k a = Some (None, fx, b)"
  then show "ac_is_stopped b" by (cases rule: killExecution_cases) (auto simp: ac_is_stopped_def)
next
  fix a p i err fx b assume "ac_is_stopped a" "resumeExecution h p i a = Some (err, fx, b)"
  then show "ac_is_stopped b"
    using ac_step_terminal[OF ac_step.resume, of h p i a err fx b] by (simp add: ac_is_stopped_def)
next
  fix a p i fx b assume "ac_held a = Some p" "resumeExecution h p i a = Some (None, fx, b)"
  then show "ac_running b"
    by (auto simp: ac_held_def ac_running_def elim!: resumeExecution_cases split: if_splits)
next
  fix a p q i assume "ac_held a = Some p" "q \<noteq> p"
  then show "\<exists>e. resumeExecution h q i a = Some (Some e, [], a)"
    by (auto simp: ac_held_def resumeExecution_def split: if_splits)
qed (auto simp: ac_held_def ac_running_def ac_is_stopped_def split: if_splits)


section \<open>Properties of the controller\<close>

text \<open>C7: from a started activation, every sequence of freezes, resumes and kills keeps the
  state machine within its documented transitions: an intermediate state is never left behind,
  the cgroup and the process stay the same ones, and each operation moves along RUNNING to FROZEN, back, to STOPPED, or
  to UNKNOWN, and nowhere else.\<close>

theorem runtime_state_machine:
  assumes "NewActivationController h mkAll mk name = Some a" "ac_Start True (Some pid) a = (err, b)"
    and "(ac_step h)\<^sup>*\<^sup>* b d" "ac_step h d d'"
  shows "settled d \<and> settled d' \<and> legal_transition (acState d) (acState d')
       \<and> acPath d' = acPath a \<and> acCmd d' = Some pid"
proof -
  have b: "settled b" "acPath b = acPath a" "acCmd b = Some pid"
    using assms(2) by (auto simp: ac_Start_def settled_def)
  have d: "settled d" using ac_reach_settled[OF assms(3) b(1)] .
  moreover have "settled d'" using ac_step_settled[OF assms(4) d] .
  ultimately show ?thesis
    using b ac_step_legal[OF assms(4)] ac_reach_same_process[OF assms(3)] ac_step_same_process[OF assms(4)] by simp
qed

text \<open>A stopped activation stays stopped, and an activation whose state was lost (UNKNOWN)
  never leaves that state either: no sequence of freezes, resumes and kills changes anything in
  the controller of such an activation.\<close>

theorem terminal_states_absorb:
  assumes "(ac_step h)\<^sup>*\<^sup>* a b" "acState a \<in> {StateStopped, StateUnknown}"
  shows "b = a"
  using ac_reach_terminal[OF assms] .

text \<open>C22: a freeze (a resume, a kill) that reports success has either found the work already done
  under this very pause (for a kill: the activation already stopped), without touching the
  cgroup, or written the control file and then read the effective state back from the kernel.\<close>

theorem effective_state_confirmed:
  "(freezeExecution h p io a = Some (None, fx, b) \<longrightarrow>
      acState b = StateFrozen \<and> lastPauseID b = p \<and>
      (b = a \<and> fx = [] \<or> fx = [CgWrite ''cgroup.freeze'' ''1''] \<and> read_back ''frozen'' ''1'' io)) \<and>
   (resumeExecution h p io a = Some (None, fx, b) \<longrightarrow>
      acState b = StateRunning \<and> lastPauseID b = p \<and>
      (b = a \<and> fx = [] \<or> fx = [CgWrite ''cgroup.freeze'' ''0''] \<and> read_back ''frozen'' ''0'' io)) \<and>
   (killExecution h p (io, r) a = Some (None, fx, b) \<longrightarrow>
      acState b = StateStopped \<and>
      (b = a \<and> fx = [] \<or> hd fx = CgWrite ''cgroup.kill'' ''1'' \<and> read_back ''populated'' ''0'' io))"
  by (intro conjI impI; (erule freezeExecution_cases resumeExecution_cases killExecution_cases)?)
     (auto dest: cgroup_confirmed)

text \<open>An operation that reports an error has either refused, leaving the controller and the
  cgroup untouched, or lost track of the cgroup: the controller is then UNKNOWN.\<close>

theorem transition_errors:
  assumes "freezeExecution h p io a = Some (Some e, fx, b) \<or> resumeExecution h p io a = Some (Some e, fx, b)
      \<or> killExecution h p ior a = Some (Some e, fx, b)"
  shows "b = a \<and> fx = [] \<and> FromState e = acState a
       \<or> b = a\<lparr>acState := StateUnknown\<rparr> \<and> length fx = 1 \<and> (\<exists>c. Reason e = CgroupFailed c)"
  using assms
proof (elim disjE)
  assume "freezeExecution h p io a = Some (Some e, fx, b)"
  then show ?thesis by (cases rule: freezeExecution_cases) (auto simp: newTransitionError_def)
next
  assume "resumeExecution h p io a = Some (Some e, fx, b)"
  then show ?thesis by (cases rule: resumeExecution_cases) (auto simp: newTransitionError_def)
next
  assume "killExecution h p ior a = Some (Some e, fx, b)"
  then show ?thesis by (cases rule: killExecution_cases) (auto simp: newTransitionError_def)
qed

text \<open>C23: between a freeze and its resume, commands that name another pause change nothing, and
  the resume that names the right one sets the activation running again. After a kill, by whatever pause it was asked for, no
  sequence of resumes sets it running, those that name the pause it was frozen or killed under included.\<close>

theorem only_own_pause_resumes:
  assumes "freezeExecution h p i a = Some (None, fx, b)" "\<forall>c \<in> set cs. fst c \<noteq> p"
  shows "ac_held b = Some p \<and> fold (ctl.try_resume h) cs b = b
       \<and> (resumeExecution h p j b = Some (None, fx', d) \<longrightarrow> ac_running d)
       \<and> (killExecution h q k b = Some (None, fx'', d') \<longrightarrow> ac_is_stopped (fold (ctl.try_resume h) ds d'))"
proof -
  have b: "ac_held b = Some p" using ctl.freeze_holds[OF assms(1)] .
  then show ?thesis
    using ctl.foreign_resumes_ignored[OF b assms(2)] ctl.resume_own[OF b] ctl.kill_is_final by blast
qed

text \<open>C38: polling \<^verbatim>\<open>cgroup.events\<close> ends. With a clock that advances by the five
  milliseconds the loop sleeps, a wait has returned, with success or an error, after at most
  its timeout divided by five milliseconds plus two polls, whatever the kernel answers.\<close>

theorem polling_terminates:
  assumes "paced (io_start io) (io_polls io)" "0 \<le> timeout"
    and "nat (timeout div 5000000) + 2 \<le> length (io_polls io)"
  shows "\<exists>r. waitForEventField field want timeout io = Some r"
proof -
  have "int (nat (timeout div 5000000)) = timeout div 5000000"
    using assms(2) by (simp add: pos_imp_zdiv_nonneg_iff)
  then have "timeout div 5000000 + 1 \<le> int (length (io_polls io) - 1)"
    using assms(3) by linarith
  then have "(timeout div 5000000 + 1) * 5000000 \<le> int (length (io_polls io) - 1) * 5000000" by simp
  moreover have "timeout < (timeout div 5000000 + 1) * 5000000"
    using pos_mod_bound[of 5000000 timeout] div_mult_mod_eq[of timeout 5000000] by (simp add: algebra_simps)
  ultimately have "io_start io + timeout < io_start io + int (length (io_polls io) - 1) * 5000000" by linarith
  moreover have "io_polls io \<noteq> []" using assms(3) by auto
  ultimately show ?thesis
    using poll_events_bounded[OF assms(1)] by (auto simp: waitForEventField_def)
qed

text \<open>A confirmed kill returns exactly when it has a bound or the process is reaped. With no
  bound configured (the default) an activation whose process is never reaped blocks its
  controller for ever, although the cgroup is already empty; with a bound it is reported stopped.\<close>

theorem kill_returns_iff_bounded_or_reaped:
  assumes "acState a \<in> {StateRunning, StateFrozen}" "cgroup_kill h io = Some None"
    and "acCmd a = Some pid" "acWaiter a = None"
  shows "(\<exists>fx b. killExecution h p (io, r) a = Some (None, fx, b) \<and> acState b = StateStopped)
     \<longleftrightarrow> 0 < killConfirmWaitTimeout h \<or> r \<noteq> None"
  using assms
  by (cases r) (auto simp: killExecution_def waitOnce_wait_def Let_def split: option.splits)


section \<open>A concrete activation\<close>

definition bare_host :: host where
  "bare_host = \<lparr>getenv = (\<lambda>v. if v = ''CGROUP_BASE_DIR'' then ''/sys/fs/cgroup/ow'' else []), files = (\<lambda>_. None), now = 0\<rparr>"

definition started_controller :: ActivationController where
  "started_controller = \<lparr>acPath = ''/sys/fs/cgroup/ow/act-1'', acCmd = Some 42, acState = StateRunning, acWaiter = None, lastPauseID = []\<rparr>"

definition frozen_controller :: ActivationController where
  "frozen_controller = started_controller\<lparr>acState := StateFrozen, lastPauseID := ''p1''\<rparr>"

definition slow_freeze :: cg_io where
  "slow_freeze = \<lparr>io_write = True, io_start = 0,
     io_polls = [(Some (''populated 1'' @ CHR 0x0A # ''frozen 0''), 1000), (Some (''populated 1'' @ CHR 0x0A # ''frozen 1''), 5002000)]\<rparr>"

definition quick_kill :: cg_io where
  "quick_kill = \<lparr>io_write = True, io_start = 0, io_polls = [(Some (''populated 0'' @ CHR 0x0A # ''frozen 0''), 1000)]\<rparr>"

definition failed_write :: cg_io where
  "failed_write = \<lparr>io_write = False, io_start = 0, io_polls = []\<rparr>"

definition stuck_freeze :: "nat \<Rightarrow> cg_io" where
  "stuck_freeze n = \<lparr>io_write = True, io_start = 0,
     io_polls = map (\<lambda>i. (Some ''frozen 0'', 5000000 * int i)) [0..<n]\<rparr>"

lemma new_controller_value:
  "NewActivationController bare_host True True ''act-1'' = Some (started_controller\<lparr>acCmd := None\<rparr>)"
  by code_simp

lemma freeze_value:
  "freezeExecution bare_host ''p1'' slow_freeze started_controller =
     Some (None, [CgWrite ''cgroup.freeze'' ''1''], frozen_controller)"
  by code_simp

lemma kill_value:
  "killExecution bare_host ''p1'' (quick_kill, Some (2000, None)) frozen_controller =
     Some (None, [CgWrite ''cgroup.kill'' ''1''],
       frozen_controller\<lparr>acState := StateStopped, acWaiter := Some None\<rparr>)"
  by code_simp

theorem runtime_state_machine_witness:
  "(ac_step bare_host)\<^sup>*\<^sup>* started_controller frozen_controller \<and> settled frozen_controller
   \<and> legal_transition StateFrozen StateStopped"
proof -
  have 1: "(ac_step bare_host)\<^sup>*\<^sup>* started_controller frozen_controller"
    by (rule r_into_rtranclp, rule ac_step.freeze, rule freeze_value)
  have 2: "ac_step bare_host frozen_controller (frozen_controller\<lparr>acState := StateStopped, acWaiter := Some None\<rparr>)"
    by (rule ac_step.kill, rule kill_value)
  have 3: "ac_Start True (Some 42) (started_controller\<lparr>acCmd := None\<rparr>) = (False, started_controller)"
    by (simp add: ac_Start_def started_controller_def)
  show ?thesis
    using runtime_state_machine[OF new_controller_value 3 1 2] 1
    by (simp add: frozen_controller_def)
qed

theorem terminal_states_absorb_witness:
  "resumeExecution bare_host ''p1'' quick_kill (started_controller\<lparr>acState := StateUnknown\<rparr>)
     = Some (Some (newTransitionError ''resume'' StateUnknown ''p1'' NeedsFrozen), [], started_controller\<lparr>acState := StateUnknown\<rparr>)"
proof -
  let ?a = "started_controller\<lparr>acState := StateUnknown\<rparr>"
  have v: "resumeExecution bare_host ''p1'' quick_kill ?a
     = Some (Some (newTransitionError ''resume'' StateUnknown ''p1'' NeedsFrozen), [], b) \<longleftrightarrow> b = ?a" for b
    by (auto simp: resumeExecution_def)
  have "(ac_step bare_host)\<^sup>*\<^sup>* ?a ?a" by simp
  from terminal_states_absorb[OF this] v show ?thesis by simp
qed

theorem effective_state_confirmed_witness:
  "acState frozen_controller = StateFrozen \<and> read_back ''frozen'' ''1'' slow_freeze"
  using effective_state_confirmed[of bare_host "''p1''" slow_freeze started_controller _ frozen_controller] freeze_value
  by (auto simp: frozen_controller_def started_controller_def)

theorem transition_errors_witness:
  "\<exists>e. freezeExecution bare_host ''p1'' failed_write started_controller =
     Some (Some e, [CgWrite ''cgroup.freeze'' ''1''], started_controller\<lparr>acState := StateUnknown\<rparr>)
     \<and> (\<exists>c. Reason e = CgroupFailed c)"
proof -
  obtain e where e: "freezeExecution bare_host ''p1'' failed_write started_controller =
      Some (Some e, [CgWrite ''cgroup.freeze'' ''1''], started_controller\<lparr>acState := StateUnknown\<rparr>)"
    by (simp add: freezeExecution_def cgroup_freeze_def failed_write_def started_controller_def)
  then show ?thesis
    using transition_errors[OF disjI1[OF e]] by (auto simp: started_controller_def)
qed

theorem only_own_pause_resumes_witness:
  "ac_held frozen_controller = Some ''p1'' \<and>
     fold (ctl.try_resume bare_host) [(''p0'', quick_kill), (''p2'', quick_kill)] frozen_controller = frozen_controller \<and>
     (\<exists>fx d. killExecution bare_host ''p3'' (quick_kill, Some (0, None)) frozen_controller = Some (None, fx, d) \<and>
        ac_is_stopped (fold (ctl.try_resume bare_host) [(''p1'', quick_kill), (''p3'', quick_kill)] d))"
proof -
  have "case killExecution bare_host ''p3'' (quick_kill, Some (0, None)) frozen_controller of Some (None, _) \<Rightarrow> True | _ \<Rightarrow> False"
    by code_simp
  then obtain fx d where k: "killExecution bare_host ''p3'' (quick_kill, Some (0, None)) frozen_controller = Some (None, fx, d)"
    by (auto split: option.splits)
  note t = only_own_pause_resumes[OF freeze_value, where cs = "[(''p0'', quick_kill), (''p2'', quick_kill)]" and q = "''p3''"
      and k = "(quick_kill, Some (0, None))" and ds = "[(''p1'', quick_kill), (''p3'', quick_kill)]"]
  show ?thesis using t k by simp
qed

theorem polling_terminates_witness:
  "\<exists>r. waitForEventField ''frozen'' ''1'' 10000000 (stuck_freeze 4) = Some r"
  by (rule polling_terminates) (simp_all add: stuck_freeze_def upt_rec)

theorem kill_returns_iff_bounded_or_reaped_witness:
  "killExecution bare_host ''p1'' (quick_kill, None) frozen_controller = None \<and>
   \<not> (\<exists>fx b. killExecution bare_host ''p1'' (quick_kill, None) frozen_controller = Some (None, fx, b) \<and> acState b = StateStopped)"
proof -
  have 1: "cgroup_kill bare_host quick_kill = Some None" by code_simp
  have 2: "\<not> 0 < killConfirmWaitTimeout bare_host" by code_simp
  have 3: "killExecution bare_host ''p1'' (quick_kill, None) frozen_controller = None" by code_simp
  show ?thesis
    using kill_returns_iff_bounded_or_reaped[of frozen_controller bare_host quick_kill 42 "''p1''" None] 1 2 3
    by (simp add: frozen_controller_def started_controller_def)
qed

end
