(* ===== verification/EnergyState.thy ===== *)
theory EnergyState
  imports Float64 "HOL-Library.AList" "HOL-Library.List_Lexorder" "HOL-Library.Char_ord"
begin

text \<open>
  \<^verbatim>\<open>src/openwhisk/energy_state.go\<close>: the sidecar that carries the energy state of a trace
  from one step of a sequence to the next.

  JSON is modelled at the level of values. A Go map is an association list with distinct keys;
  \<^verbatim>\<open>json.Marshal\<close> writes it in the order of its keys and fails on a number that is not
  finite; strings are valid UTF-8, as those that come out of \<^verbatim>\<open>json.Unmarshal\<close> are.
  Decoding into a struct is \<^verbatim>\<open>encoding/json\<close>'s: keys match field names up to letter case
  (with the two non-ASCII letters that fold to ASCII ones), \<^verbatim>\<open>null\<close> leaves a scalar alone,
  unknown keys are skipped, and a value of a wrong type makes the whole decoding fail.
\<close>

section \<open>JSON values\<close>

datatype json = JNull | JBool bool | JNum f64 | JStr string | JArr "json list" | JObj "(string \<times> json) list"

type_synonym params = "(string \<times> json) list"

fun json_finite :: "json \<Rightarrow> bool" where
  "json_finite (JNum x) = f_finite x"
| "json_finite (JArr xs) = list_all json_finite xs"
| "json_finite (JObj kvs) = list_all (\<lambda>kv. json_finite (snd kv)) kvs"
| "json_finite _ = True"

text \<open>Keys equal up to case under \<^verbatim>\<open>bytes.EqualFold\<close>, towards an ASCII name: the long s
  (bytes C5 BF) and the Kelvin sign (bytes E2 84 AA) are the only other characters that fold to
  ASCII letters.\<close>

definition lower :: "char \<Rightarrow> char" where
  "lower c = (if 65 \<le> (of_char c :: int) \<and> (of_char c :: int) \<le> 90 then char_of (of_char c + 32 :: int) else c)"

fun fold_key :: "string \<Rightarrow> string" where
  "fold_key (a # b # d # cs) =
     (if a = CHR 0xC5 \<and> b = CHR 0xBF then CHR ''s'' # fold_key (d # cs)
      else if a = CHR 0xE2 \<and> b = CHR 0x84 \<and> d = CHR 0xAA then CHR ''k'' # fold_key cs
      else lower a # fold_key (b # d # cs))"
| "fold_key [a, b] = (if a = CHR 0xC5 \<and> b = CHR 0xBF then ''s'' else [lower a, lower b])"
| "fold_key [a] = [lower a]"
| "fold_key [] = []"

text \<open>
  How a number reads as an int64. \<^verbatim>\<open>json.Marshal\<close> prints a float64 below 1e21 with the
  fewest digits that identify it: an integer up to 2^53 exactly, a larger one as the multiple of
  the highest power of ten that still rounds to it (the nearest such multiple). Anything with a
  fraction or an exponent is not an int64.
\<close>

definition nearest_multiple :: "int \<Rightarrow> nat \<Rightarrow> int option" where
  "nearest_multiple n e =
     (let p = 10 ^ e; lo = n div p * p; hi = lo + p;
          ok = (\<lambda>m. rnd (of_int m) = of_int n)
      in if ok lo \<and> (\<not> ok hi \<or> n - lo \<le> hi - n) then Some lo else if ok hi then Some hi else None)"

definition shortest_int :: "int \<Rightarrow> int" where
  "shortest_int n =
     (if \<bar>n\<bar> \<le> 2 ^ 53 then n
      else sgn n * (case first_some (nearest_multiple \<bar>n\<bar>) (rev [0..<19]) of Some m \<Rightarrow> m | None \<Rightarrow> \<bar>n\<bar>))"

fun json_int64 :: "json \<Rightarrow> int option" where
  "json_int64 (JNum (Fin r)) =
     (if of_int \<lfloor>r\<rfloor> = r \<and> \<bar>r\<bar> < 10 ^ 21 then
        (let n = shortest_int \<lfloor>r\<rfloor> in if in_i64 n then Some n else None)
      else None)"
| "json_int64 _ = None"

section \<open>The energy state\<close>

record EnergyState =
  TraceID :: string
  ReservationID :: string
  ExecutionPhase :: string
  ExecutionThresholdJ :: f64
  ConsumedBeforeJ :: f64
  PauseEnabled :: bool
  PauseMode :: string
  MaxPauseDurationMs :: int
  MaxPauseCount :: int
  InterruptionClass :: "(string \<times> string) list option"
  ResolvedActionName :: string

definition zero_state :: EnergyState where
  "zero_state = \<lparr>TraceID = [], ReservationID = [], ExecutionPhase = [], ExecutionThresholdJ = Fin 0,
     ConsumedBeforeJ = Fin 0, PauseEnabled = False, PauseMode = [], MaxPauseDurationMs = 0,
     MaxPauseCount = 0, InterruptionClass = None, ResolvedActionName = []\<rparr>"

definition energyStateKey :: string where
  "energyStateKey = ''__energy_state''"

definition energyParamKeys :: "(string \<times> string) list" where
  "energyParamKeys =
    [(''energy_trace_id'', ''trace_id''),
     (''energy_reservation_id'', ''reservation_id''),
     (''energy_execution_phase'', ''execution_phase''),
     (''energy_execution_threshold_j'', ''execution_threshold_j''),
     (''energy_consumed_before_j'', ''consumed_before_j''),
     (''energy_pause_enabled'', ''pause_enabled''),
     (''energy_pause_mode'', ''pause_mode''),
     (''energy_max_pause_duration_ms'', ''max_pause_duration_ms''),
     (''energy_max_pause_count'', ''max_pause_count''),
     (''energy_interruption_class'', ''interruption_class'')]"

definition firstStepAnchorKey :: string where
  "firstStepAnchorKey = ''energy_trace_id''"

text \<open>Storing one JSON value into a field: \<open>None\<close> is a type error.\<close>

definition set_str :: "(string \<Rightarrow> 's \<Rightarrow> 's) \<Rightarrow> json \<Rightarrow> 's \<Rightarrow> 's option" where
  "set_str upd j st = (case j of JNull \<Rightarrow> Some st | JStr s \<Rightarrow> Some (upd s st) | _ \<Rightarrow> None)"

definition set_num :: "(f64 \<Rightarrow> 's \<Rightarrow> 's) \<Rightarrow> json \<Rightarrow> 's \<Rightarrow> 's option" where
  "set_num upd j st = (case j of JNull \<Rightarrow> Some st | JNum x \<Rightarrow> Some (upd x st) | _ \<Rightarrow> None)"

definition set_int :: "(int \<Rightarrow> 's \<Rightarrow> 's) \<Rightarrow> json \<Rightarrow> 's \<Rightarrow> 's option" where
  "set_int upd j st = (case j of JNull \<Rightarrow> Some st | _ \<Rightarrow> map_option (\<lambda>n. upd n st) (json_int64 j))"

definition set_bool :: "(bool \<Rightarrow> 's \<Rightarrow> 's) \<Rightarrow> json \<Rightarrow> 's \<Rightarrow> 's option" where
  "set_bool upd j st = (case j of JNull \<Rightarrow> Some st | JBool b \<Rightarrow> Some (upd b st) | _ \<Rightarrow> None)"

fun class_entries :: "params \<Rightarrow> (string \<times> string) list \<Rightarrow> (string \<times> string) list option" where
  "class_entries [] m = Some m"
| "class_entries ((k, JStr s) # kvs) m = class_entries kvs (AList.update k s m)"
| "class_entries ((k, JNull) # kvs) m = class_entries kvs (AList.update k [] m)"
| "class_entries (_ # kvs) m = None"

definition set_class :: "json \<Rightarrow> EnergyState \<Rightarrow> EnergyState option" where
  "set_class j st = (case j of
       JNull \<Rightarrow> Some (st\<lparr>InterruptionClass := None\<rparr>)
     | JObj kvs \<Rightarrow> map_option (\<lambda>m. st\<lparr>InterruptionClass := Some m\<rparr>)
         (class_entries (sort_key fst kvs) (case InterruptionClass st of None \<Rightarrow> [] | Some m \<Rightarrow> m))
     | _ \<Rightarrow> None)"

definition set_field :: "string \<Rightarrow> json \<Rightarrow> EnergyState \<Rightarrow> EnergyState option" where
  "set_field key j st =
     (let f = fold_key key in
      if f = ''trace_id'' then set_str (\<lambda>s. TraceID_update (\<lambda>_. s)) j st
      else if f = ''reservation_id'' then set_str (\<lambda>s. ReservationID_update (\<lambda>_. s)) j st
      else if f = ''execution_phase'' then set_str (\<lambda>s. ExecutionPhase_update (\<lambda>_. s)) j st
      else if f = ''execution_threshold_j'' then set_num (\<lambda>x. ExecutionThresholdJ_update (\<lambda>_. x)) j st
      else if f = ''consumed_before_j'' then set_num (\<lambda>x. ConsumedBeforeJ_update (\<lambda>_. x)) j st
      else if f = ''pause_enabled'' then set_bool (\<lambda>b. PauseEnabled_update (\<lambda>_. b)) j st
      else if f = ''pause_mode'' then set_str (\<lambda>s. PauseMode_update (\<lambda>_. s)) j st
      else if f = ''max_pause_duration_ms'' then set_int (\<lambda>n. MaxPauseDurationMs_update (\<lambda>_. n)) j st
      else if f = ''max_pause_count'' then set_int (\<lambda>n. MaxPauseCount_update (\<lambda>_. n)) j st
      else if f = ''interruption_class'' then set_class j st
      else Some st)"

fun set_fields :: "params \<Rightarrow> EnergyState \<Rightarrow> EnergyState option" where
  "set_fields [] st = Some st"
| "set_fields ((k, j) # kvs) st = Option.bind (set_field k j st) (set_fields kvs)"

definition decodeEnergyStateMap :: "params \<Rightarrow> EnergyState option" where
  "decodeEnergyStateMap m =
     (if json_finite (JObj m) then set_fields (sort_key fst m) zero_state else None)"

text \<open>What is logged: nothing, that the parameters of a first step could not be decoded, or the
  safety incident of a corrupted sidecar.\<close>

datatype extract_log = LogNothing | LogParamsUndecodable | LogStateCorrupted

definition bare_params :: "params \<Rightarrow> params" where
  "bare_params params = concat (map (\<lambda>(paramKey, bareKey). case map_of params paramKey of
       Some v \<Rightarrow> [(bareKey, v)] | None \<Rightarrow> []) energyParamKeys)"

definition ExtractEnergyState :: "params \<Rightarrow> EnergyState option \<times> params \<times> extract_log" where
  "ExtractEnergyState params =
     (if map_of params firstStepAnchorKey \<noteq> None then
        (let bare = bare_params params;
             cleaned = filter (\<lambda>(k, _). k \<notin> set (map fst energyParamKeys)) params
         in case decodeEnergyStateMap bare of
              None \<Rightarrow> (None, cleaned, LogParamsUndecodable)
            | Some state \<Rightarrow> (Some state, cleaned, LogNothing))
      else case map_of params energyStateKey of
        None \<Rightarrow> (None, params, LogNothing)
      | Some raw \<Rightarrow>
          (let cleaned = filter (\<lambda>(k, _). k \<noteq> energyStateKey) params
           in case raw of
                JObj asMap \<Rightarrow> (case decodeEnergyStateMap asMap of
                    None \<Rightarrow> (None, cleaned, LogStateCorrupted)
                  | Some state \<Rightarrow> (Some state, cleaned, LogNothing))
              | _ \<Rightarrow> (None, cleaned, LogStateCorrupted)))"

definition marshal_state :: "EnergyState \<Rightarrow> json option" where
  "marshal_state st =
     (if \<not> f_finite (ExecutionThresholdJ st) \<or> \<not> f_finite (ConsumedBeforeJ st) then None
      else Some (JObj
        [(''trace_id'', JStr (TraceID st)),
         (''reservation_id'', JStr (ReservationID st)),
         (''execution_phase'', JStr (ExecutionPhase st)),
         (''execution_threshold_j'', JNum (ExecutionThresholdJ st)),
         (''consumed_before_j'', JNum (ConsumedBeforeJ st)),
         (''pause_enabled'', JBool (PauseEnabled st)),
         (''pause_mode'', JStr (PauseMode st)),
         (''max_pause_duration_ms'', JNum (f_of_int (MaxPauseDurationMs st))),
         (''max_pause_count'', JNum (f_of_int (MaxPauseCount st))),
         (''interruption_class'', case InterruptionClass st of None \<Rightarrow> JNull
            | Some m \<Rightarrow> JObj (map (\<lambda>(k, s). (k, JStr s)) m))]))"

text \<open>The flag of the result says whether an error is returned.\<close>

definition ReinjectEnergyState :: "params \<Rightarrow> EnergyState option \<Rightarrow> f64 \<Rightarrow> params \<times> bool" where
  "ReinjectEnergyState result previous measuredEnergyJ = (case previous of
       None \<Rightarrow> (result, False)
     | Some prev \<Rightarrow>
         (let updated = prev\<lparr>ConsumedBeforeJ := f_add (ConsumedBeforeJ prev) measuredEnergyJ\<rparr>
          in case marshal_state updated of
               None \<Rightarrow> (result, True)
             | Some raw \<Rightarrow> (AList.update energyStateKey raw result, False)))"


section \<open>Encoding and decoding a state\<close>

text \<open>The states a scheduler sends and a step hands on: integers a float64 carries exactly, and
  the interruption classes in the order \<^verbatim>\<open>json.Marshal\<close> writes them.\<close>

definition state_ok :: "EnergyState \<Rightarrow> bool" where
  "state_ok st \<longleftrightarrow> \<bar>MaxPauseDurationMs st\<bar> \<le> 2 ^ 53 \<and> \<bar>MaxPauseCount st\<bar> \<le> 2 ^ 53 \<and>
     (case InterruptionClass st of None \<Rightarrow> True | Some m \<Rightarrow> sorted (map fst m) \<and> distinct (map fst m))"

lemma fold_key_fields:
  "fold_key ''trace_id'' = ''trace_id''" "fold_key ''reservation_id'' = ''reservation_id''"
  "fold_key ''execution_phase'' = ''execution_phase''"
  "fold_key ''execution_threshold_j'' = ''execution_threshold_j''"
  "fold_key ''consumed_before_j'' = ''consumed_before_j''"
  "fold_key ''pause_enabled'' = ''pause_enabled''" "fold_key ''pause_mode'' = ''pause_mode''"
  "fold_key ''max_pause_duration_ms'' = ''max_pause_duration_ms''"
  "fold_key ''max_pause_count'' = ''max_pause_count''"
  "fold_key ''interruption_class'' = ''interruption_class''"
  by code_simp+

lemma sort_state_keys:
  "sort_key fst [(''trace_id'', a :: json), (''reservation_id'', b), (''execution_phase'', c), (''execution_threshold_j'', d),
     (''consumed_before_j'', e), (''pause_enabled'', f), (''pause_mode'', g), (''max_pause_duration_ms'', h),
     (''max_pause_count'', i), (''interruption_class'', j)] =
   [(''consumed_before_j'', e), (''execution_phase'', c), (''execution_threshold_j'', d), (''interruption_class'', j),
    (''max_pause_count'', i), (''max_pause_duration_ms'', h), (''pause_enabled'', f), (''pause_mode'', g),
    (''reservation_id'', b), (''trace_id'', a)]"
  by code_simp

lemma update_new: "k \<notin> fst ` set al \<Longrightarrow> AList.update k v al = al @ [(k, v)]"
  by (induction al) auto

lemma class_entries_strings:
  "distinct (map fst (acc @ m)) \<Longrightarrow> class_entries (map (\<lambda>(k, s). (k, JStr s)) m) acc = Some (acc @ m)"
proof (induction m arbitrary: acc)
  case (Cons kv m)
  obtain k v where "kv = (k, v)" by fastforce
  with Cons show ?case by (auto simp: update_new)
qed simp

lemma class_roundtrip:
  assumes "sorted (map fst m)" "distinct (map fst m)"
  shows "class_entries (sort_key fst (map (\<lambda>(k, s). (k, JStr s)) m)) [] = Some m"
proof -
  have "map fst (map (\<lambda>(k, s). (k, JStr s)) m) = map fst m" by auto
  with assms(1) have "sort_key fst (map (\<lambda>(k, s). (k, JStr s)) m) = map (\<lambda>(k, s). (k, JStr s)) m"
    by (intro sort_key_id_if_sorted) (simp only:)
  then show ?thesis using class_entries_strings[of "[]" m] assms(2) by simp
qed

lemma json_int64_exact: "\<bar>n\<bar> \<le> 2 ^ 53 \<Longrightarrow> json_int64 (JNum (f_of_int n)) = Some n"
proof -
  assume n: "\<bar>n\<bar> \<le> 2 ^ 53"
  have "\<bar>of_int n :: rat\<bar> \<le> 2 ^ 53" using n by (metis of_int_abs of_int_le_iff of_int_numeral of_int_power)
  then have "\<bar>of_int n :: rat\<bar> < 10 ^ 21" by simp
  moreover have "in_i64 n" using n by (auto simp: in_i64_def)
  ultimately show ?thesis using n by (simp add: f_of_int_exact shortest_int_def)
qed

lemma json_finite_classes: "list_all (\<lambda>kv. json_finite (snd kv)) (map (\<lambda>(k, s). (k, JStr s)) m)"
  by (auto simp: list_all_iff)

lemma f_of_int_finite: "\<bar>n\<bar> \<le> 2 ^ 53 \<Longrightarrow> f_finite (f_of_int n)"
  by (simp add: f_of_int_exact f_finite_def)

lemma set_field_values:
  "set_field ''trace_id'' (JStr x) st = Some (st\<lparr>TraceID := x\<rparr>)"
  "set_field ''reservation_id'' (JStr x) st = Some (st\<lparr>ReservationID := x\<rparr>)"
  "set_field ''execution_phase'' (JStr x) st = Some (st\<lparr>ExecutionPhase := x\<rparr>)"
  "set_field ''execution_threshold_j'' (JNum y) st = Some (st\<lparr>ExecutionThresholdJ := y\<rparr>)"
  "set_field ''consumed_before_j'' (JNum y) st = Some (st\<lparr>ConsumedBeforeJ := y\<rparr>)"
  "set_field ''pause_enabled'' (JBool b) st = Some (st\<lparr>PauseEnabled := b\<rparr>)"
  "set_field ''pause_mode'' (JStr x) st = Some (st\<lparr>PauseMode := x\<rparr>)"
  "\<bar>n\<bar> \<le> 2 ^ 53 \<Longrightarrow> set_field ''max_pause_duration_ms'' (JNum (f_of_int n)) st = Some (st\<lparr>MaxPauseDurationMs := n\<rparr>)"
  "\<bar>n\<bar> \<le> 2 ^ 53 \<Longrightarrow> set_field ''max_pause_count'' (JNum (f_of_int n)) st = Some (st\<lparr>MaxPauseCount := n\<rparr>)"
  "set_field ''interruption_class'' j st = set_class j st"
  by (simp_all only: set_field_def fold_key_fields Let_def)
     (simp_all add: set_str_def set_num_def set_bool_def set_int_def json_int64_exact)

lemma decode_marshal:
  assumes "state_ok st" "marshal_state st = Some (JObj kvs)"
  shows "decodeEnergyStateMap kvs = Some (st\<lparr>ResolvedActionName := []\<rparr>)"
proof -
  let ?c = "case InterruptionClass st of None \<Rightarrow> JNull | Some m \<Rightarrow> JObj (map (\<lambda>(k, s). (k, JStr s)) m)"
  have fin: "f_finite (ExecutionThresholdJ st)" "f_finite (ConsumedBeforeJ st)"
    and kvs: "kvs = [(''trace_id'', JStr (TraceID st)), (''reservation_id'', JStr (ReservationID st)),
         (''execution_phase'', JStr (ExecutionPhase st)), (''execution_threshold_j'', JNum (ExecutionThresholdJ st)),
         (''consumed_before_j'', JNum (ConsumedBeforeJ st)), (''pause_enabled'', JBool (PauseEnabled st)),
         (''pause_mode'', JStr (PauseMode st)), (''max_pause_duration_ms'', JNum (f_of_int (MaxPauseDurationMs st))),
         (''max_pause_count'', JNum (f_of_int (MaxPauseCount st))), (''interruption_class'', ?c)]"
    using assms(2) by (auto simp: marshal_state_def split: if_splits)
  have num: "\<bar>MaxPauseDurationMs st\<bar> \<le> 2 ^ 53" "\<bar>MaxPauseCount st\<bar> \<le> 2 ^ 53"
    using assms(1) by (auto simp: state_ok_def)
  have jf: "json_finite (JObj kvs)"
    using fin num by (simp add: kvs f_of_int_finite json_finite_classes split: option.split)
  have cls: "set_class ?c s = Some (s\<lparr>InterruptionClass := InterruptionClass st\<rparr>)" if "InterruptionClass s = None" for s
    using assms(1) that by (auto simp: set_class_def state_ok_def class_roundtrip split: option.splits)
  have srt: "sort_key fst kvs = [(''consumed_before_j'', JNum (ConsumedBeforeJ st)), (''execution_phase'', JStr (ExecutionPhase st)),
      (''execution_threshold_j'', JNum (ExecutionThresholdJ st)), (''interruption_class'', ?c),
      (''max_pause_count'', JNum (f_of_int (MaxPauseCount st))), (''max_pause_duration_ms'', JNum (f_of_int (MaxPauseDurationMs st))),
      (''pause_enabled'', JBool (PauseEnabled st)), (''pause_mode'', JStr (PauseMode st)),
      (''reservation_id'', JStr (ReservationID st)), (''trace_id'', JStr (TraceID st))]"
    unfolding kvs by (rule sort_state_keys)
  have "set_fields (sort_key fst kvs) zero_state = Some (st\<lparr>ResolvedActionName := []\<rparr>)"
    unfolding srt using num by (simp add: set_field_values cls zero_state_def)
  with jf show ?thesis by (simp add: decodeEnergyStateMap_def)
qed


section \<open>The trace of a first step\<close>

definition table_params :: "(string \<times> string) list \<Rightarrow> params \<Rightarrow> params" where
  "table_params tab ps = concat (map (\<lambda>(paramKey, bareKey). case map_of ps paramKey of
       Some v \<Rightarrow> [(bareKey, v)] | None \<Rightarrow> []) tab)"

lemma table_params_Cons:
  "table_params ((p, b) # tab) ps = (case map_of ps p of Some v \<Rightarrow> [(b, v)] | None \<Rightarrow> []) @ table_params tab ps"
  by (simp add: table_params_def)

lemma table_params_keys: "fst ` set (table_params tab ps) \<subseteq> snd ` set tab"
  by (force simp: table_params_def split: option.splits)

lemma table_params_distinct: "distinct (map snd tab) \<Longrightarrow> distinct (map fst (table_params tab ps))"
proof (induction tab)
  case (Cons x tab)
  obtain p b where x: "x = (p, b)" by (cases x)
  have "b \<notin> fst ` set (table_params tab ps)" using Cons.prems x table_params_keys[of tab ps] by auto
  with Cons x show ?case by (auto simp: table_params_Cons split: option.splits)
qed (simp add: table_params_def)

lemma table_params_lookup:
  "distinct (map snd tab) \<Longrightarrow> (pk, bk) \<in> set tab \<Longrightarrow> map_of (table_params tab ps) bk = map_of ps pk"
proof (induction tab)
  case (Cons x tab)
  obtain p b where x: "x = (p, b)" by (cases x)
  show ?case
  proof (cases "b = bk")
    case True
    then have "pk = p" using Cons.prems x by (force simp: image_iff)
    moreover have "map_of (table_params tab ps) bk = None"
      using Cons.prems x True table_params_keys[of tab ps] by (force simp: map_of_eq_None_iff)
    ultimately show ?thesis by (simp add: x table_params_Cons True split: option.split)
  next
    case False
    with Cons x show ?thesis by (auto simp: table_params_Cons split: option.split)
  qed
qed simp

lemma bare_params_table: "bare_params ps = table_params energyParamKeys ps"
  by (simp add: bare_params_def table_params_def)

lemma energyParamKeys_distinct: "distinct (map snd energyParamKeys)"
  by code_simp

text \<open>A string field: the value given when it is a string, otherwise what was there.\<close>

definition str_or :: "string \<Rightarrow> json option \<Rightarrow> string" where
  "str_or d j = (case j of Some (JStr s) \<Rightarrow> s | _ \<Rightarrow> d)"

lemma set_field_trace_other:
  "set_field k j st = Some st' \<Longrightarrow> fold_key k \<noteq> ''trace_id'' \<Longrightarrow> TraceID st' = TraceID st"
  by (auto simp: set_field_def Let_def set_str_def set_num_def set_bool_def set_int_def set_class_def
      split: if_splits json.splits)

lemma trace_field: "set_field ''trace_id'' j st = set_str (\<lambda>s. TraceID_update (\<lambda>_. s)) j st"
  by (simp only: set_field_def fold_key_fields Let_def) simp

lemma set_fields_trace:
  "set_fields kvs st = Some st' \<Longrightarrow> distinct (map fst kvs) \<Longrightarrow>
   (\<And>k. k \<in> fst ` set kvs \<Longrightarrow> k \<noteq> ''trace_id'' \<Longrightarrow> fold_key k \<noteq> ''trace_id'') \<Longrightarrow>
     TraceID st' = str_or (TraceID st) (map_of kvs ''trace_id'')"
proof (induction kvs arbitrary: st)
  case (Cons x kvs)
  obtain k j where x: "x = (k, j)" by (cases x)
  obtain st1 where st1: "set_field k j st = Some st1" "set_fields kvs st1 = Some st'"
    using Cons.prems(1) x by (auto simp: bind_eq_Some_conv)
  have ih: "TraceID st' = str_or (TraceID st1) (map_of kvs ''trace_id'')"
    using Cons.IH[OF st1(2)] Cons.prems by auto
  show ?case
  proof (cases "k = ''trace_id''")
    case True
    then have "map_of kvs ''trace_id'' = None" using Cons.prems(2) x by (force simp: map_of_eq_None_iff)
    moreover have "TraceID st1 = str_or (TraceID st) (Some j)"
      using st1(1) unfolding True trace_field by (auto simp: set_str_def str_or_def split: json.splits)
    ultimately show ?thesis using ih x True by (simp add: str_or_def)
  next
    case False
    then have "TraceID st1 = TraceID st" using set_field_trace_other[OF st1(1)] Cons.prems(3)[of k] x by simp
    with ih x False show ?thesis by simp
  qed
qed (simp add: str_or_def)

lemma map_of_sort_key: "distinct (map fst xs) \<Longrightarrow> map_of (sort_key f xs) = map_of xs"
  by (subst map_of_inject_set) (simp_all add: distinct_map inj_on_def)

lemma first_step_trace:
  assumes "decodeEnergyStateMap (bare_params ps) = Some st"
  shows "TraceID st = str_or [] (map_of ps ''energy_trace_id'')"
proof -
  let ?b = "bare_params ps"
  have d: "distinct (map fst ?b)" unfolding bare_params_table by (rule table_params_distinct[OF energyParamKeys_distinct])
  have k: "fold_key k \<noteq> ''trace_id''" if "k \<in> fst ` set ?b" "k \<noteq> ''trace_id''" for k
  proof -
    have "k \<in> snd ` set energyParamKeys" using that(1) table_params_keys[of energyParamKeys ps] by (auto simp: bare_params_table)
    with that(2) show ?thesis by (auto simp: energyParamKeys_def fold_key_fields)
  qed
  have l: "map_of ?b ''trace_id'' = map_of ps ''energy_trace_id''"
    unfolding bare_params_table by (rule table_params_lookup[OF energyParamKeys_distinct]) (simp add: energyParamKeys_def)
  have s: "set_fields (sort_key fst ?b) zero_state = Some st"
    using assms by (simp add: decodeEnergyStateMap_def split: if_splits)
  have ds: "distinct (map fst (sort_key fst ?b))" using d by (simp add: distinct_map)
  show ?thesis
    using set_fields_trace[OF s ds] k l map_of_sort_key[OF d, of fst] by (simp add: zero_state_def)
qed

section \<open>Handing the state to the next step\<close>

lemma filter_update_same:
  "filter (\<lambda>(k, _). k \<noteq> x) (AList.update x v al) = filter (\<lambda>(k, _). k \<noteq> x) al"
  by (induction al) auto

lemma anchor_not_sidecar: "firstStepAnchorKey \<noteq> energyStateKey"
  by (simp add: firstStepAnchorKey_def energyStateKey_def)

lemma Extract_strips:
  "fst (snd (ExtractEnergyState ps)) =
     filter (\<lambda>(k, _). k \<notin> (if map_of ps firstStepAnchorKey \<noteq> None then set (map fst energyParamKeys) else {energyStateKey})) ps"
proof (cases "map_of ps firstStepAnchorKey = None \<and> map_of ps energyStateKey = None")
  case True
  then have "energyStateKey \<notin> fst ` set ps" by (simp add: map_of_eq_None_iff)
  then have "filter (\<lambda>(k, _). k \<notin> {energyStateKey}) ps = ps" by (force intro: filter_True)
  with True show ?thesis by (simp add: ExtractEnergyState_def)
next
  case False
  then show ?thesis
    by (auto simp: ExtractEnergyState_def Let_def split: option.split json.split)
qed

lemma bare_params_cong:
  assumes "\<And>k. k \<in> set (map fst energyParamKeys) \<Longrightarrow> map_of ps k = map_of qs k"
  shows "bare_params ps = bare_params qs"
proof -
  have "(case map_of ps (fst x) of Some v \<Rightarrow> [(snd x, v)] | None \<Rightarrow> []) =
        (case map_of qs (fst x) of Some v \<Rightarrow> [(snd x, v)] | None \<Rightarrow> [])" if "x \<in> set energyParamKeys" for x
    using assms[of "fst x"] that by simp
  then show ?thesis
    unfolding bare_params_def case_prod_unfold by (intro arg_cong[where f = concat] map_cong refl)
qed

lemma Extract_first:
  "map_of ps firstStepAnchorKey \<noteq> None \<Longrightarrow> fst (ExtractEnergyState ps) = decodeEnergyStateMap (bare_params ps)"
  by (auto simp: ExtractEnergyState_def Let_def split: option.split)

text \<open>The state of the next step of a sequence, whose parameters are this step's result.\<close>

definition next_state :: "params \<Rightarrow> EnergyState option \<Rightarrow> f64 \<Rightarrow> EnergyState option" where
  "next_state result st measuredJ = fst (ExtractEnergyState (fst (ReinjectEnergyState result st measuredJ)))"

lemma Extract_Reinject:
  assumes "state_ok st" "f_finite (ExecutionThresholdJ st)" "f_finite (f_add (ConsumedBeforeJ st) j)"
    and "firstStepAnchorKey \<notin> fst ` set result"
  shows "ExtractEnergyState (fst (ReinjectEnergyState result (Some st) j)) =
     (Some (st\<lparr>ConsumedBeforeJ := f_add (ConsumedBeforeJ st) j, ResolvedActionName := []\<rparr>),
      filter (\<lambda>(k, _). k \<noteq> energyStateKey) result, LogNothing)"
proof -
  let ?st = "st\<lparr>ConsumedBeforeJ := f_add (ConsumedBeforeJ st) j\<rparr>"
  obtain kvs where m: "marshal_state ?st = Some (JObj kvs)"
    using assms(2,3) by (simp add: marshal_state_def)
  have "state_ok ?st" using assms(1) by (simp add: state_ok_def)
  note dec = decode_marshal[OF this m]
  have r: "fst (ReinjectEnergyState result (Some st) j) = AList.update energyStateKey (JObj kvs) result"
    using m by (simp add: ReinjectEnergyState_def)
  have "map_of (AList.update energyStateKey (JObj kvs) result) firstStepAnchorKey = None"
    using assms(4) anchor_not_sidecar by (simp add: update_conv map_of_eq_None_iff)
  then show ?thesis
    using dec by (simp add: r ExtractEnergyState_def update_conv Let_def filter_update_same)
qed

fun sidecar_run :: "EnergyState option \<Rightarrow> (params \<times> f64) list \<Rightarrow> EnergyState option" where
  "sidecar_run st [] = st"
| "sidecar_run st ((result, j) # steps) = sidecar_run (next_state result st j) steps"

lemma f_add_finite: "f_finite (f_add a b) \<Longrightarrow> f_finite a"
  by (cases a; cases b) (auto simp: f_finite_def)

lemma foldl_f_add_finite: "f_finite (foldl f_add a js) \<Longrightarrow> f_finite a"
  by (induction js arbitrary: a) (auto dest: f_add_finite)

lemma sidecar_run_sum:
  assumes "state_ok st" "f_finite (ExecutionThresholdJ st)" "f_finite (foldl f_add (ConsumedBeforeJ st) (map snd steps))"
    and "list_all (\<lambda>(result, _). firstStepAnchorKey \<notin> fst ` set result) steps" "steps \<noteq> []"
  shows "sidecar_run (Some st) steps =
     Some (st\<lparr>ConsumedBeforeJ := foldl f_add (ConsumedBeforeJ st) (map snd steps), ResolvedActionName := []\<rparr>)"
  using assms
proof (induction steps arbitrary: st)
  case (Cons s steps)
  obtain result j where s: "s = (result, j)" by fastforce
  let ?st = "st\<lparr>ConsumedBeforeJ := f_add (ConsumedBeforeJ st) j, ResolvedActionName := []\<rparr>"
  have "f_finite (f_add (ConsumedBeforeJ st) j)"
    using Cons.prems(3) s by (auto dest: foldl_f_add_finite)
  then have n: "next_state result (Some st) j = Some ?st"
    using Cons.prems s by (simp add: next_state_def Extract_Reinject)
  show ?case
  proof (cases "steps = []")
    case True
    then show ?thesis using n s by simp
  next
    case False
    have "sidecar_run (Some ?st) steps =
       Some (?st\<lparr>ConsumedBeforeJ := foldl f_add (ConsumedBeforeJ ?st) (map snd steps), ResolvedActionName := []\<rparr>)"
      using Cons.prems s False by (intro Cons.IH) (auto simp: state_ok_def)
    with n s show ?thesis by simp
  qed
qed simp

section \<open>Properties of the sidecar\<close>

text \<open>C29: the sidecar carries the energy of a whole sequence. Through any number of steps whose
  business results do not themselves contain \<^verbatim>\<open>energy_trace_id\<close>, the state the last step
  receives is the one the scheduler sent, with the measured energies added to
  \<^verbatim>\<open>consumed_before_j\<close> in float64 arithmetic, in order, and nothing else changed.\<close>

theorem sidecar_accumulates:
  assumes "state_ok st" "f_finite (ExecutionThresholdJ st)" "f_finite (foldl f_add (ConsumedBeforeJ st) (map snd steps))"
    and "list_all (\<lambda>(result, _). firstStepAnchorKey \<notin> fst ` set result) steps" "steps \<noteq> []"
  shows "sidecar_run (Some st) steps =
     Some (st\<lparr>ConsumedBeforeJ := foldl f_add (ConsumedBeforeJ st) (map snd steps), ResolvedActionName := []\<rparr>)"
  using assms by (rule sidecar_run_sum)

text \<open>Reinjecting a state and extracting it at the next step is the identity on the state (up
  to the added energy and the step's own action name, which never travels) and leaves the
  business fields of the result alone.\<close>

theorem sidecar_roundtrip:
  assumes "state_ok st" "f_finite (ExecutionThresholdJ st)" "f_finite (f_add (ConsumedBeforeJ st) j)"
    and "firstStepAnchorKey \<notin> fst ` set result" "energyStateKey \<notin> fst ` set result"
  shows "ExtractEnergyState (fst (ReinjectEnergyState result (Some st) j)) =
     (Some (st\<lparr>ConsumedBeforeJ := f_add (ConsumedBeforeJ st) j, ResolvedActionName := []\<rparr>), result, LogNothing)"
proof -
  have "filter (\<lambda>(k, _). k \<noteq> energyStateKey) result = result"
    using assms(5) by (force intro: filter_True)
  with Extract_Reinject[OF assms(1-4)] show ?thesis by simp
qed

text \<open>What the action receives. The parameters of a first step lose exactly the ten
  \<^verbatim>\<open>energy_*\<close> keys, those of every other step exactly \<^verbatim>\<open>__energy_state\<close>, in both
  cases even when the state cannot be decoded. So a sidecar key next to \<^verbatim>\<open>energy_trace_id\<close>,
  or an \<^verbatim>\<open>energy_*\<close> key without it, does reach the action.\<close>

theorem extraction_strips:
  "map_of (fst (snd (ExtractEnergyState ps))) k =
     (if map_of ps firstStepAnchorKey \<noteq> None
      then (if k \<in> set (map fst energyParamKeys) then None else map_of ps k)
      else (if k = energyStateKey then None else map_of ps k))"
proof -
  have "map_of (filter (\<lambda>(k, _). k \<notin> A) xs) k = (if k \<in> A then None else map_of xs k)" for A and xs :: params
    by (induction xs) auto
  then show ?thesis unfolding Extract_strips by auto
qed

text \<open>The energy state is not out of reach of business code: a result that contains
  \<^verbatim>\<open>energy_trace_id\<close> makes the next step read its state from the result's own
  \<^verbatim>\<open>energy_*\<close> fields, and the accumulated sidecar is ignored.\<close>

theorem result_can_replace_sidecar:
  assumes "map_of result firstStepAnchorKey \<noteq> None"
  shows "next_state result st j = fst (ExtractEnergyState result)"
proof -
  have u: "map_of (fst (ReinjectEnergyState result st j)) k = map_of result k" if "k \<noteq> energyStateKey" for k
    using that by (auto simp: ReinjectEnergyState_def Let_def update_conv split: option.split)
  have "energyStateKey \<notin> set (map fst energyParamKeys)"
    by (simp add: energyStateKey_def energyParamKeys_def)
  then have "bare_params (fst (ReinjectEnergyState result st j)) = bare_params result"
    by (intro bare_params_cong u) (metis)
  with u[of firstStepAnchorKey] assms anchor_not_sidecar show ?thesis
    by (simp add: next_state_def Extract_first)
qed

text \<open>A sidecar that cannot be decoded is never silently replaced: the step runs without
  energy state, the safety incident is logged, and it is logged in no other case.\<close>

theorem corrupted_sidecar_reported:
  "snd (snd (ExtractEnergyState ps)) = LogStateCorrupted \<longleftrightarrow>
     map_of ps firstStepAnchorKey = None \<and> fst (ExtractEnergyState ps) = None \<and> map_of ps energyStateKey \<noteq> None"
  by (auto simp: ExtractEnergyState_def Let_def split: option.splits json.splits)

section \<open>Concrete states\<close>

definition sample_state :: EnergyState where
  "sample_state = \<lparr>TraceID = ''t-1'', ReservationID = ''r-1'', ExecutionPhase = ''forward'', ExecutionThresholdJ = Fin 50,
     ConsumedBeforeJ = Fin 0, PauseEnabled = True, PauseMode = ''FREEZE'', MaxPauseDurationMs = 60000,
     MaxPauseCount = 3, InterruptionClass = Some [(''ocr'', ''UNKILLABLE''), (''tts'', ''KILL_SAFE'')], ResolvedActionName = []\<rparr>"

lemma sample_state_ok: "state_ok sample_state"
  by code_simp

lemma sample_sum: "f_add (f_add (Fin 0) (Fin (3/2))) (Fin (9/4)) = Fin (15/4)"
  by code_simp

theorem sidecar_accumulates_witness:
  "sidecar_run (Some sample_state) [([(''text'', JStr ''hi'')], Fin (3/2)), ([], Fin (9/4))] =
     Some (sample_state\<lparr>ConsumedBeforeJ := Fin (15/4)\<rparr>)"
proof -
  have "sidecar_run (Some sample_state) [([(''text'', JStr ''hi'')], Fin (3/2)), ([], Fin (9/4))] =
     Some (sample_state\<lparr>ConsumedBeforeJ := foldl f_add (ConsumedBeforeJ sample_state) (map snd [([(''text'', JStr ''hi'')], Fin (3/2)), ([], Fin (9/4))]), ResolvedActionName := []\<rparr>)"
    by (rule sidecar_accumulates)
       (simp_all add: sample_state_ok sample_sum f_finite_def firstStepAnchorKey_def,
        simp_all add: sample_state_def sample_sum del: f_add.simps)
  then show ?thesis by (simp add: sample_state_def sample_sum del: f_add.simps)
qed

theorem sidecar_roundtrip_witness:
  "ExtractEnergyState (fst (ReinjectEnergyState [(''text'', JStr ''hi'')] (Some sample_state) (Fin (3/2)))) =
     (Some (sample_state\<lparr>ConsumedBeforeJ := f_add (Fin 0) (Fin (3/2))\<rparr>), [(''text'', JStr ''hi'')], LogNothing)"
proof -
  have f: "f_finite (f_add (ConsumedBeforeJ sample_state) (Fin (3/2)))" by code_simp
  show ?thesis
    using sidecar_roundtrip[of sample_state "Fin (3/2)" "[(''text'', JStr ''hi'')]", OF sample_state_ok _ f]
    by (simp add: sample_state_def f_finite_def firstStepAnchorKey_def energyStateKey_def del: f_add.simps)
qed

theorem result_can_replace_sidecar_witness:
  "map_option TraceID (next_state [(''energy_trace_id'', JStr ''other'')] (Some sample_state) (Fin 1)) = Some ''other''"
proof -
  have "map_option TraceID (fst (ExtractEnergyState [(''energy_trace_id'', JStr ''other'')])) = Some ''other''"
    by code_simp
  with result_can_replace_sidecar[of "[(''energy_trace_id'', JStr ''other'')]" "Some sample_state" "Fin 1"]
  show ?thesis by (simp add: firstStepAnchorKey_def)
qed

end
