(* ===== verification/Delivery.thy ===== *)
theory Delivery
  imports Prelude
begin

text \<open>
  Bounded redelivery, the contract that \<^verbatim>\<open>postExecutionKilled\<close>
  (\<^verbatim>\<open>schedulerChannel.go\<close>) and \<^verbatim>\<open>pushMetrics\<close> (\<^verbatim>\<open>pushgateway.go\<close>) share:
  the same body is posted up to a maximal number of times with an exponential backoff, until an
  answer is accepted or the receiver refuses the body with a 4xx status. The peer is a function
  from the attempt's number to what that attempt meets.
\<close>

datatype attempt = SendFailed string | Status int

datatype send_effect = Slept int | Posted

text \<open>Whether the body was delivered, what was done, and the last error text.\<close>

type_synonym delivery = "bool \<times> send_effect list \<times> string"

definition http_text :: "int \<Rightarrow> string" where
  "http_text status = ''HTTP '' @ itoa status"

text \<open>\<^verbatim>\<open>base * time.Duration(1<<uint(attempt-1))\<close>, in 64-bit arithmetic: a shift by 64 or
  more gives 0, which is what the product wraps to.\<close>

definition backoff :: "int \<Rightarrow> nat \<Rightarrow> int" where
  "backoff base attempt = i64 (base * 2 ^ (attempt - 1))"

definition before_attempt :: "int \<Rightarrow> nat \<Rightarrow> send_effect list" where
  "before_attempt base attempt = (if 0 < attempt then [Slept (backoff base attempt)] else []) @ [Posted]"

definition refused :: "int \<Rightarrow> bool" where
  "refused status \<longleftrightarrow> 400 \<le> status \<and> status < 500"

definition posts :: "send_effect list \<Rightarrow> nat" where
  "posts fx = length (filter (\<lambda>x. x = Posted) fx)"

lemma posts_append [simp]: "posts (xs @ ys) = posts xs + posts ys"
  by (simp add: posts_def)

lemma posts_before [simp]: "posts (before_attempt base k) = 1"
  by (simp add: before_attempt_def posts_def)

locale bounded_delivery =
  fixes accepts :: "int \<Rightarrow> bool"
    and loop :: "(nat \<Rightarrow> attempt) \<Rightarrow> int \<Rightarrow> nat \<Rightarrow> nat \<Rightarrow> string \<Rightarrow> delivery"
  assumes loop_0: "loop resp base 0 k err = (False, [], err)"
    and loop_failed: "resp k = SendFailed e \<Longrightarrow> loop resp base (Suc n) k err =
        (case loop resp base n (Suc k) e of (d, fx, l) \<Rightarrow> (d, before_attempt base k @ fx, l))"
    and loop_accepted: "resp k = Status s \<Longrightarrow> accepts s \<Longrightarrow>
        loop resp base (Suc n) k err = (True, before_attempt base k, err)"
    and loop_refused: "resp k = Status s \<Longrightarrow> \<not> accepts s \<Longrightarrow> refused s \<Longrightarrow>
        loop resp base (Suc n) k err = (False, before_attempt base k, http_text s)"
    and loop_retry: "resp k = Status s \<Longrightarrow> \<not> accepts s \<Longrightarrow> \<not> refused s \<Longrightarrow> loop resp base (Suc n) k err =
        (case loop resp base n (Suc k) (http_text s) of (d, fx, l) \<Rightarrow> (d, before_attempt base k @ fx, l))"
begin

text \<open>An answer that ends the loop.\<close>

definition decisive :: "attempt \<Rightarrow> bool" where
  "decisive a = (case a of SendFailed _ \<Rightarrow> False | Status s \<Rightarrow> accepts s \<or> refused s)"

definition accepted :: "attempt \<Rightarrow> bool" where
  "accepted a = (case a of SendFailed _ \<Rightarrow> False | Status s \<Rightarrow> accepts s)"

lemma not_decisive:
  assumes "\<not> decisive (resp k)"
  shows "\<exists>e. loop resp base (Suc n) k err =
     (case loop resp base n (Suc k) e of (d, fx, l) \<Rightarrow> (d, before_attempt base k @ fx, l))"
  using assms
  by (cases "resp k") (auto simp: decisive_def loop_failed loop_retry)

lemma all_indecisive:
  "(\<forall>i < n. \<not> decisive (resp (k + i))) \<Longrightarrow> \<exists>l. loop resp base n k err =
     (False, concat (map (before_attempt base) [k..<k + n]), l)"
proof (induction n arbitrary: k err)
  case 0
  then show ?case by (simp add: loop_0)
next
  case (Suc n)
  then have "\<not> decisive (resp k)" by force
  then obtain e where e: "loop resp base (Suc n) k err =
     (case loop resp base n (Suc k) e of (d, fx, l) \<Rightarrow> (d, before_attempt base k @ fx, l))"
    using not_decisive by blast
  from Suc have "\<forall>i < n. \<not> decisive (resp (Suc k + i))" by force
  from Suc.IH[OF this] obtain l where
    "loop resp base n (Suc k) e = (False, concat (map (before_attempt base) [Suc k..<Suc k + n]), l)" by blast
  with e show ?case by (simp add: upt_rec[of k])
qed

lemma first_decisive:
  "i < n \<Longrightarrow> decisive (resp (k + i)) \<Longrightarrow> (\<forall>j < i. \<not> decisive (resp (k + j))) \<Longrightarrow>
     \<exists>l. loop resp base n k err =
       (accepted (resp (k + i)), concat (map (before_attempt base) [k..<Suc (k + i)]), l)"
proof (induction i arbitrary: n k err)
  case 0
  then obtain n' where n: "n = Suc n'" by (cases n) auto
  from 0 obtain s where s: "resp k = Status s" "accepts s \<or> refused s"
    by (auto simp: decisive_def split: attempt.splits)
  show ?case
  proof (cases "accepts s")
    case True
    with s n show ?thesis by (simp add: loop_accepted accepted_def)
  next
    case False
    with s n show ?thesis by (simp add: loop_refused accepted_def)
  qed
next
  case (Suc i)
  then obtain n' where n: "n = Suc n'" by (cases n) auto
  from Suc.prems have "\<not> decisive (resp k)" by force
  then obtain e where e: "loop resp base (Suc n') k err =
     (case loop resp base n' (Suc k) e of (d, fx, l) \<Rightarrow> (d, before_attempt base k @ fx, l))"
    using not_decisive by blast
  have "\<forall>j < i. \<not> decisive (resp (Suc k + j))" using Suc.prems(3) by force
  with Suc.IH[of n' "Suc k" e] Suc.prems n obtain l where
    "loop resp base n' (Suc k) e = (accepted (resp (Suc k + i)), concat (map (before_attempt base) [Suc k..<Suc (Suc k + i)]), l)"
    by auto
  with e n show ?case by (simp add: upt_rec[of k])
qed

lemma posts_concat: "posts (concat (map (before_attempt base) ks)) = length ks"
  by (induction ks) (simp_all add: posts_def[of "[]"])

lemma outcome:
  assumes "loop resp base n 0 err = (delivered, fx, l)"
  shows "posts fx \<le> n"
    and "delivered \<longleftrightarrow> (\<exists>i < n. accepted (resp i) \<and> (\<forall>j < i. \<not> decisive (resp j)))"
    and "fx = concat (map (before_attempt base) [0..<posts fx])"
    and "delivered \<or> posts fx = n \<or> (0 < posts fx \<and> decisive (resp (posts fx - 1)) \<and> \<not> accepted (resp (posts fx - 1)))"
proof -
  have acc_dec: "accepted a \<Longrightarrow> decisive a" for a
    by (auto simp: accepted_def decisive_def split: attempt.splits)
  have "posts fx \<le> n \<and> (delivered \<longleftrightarrow> (\<exists>i < n. accepted (resp i) \<and> (\<forall>j < i. \<not> decisive (resp j))))
     \<and> fx = concat (map (before_attempt base) [0..<posts fx])
     \<and> (delivered \<or> posts fx = n \<or> (0 < posts fx \<and> decisive (resp (posts fx - 1)) \<and> \<not> accepted (resp (posts fx - 1))))"
  proof (cases "\<exists>i < n. decisive (resp i)")
    case False
    then have "delivered = False" "fx = concat (map (before_attempt base) [0..<n])"
      using all_indecisive[of n resp 0 base err] assms by auto
    with False acc_dec show ?thesis by (auto simp: posts_concat)
  next
    case True
    define i where "i = (LEAST i. decisive (resp i))"
    from True have i: "i < n" "decisive (resp i)" "\<forall>j < i. \<not> decisive (resp j)"
      unfolding i_def by (auto intro: LeastI dest: not_less_Least) (meson LeastI Least_le le_less_trans)+
    then have "delivered = accepted (resp i)" "fx = concat (map (before_attempt base) [0..<Suc i])"
      using first_decisive[of i n resp 0 base err] assms by auto
    moreover have "(\<exists>i' < n. accepted (resp i') \<and> (\<forall>j < i'. \<not> decisive (resp j))) \<longleftrightarrow> accepted (resp i)"
      using i acc_dec by (metis linorder_neqE_nat)
    ultimately show ?thesis using i by (auto simp: posts_concat simp del: upt_Suc)
  qed
  then show "posts fx \<le> n"
    "delivered \<longleftrightarrow> (\<exists>i < n. accepted (resp i) \<and> (\<forall>j < i. \<not> decisive (resp j)))"
    "fx = concat (map (before_attempt base) [0..<posts fx])"
    "delivered \<or> posts fx = n \<or> (0 < posts fx \<and> decisive (resp (posts fx - 1)) \<and> \<not> accepted (resp (posts fx - 1)))"
    by blast+
qed

end

end
