(* ===== verification/Channel.thy ===== *)
theory Channel
  imports EnergyState Delivery
begin

text \<open>
  \<^verbatim>\<open>src/openwhisk/schedulerChannel.go\<close>: the HTTP channel to the scheduler. The address of
  the scheduler is resolved off the critical path and cached; each call records what its
  connection cost and why it failed; \<^verbatim>\<open>EXECUTION_PAUSED\<close> blocks for a command, and
  \<^verbatim>\<open>EXECUTION_KILLED\<close> is redelivered a bounded number of times.

  The network is seen through what it answers: the list of addresses of each lookup, whether a
  connection opens, the response of a POST. \<open>parseURL\<close> stands for \<^verbatim>\<open>net/url\<close>'s parser
  (scheme, host name and port, \<open>None\<close> on an error).
\<close>

section \<open>Host names and addresses: the package net\<close>

definition parse_octet :: "string \<Rightarrow> bool" where
  "parse_octet s \<longleftrightarrow> s \<noteq> [] \<and> list_all is_digit s \<and> (length s = 1 \<or> hd s \<noteq> CHR ''0'') \<and>
     length s \<le> 3 \<and> digits_val s \<le> 255"

definition parseIPv4 :: "string \<Rightarrow> bool" where
  "parseIPv4 s \<longleftrightarrow> (let ps = Split s (CHR ''.'') in length ps = 4 \<and> list_all parse_octet ps)"

definition hex_digit :: "char \<Rightarrow> int option" where
  "hex_digit c = (let n = of_char c :: int in
     if 48 \<le> n \<and> n \<le> 57 then Some (n - 48)
     else if 97 \<le> n \<and> n \<le> 102 then Some (n - 87)
     else if 65 \<le> n \<and> n \<le> 70 then Some (n - 55) else None)"

definition parse_group :: "string \<Rightarrow> int option" where
  "parse_group s = (if s = [] \<or> 4 < length s \<or> list_ex (\<lambda>c. hex_digit c = None) s then None
     else Some (fold (\<lambda>c n. 16 * n + (case hex_digit c of Some d \<Rightarrow> d | None \<Rightarrow> 0)) s 0))"

definition v4_groups :: "string \<Rightarrow> int list" where
  "v4_groups s = (case map digits_val (Split s (CHR ''.'')) of
     [a, b, c, d] \<Rightarrow> [256 * a + b, 256 * c + d] | _ \<Rightarrow> [])"

text \<open>The groups of a colon-separated part; only the very last one may be a dotted IPv4.\<close>

fun parse_groups :: "bool \<Rightarrow> string list \<Rightarrow> int list option" where
  "parse_groups v4_last [] = Some []"
| "parse_groups v4_last [g] =
     (if v4_last \<and> parseIPv4 g then Some (v4_groups g) else map_option (\<lambda>n. [n]) (parse_group g))"
| "parse_groups v4_last (g # gs) =
     (case (parse_group g, parse_groups v4_last gs) of (Some n, Some ns) \<Rightarrow> Some (n # ns) | _ \<Rightarrow> None)"

fun at_ellipsis :: "string \<Rightarrow> (string \<times> string) option" where
  "at_ellipsis (a # b # cs) = (if a = CHR '':'' \<and> b = CHR '':'' then Some ([], cs)
     else map_option (\<lambda>(l, r). (a # l, r)) (at_ellipsis (b # cs)))"
| "at_ellipsis _ = None"

definition colon_groups :: "bool \<Rightarrow> string \<Rightarrow> int list option" where
  "colon_groups v4_last s = (if s = [] then Some [] else parse_groups v4_last (Split s (CHR '':'')))"

definition parseIPv6 :: "string \<Rightarrow> int list option" where
  "parseIPv6 s = (case at_ellipsis s of
       None \<Rightarrow> (case colon_groups True s of Some gs \<Rightarrow> if length gs = 8 then Some gs else None | None \<Rightarrow> None)
     | Some (l, r) \<Rightarrow> (case (colon_groups False l, colon_groups True r) of
           (Some gl, Some gr) \<Rightarrow>
             if length gl + length gr \<le> 7 then Some (gl @ replicate (8 - length gl - length gr) 0 @ gr) else None
         | _ \<Rightarrow> None))"

text \<open>\<^verbatim>\<open>net.ParseIP(s) != nil\<close>, and whether the parsed address has a \<^verbatim>\<open>To4()\<close>.\<close>

definition is_IP :: "string \<Rightarrow> bool" where
  "is_IP s \<longleftrightarrow> parseIPv4 s \<or> parseIPv6 s \<noteq> None"

definition has_To4 :: "string \<Rightarrow> bool" where
  "has_To4 s \<longleftrightarrow> parseIPv4 s \<or> (case parseIPv6 s of Some gs \<Rightarrow> take 6 gs = [0, 0, 0, 0, 0, 65535] | None \<Rightarrow> False)"

definition SplitHostPort :: "string \<Rightarrow> (string \<times> string) option" where
  "SplitHostPort hp =
     (if CHR '':'' \<notin> set hp then None
      else let port = after_last (CHR '':'') hp; i = length hp - length port - 1 in
        if HasPrefix hp ''['' then
          (if CHR '']'' \<notin> set hp then None
           else let e = length (takeWhile (\<lambda>c. c \<noteq> CHR '']'') hp) in
             if e + 1 \<noteq> i then None
             else if CHR ''['' \<in> set (drop 1 hp) \<or> CHR '']'' \<in> set (drop (e + 1) hp) then None
             else Some (drop 1 (take e hp), port))
        else if CHR '':'' \<in> set (take i hp) then None
        else if CHR ''['' \<in> set hp \<or> CHR '']'' \<in> set hp then None
        else Some (take i hp, port))"

definition JoinHostPort :: "string \<Rightarrow> string \<Rightarrow> string" where
  "JoinHostPort host port = (if CHR '':'' \<in> set host then ''['' @ host @ '']:'' @ port else host @ '':'' @ port)"

section \<open>Configuration\<close>

definition schedulerURL :: "host \<Rightarrow> string" where
  "schedulerURL h = (if getenv h ''SCHEDULER_URL'' \<noteq> [] then getenv h ''SCHEDULER_URL'' else ''http://localhost:5000'')"

definition schedulerEventsEndpoint :: "host \<Rightarrow> string" where
  "schedulerEventsEndpoint h = schedulerURL h @ ''/api/v1/energy/events''"

definition schedulerChannelTimeoutMarginMs :: "host \<Rightarrow> int" where
  "schedulerChannelTimeoutMarginMs h = millis (env_int (\<lambda>parsed. 0 < parsed) h ''SCHEDULER_CHANNEL_TIMEOUT_MARGIN_MS'' 2000)"

definition schedulerAddressResolveMaxAttempts :: "host \<Rightarrow> int" where
  "schedulerAddressResolveMaxAttempts h = positiveIntEnv h ''SCHEDULER_ADDRESS_RESOLVE_MAX_ATTEMPTS'' 8"

definition schedulerAddressResolveTimeout :: "host \<Rightarrow> int" where
  "schedulerAddressResolveTimeout h = millis (positiveIntEnv h ''SCHEDULER_ADDRESS_RESOLVE_TIMEOUT_MS'' 500)"

definition schedulerAddressResolveBackoffBase :: "host \<Rightarrow> int" where
  "schedulerAddressResolveBackoffBase h = millis (positiveIntEnv h ''SCHEDULER_ADDRESS_RESOLVE_RETRY_BACKOFF_BASE_MS'' 200)"

definition schedulerAddressResolveBackoffMax :: "host \<Rightarrow> int" where
  "schedulerAddressResolveBackoffMax h = millis (positiveIntEnv h ''SCHEDULER_ADDRESS_RESOLVE_RETRY_BACKOFF_MAX_MS'' 5000)"

definition executionKilledMaxAttempts :: "host \<Rightarrow> int" where
  "executionKilledMaxAttempts h = env_int (\<lambda>parsed. 0 < parsed) h ''EXECUTION_KILLED_MAX_ATTEMPTS'' 5"

definition executionKilledBackoffBase :: "host \<Rightarrow> int" where
  "executionKilledBackoffBase h = millis (env_int (\<lambda>parsed. 0 < parsed) h ''EXECUTION_KILLED_RETRY_BACKOFF_BASE_MS'' 200)"

definition pausedEventTimeout :: "host \<Rightarrow> int \<Rightarrow> int" where
  "pausedEventTimeout h maxPauseDurationMs =
     (let ms = (if maxPauseDurationMs < 0 then 0 else maxPauseDurationMs)
      in i64 (millis ms + schedulerChannelTimeoutMarginMs h))"

section \<open>The cached address\<close>

record addrCache =
  chostport :: string
  ipport :: string
  resolving :: bool

definition cache_get :: "string \<Rightarrow> addrCache \<Rightarrow> string" where
  "cache_get hp c = (if chostport c = hp then ipport c else [])"

definition cache_set :: "string \<Rightarrow> string \<Rightarrow> addrCache \<Rightarrow> addrCache" where
  "cache_set hp ip c = c\<lparr>chostport := hp, ipport := ip\<rparr>"

definition cache_forget :: "string \<Rightarrow> addrCache \<Rightarrow> addrCache" where
  "cache_forget hp c = (if chostport c = hp then c\<lparr>ipport := []\<rparr> else c)"

definition pickIP :: "string list \<Rightarrow> string" where
  "pickIP ips = (case filter (\<lambda>ip. is_IP ip \<and> has_To4 ip) ips of
       ip # _ \<Rightarrow> ip
     | [] \<Rightarrow> (case ips of ip # _ \<Rightarrow> ip | [] \<Rightarrow> []))"

text \<open>One lookup: \<open>None\<close> is an error or the expiry of the attempt's own time limit.\<close>

definition resolveOnce :: "string list option \<Rightarrow> string option" where
  "resolveOnce looked = (case looked of
       None \<Rightarrow> None
     | Some ips \<Rightarrow> let ip = pickIP ips in if ip \<noteq> [] then Some ip else None)"

text \<open>The background resolution. The first half runs in the caller and says whether a
  goroutine is started; the second half is that goroutine: it returns the waits it made, the
  address it found, and it always clears the flag.\<close>

definition resolveAsync :: "string \<Rightarrow> addrCache \<Rightarrow> bool \<times> addrCache" where
  "resolveAsync hp c = (case SplitHostPort hp of
       None \<Rightarrow> (False, c)
     | Some (host, port) \<Rightarrow>
         if is_IP host then (False, c)
         else if resolving c then (False, c)
         else (True, c\<lparr>resolving := True\<rparr>))"

fun async_loop :: "(nat \<Rightarrow> string list option) \<Rightarrow> int \<Rightarrow> nat \<Rightarrow> nat \<Rightarrow> int \<Rightarrow> int list \<times> string option" where
  "async_loop looked backoffMax 0 k wait = ([], None)"
| "async_loop looked backoffMax (Suc n) k wait = (case resolveOnce (looked k) of
       Some ip \<Rightarrow> ([], Some ip)
     | None \<Rightarrow>
         if n = 0 then ([], None)
         else (let doubled = i64 (wait * 2);
                   wait2 = (if backoffMax < doubled then backoffMax else doubled)
           in case async_loop looked backoffMax n (Suc k) wait2 of (ws, r) \<Rightarrow> (wait # ws, r)))"

definition resolve_goroutine :: "host \<Rightarrow> string \<Rightarrow> (nat \<Rightarrow> string list option) \<Rightarrow> addrCache \<Rightarrow> int list \<times> addrCache" where
  "resolve_goroutine h hp looked c =
     (case async_loop looked (schedulerAddressResolveBackoffMax h)
             (nat (schedulerAddressResolveMaxAttempts h)) 0 (schedulerAddressResolveBackoffBase h) of
        (ws, None) \<Rightarrow> (ws, c\<lparr>resolving := False\<rparr>)
      | (ws, Some ip) \<Rightarrow> (ws, (cache_set hp (JoinHostPort ip (case SplitHostPort hp of Some (_, port) \<Rightarrow> port | None \<Rightarrow> [])) c)
                              \<lparr>resolving := False\<rparr>))"

definition schedulerHostPort :: "(string \<Rightarrow> (string \<times> string \<times> string) option) \<Rightarrow> host \<Rightarrow> string" where
  "schedulerHostPort parseURL h = (case parseURL (schedulerURL h) of
       None \<Rightarrow> []
     | Some (scheme, hostname, port) \<Rightarrow>
         if hostname = [] then []
         else JoinHostPort hostname
           (if port = [] then (if scheme = ''https'' then ''443'' else ''80'') else port))"

definition warmSchedulerAddress :: "(string \<Rightarrow> (string \<times> string \<times> string) option) \<Rightarrow> host \<Rightarrow> addrCache \<Rightarrow> bool \<times> addrCache" where
  "warmSchedulerAddress parseURL h c = (let hp = schedulerHostPort parseURL h in
     if hp \<noteq> [] \<and> cache_get hp c = [] then resolveAsync hp c else (False, c))"


section \<open>What a call records about its connection\<close>

record schedulerConnTrace =
  Reused :: bool
  SetupNs :: int
  DNSNs :: int
  ConnectNs :: int
  CachedAddr :: bool
  Failure :: string

definition zero_trace :: schedulerConnTrace where
  "zero_trace = \<lparr>Reused = False, SetupNs = 0, DNSNs = 0, ConnectNs = 0, CachedAddr = False, Failure = []\<rparr>"

text \<open>A zero \<^verbatim>\<open>time.Time\<close> is \<open>None\<close>.\<close>

record connRecorder =
  rclosed :: bool
  rstart :: int
  rtrace :: schedulerConnTrace
  resolveStartedAt :: "int option"
  resolveEnded :: bool
  resolveOK :: bool
  connectStartedAt :: "int option"
  connectEnded :: bool
  gotConn :: bool

definition new_recorder :: connRecorder where
  "new_recorder = \<lparr>rclosed = False, rstart = 0, rtrace = zero_trace, resolveStartedAt = None, resolveEnded = False,
     resolveOK = False, connectStartedAt = None, connectEnded = False, gotConn = False\<rparr>"

text \<open>The recorder joins the request: its clock starts, and its notes reach it from then on.\<close>

definition traceRequest :: "int \<Rightarrow> connRecorder \<Rightarrow> connRecorder" where
  "traceRequest t r = r\<lparr>rstart := t\<rparr>"

definition rec_update :: "(connRecorder \<Rightarrow> connRecorder) \<Rightarrow> connRecorder \<Rightarrow> connRecorder" where
  "rec_update fn r = (if rclosed r then r else fn r)"

text \<open>\<^verbatim>\<open>time.Since\<close> of a zero time saturates at the largest duration.\<close>

definition since :: "int option \<Rightarrow> int \<Rightarrow> int" where
  "since t0 t = (case t0 of None \<Rightarrow> 2 ^ 63 - 1 | Some s \<Rightarrow> t - s)"

datatype conn_note = NoteCachedAddr | NoteResolveStart int | NoteResolveDone bool int
  | NoteConnectStart int | NoteConnectDone int | NoteGotConn bool int

fun take_note :: "conn_note \<Rightarrow> connRecorder \<Rightarrow> connRecorder" where
  "take_note NoteCachedAddr r = rec_update (\<lambda>r. r\<lparr>rtrace := (rtrace r)\<lparr>CachedAddr := True\<rparr>\<rparr>) r"
| "take_note (NoteResolveStart t) r = rec_update (\<lambda>r. r\<lparr>resolveStartedAt := Some t\<rparr>) r"
| "take_note (NoteConnectStart t) r = rec_update (\<lambda>r. r\<lparr>connectStartedAt := Some t\<rparr>) r"
| "take_note (NoteResolveDone ok t) r = rec_update (\<lambda>r. r\<lparr>rtrace := (rtrace r)\<lparr>DNSNs := since (resolveStartedAt r) t\<rparr>,
     resolveEnded := True, resolveOK := ok\<rparr>) r"
| "take_note (NoteConnectDone t) r = rec_update (\<lambda>r. r\<lparr>rtrace := (rtrace r)\<lparr>ConnectNs := since (connectStartedAt r) t\<rparr>,
     connectEnded := True\<rparr>) r"
| "take_note (NoteGotConn reused t) r = rec_update (\<lambda>r. r\<lparr>gotConn := True,
     rtrace := (rtrace r)\<lparr>Reused := reused, SetupNs := since (Some (rstart r)) t\<rparr>\<rparr>) r"

record go_error =
  deadlineExceeded :: bool
  netTimeout :: bool

definition isTimeout :: "go_error \<Rightarrow> bool" where
  "isTimeout err \<longleftrightarrow> deadlineExceeded err \<or> netTimeout err"

definition finish_cause :: "go_error option \<Rightarrow> bool \<Rightarrow> connRecorder \<Rightarrow> string" where
  "finish_cause callErr unreadable r =
     (if unreadable then ''unreadable_response''
      else case callErr of
        None \<Rightarrow> Failure (rtrace r)
      | Some err \<Rightarrow>
          if resolveStartedAt r \<noteq> None \<and> \<not> resolveOK r then ''resolve''
          else if \<not> gotConn r then ''connect''
          else if isTimeout err then ''timeout''
          else ''connect'')"

definition rec_finish :: "int \<Rightarrow> go_error option \<Rightarrow> bool \<Rightarrow> connRecorder \<Rightarrow> schedulerConnTrace \<times> connRecorder" where
  "rec_finish t callErr unreadable r =
     (let trace = (rtrace r)\<lparr>
            DNSNs := (if resolveStartedAt r \<noteq> None \<and> \<not> resolveEnded r then since (resolveStartedAt r) t else DNSNs (rtrace r)),
            ConnectNs := (if connectStartedAt r \<noteq> None \<and> \<not> connectEnded r then since (connectStartedAt r) t else ConnectNs (rtrace r)),
            Failure := finish_cause callErr unreadable r\<rparr>
      in (trace, r\<lparr>rclosed := True, rtrace := trace\<rparr>))"

section \<open>Opening a connection\<close>

text \<open>What the network does during one dial: the lookups (with whether the request's context is
  over after each), whether the connection opens, and the clock at the four notes.\<close>

record dial_io =
  di_lookup :: "nat \<Rightarrow> string list option \<times> bool"
  di_connect :: bool
  di_resolve_start :: int
  di_resolve_done :: int
  di_connect_start :: int
  di_connect_done :: int

text \<open>\<open>n\<close> attempts are left, \<open>k\<close> have been made; the second result counts them.\<close>

fun resolve_loop :: "(nat \<Rightarrow> string list option \<times> bool) \<Rightarrow> nat \<Rightarrow> nat \<Rightarrow> string option \<times> nat" where
  "resolve_loop lk 0 k = (None, k)"
| "resolve_loop lk (Suc n) k = (case resolveOnce (fst (lk k)) of
       Some ip \<Rightarrow> (Some ip, Suc k)
     | None \<Rightarrow> if snd (lk k) \<or> n = 0 then (None, Suc k) else resolve_loop lk n (Suc k))"

text \<open>The notes made, whether the connection opened, whether a background resolution was
  started, the target that was dialled, and the cache afterwards.\<close>

record dial_result =
  dr_notes :: "conn_note list"
  dr_ok :: bool
  dr_async :: bool
  dr_target :: "string option"
  dr_cache :: addrCache

definition schedulerDialContext :: "host \<Rightarrow> dial_io \<Rightarrow> string \<Rightarrow> addrCache \<Rightarrow> dial_result" where
  "schedulerDialContext h io addr c =
     (let connect = [NoteConnectStart (di_connect_start io), NoteConnectDone (di_connect_done io)] in
      if cache_get addr c \<noteq> [] then
        (if di_connect io
         then \<lparr>dr_notes = NoteCachedAddr # connect, dr_ok = True, dr_async = False, dr_target = Some (cache_get addr c), dr_cache = c\<rparr>
         else (case resolveAsync addr (cache_forget addr c) of (spawned, c') \<Rightarrow>
           \<lparr>dr_notes = NoteCachedAddr # connect, dr_ok = False, dr_async = spawned, dr_target = Some (cache_get addr c), dr_cache = c'\<rparr>))
      else (case SplitHostPort addr of
          Some (host, port) \<Rightarrow>
            if \<not> is_IP host then
              (case resolve_loop (di_lookup io) (nat (schedulerAddressResolveMaxAttempts h)) 0 of
                 (None, _) \<Rightarrow>
                   \<lparr>dr_notes = [NoteResolveStart (di_resolve_start io), NoteResolveDone False (di_resolve_done io)],
                    dr_ok = False, dr_async = False, dr_target = None, dr_cache = c\<rparr>
               | (Some ip, _) \<Rightarrow>
                   (let target = JoinHostPort ip port in
                    \<lparr>dr_notes = [NoteResolveStart (di_resolve_start io), NoteResolveDone True (di_resolve_done io)] @ connect,
                     dr_ok = di_connect io, dr_async = False, dr_target = Some target,
                     dr_cache = (if di_connect io \<and> target \<noteq> addr then cache_set addr target c else c)\<rparr>))
            else \<lparr>dr_notes = connect, dr_ok = di_connect io, dr_async = False, dr_target = Some addr, dr_cache = c\<rparr>
        | None \<Rightarrow> \<lparr>dr_notes = connect, dr_ok = di_connect io, dr_async = False, dr_target = Some addr, dr_cache = c\<rparr>))"

section \<open>Events and commands\<close>

record ExecutionPausedEvent =
  pe_Event :: string
  pe_TraceID :: string
  pe_ReservationID :: string
  pe_PauseID :: string
  pe_ActionName :: string
  pe_ExecutionPhase :: string
  pe_EnergyConsumedJ :: f64
  PauseRequestedAt :: f64
  PauseEffectiveAt :: f64
  FreezeLatencyMs :: f64

record SchedulerCommand =
  Command :: string
  sc_TraceID :: string
  sc_ReservationID :: string
  sc_PauseID :: string
  NewExecutionThresholdJ :: f64
  sc_Reason :: string

definition zero_command :: SchedulerCommand where
  "zero_command = \<lparr>Command = [], sc_TraceID = [], sc_ReservationID = [], sc_PauseID = [],
     NewExecutionThresholdJ = Fin 0, sc_Reason = []\<rparr>"

definition set_command_field :: "string \<Rightarrow> json \<Rightarrow> SchedulerCommand \<Rightarrow> SchedulerCommand option" where
  "set_command_field key j cmd =
     (let f = fold_key key in
      if f = ''command'' then set_str (\<lambda>s. Command_update (\<lambda>_. s)) j cmd
      else if f = ''trace_id'' then set_str (\<lambda>s. sc_TraceID_update (\<lambda>_. s)) j cmd
      else if f = ''reservation_id'' then set_str (\<lambda>s. sc_ReservationID_update (\<lambda>_. s)) j cmd
      else if f = ''pause_id'' then set_str (\<lambda>s. sc_PauseID_update (\<lambda>_. s)) j cmd
      else if f = ''new_execution_threshold_j'' then set_num (\<lambda>x. NewExecutionThresholdJ_update (\<lambda>_. x)) j cmd
      else if f = ''reason'' then set_str (\<lambda>s. sc_Reason_update (\<lambda>_. s)) j cmd
      else Some cmd)"

fun decode_command :: "json \<Rightarrow> SchedulerCommand option" where
  "decode_command (JObj kvs) = fold (\<lambda>(k, j) acc. Option.bind acc (set_command_field k j)) kvs (Some zero_command)"
| "decode_command JNull = Some zero_command"
| "decode_command _ = None"

text \<open>\<^verbatim>\<open>%x\<close> of the 16 random bytes; \<open>None\<close> when the entropy source fails.\<close>

definition hex_char :: "nat \<Rightarrow> char" where
  "hex_char d = (if d < 10 then char_of (48 + d) else char_of (87 + d))"

definition hex_byte :: "char \<Rightarrow> string" where
  "hex_byte c = [hex_char (of_char c div 16), hex_char (of_char c mod 16)]"

definition newPauseID :: "string option \<Rightarrow> int \<Rightarrow> string" where
  "newPauseID random unixNano = (case random of
       None \<Rightarrow> ''pause-'' @ itoa unixNano
     | Some buf \<Rightarrow> ''pause-'' @ concat (map hex_byte buf))"

datatype chan_error = EMarshal | EBuild | EPost | ERead | EDecode

datatype response = CallFailed go_error | BodyFailed go_error | BodyUndecodable | BodyJson json

text \<open>One call: whether the URL makes a request, the clock at its start and end, the notes the
  transport made before it returned, and the response.\<close>

record paused_io =
  pi_url_ok :: bool
  pi_start :: int
  pi_notes :: "conn_note list"
  pi_response :: response
  pi_end :: int

definition event_finite :: "ExecutionPausedEvent \<Rightarrow> bool" where
  "event_finite e \<longleftrightarrow> f_finite (pe_EnergyConsumedJ e) \<and> f_finite (PauseRequestedAt e) \<and>
     f_finite (PauseEffectiveAt e) \<and> f_finite (FreezeLatencyMs e)"

definition postExecutionPaused :: "paused_io \<Rightarrow> ExecutionPausedEvent
    \<Rightarrow> SchedulerCommand option \<times> schedulerConnTrace \<times> chan_error option" where
  "postExecutionPaused io event =
     (if \<not> event_finite event then (None, fst (rec_finish (pi_end io) None False new_recorder), Some EMarshal)
      else if \<not> pi_url_ok io then (None, fst (rec_finish (pi_end io) None False new_recorder), Some EBuild)
      else let r = fold take_note (pi_notes io) (traceRequest (pi_start io) new_recorder);
               unreadable = (None, fst (rec_finish (pi_end io) (Some \<lparr>deadlineExceeded = False, netTimeout = False\<rparr>) True r), Some EDecode)
        in case pi_response io of
             CallFailed err \<Rightarrow> (None, fst (rec_finish (pi_end io) (Some err) False r), Some EPost)
           | BodyFailed err \<Rightarrow>
               if isTimeout err then (None, fst (rec_finish (pi_end io) (Some err) False r), Some ERead)
               else (None, fst (rec_finish (pi_end io) (Some err) True r), Some EDecode)
           | BodyUndecodable \<Rightarrow> unreadable
           | BodyJson j \<Rightarrow> (case decode_command j of
                 None \<Rightarrow> unreadable
               | Some command \<Rightarrow> (Some command, fst (rec_finish (pi_end io) None False r), None)))"

text \<open>Redelivering \<^verbatim>\<open>EXECUTION_KILLED\<close>: \<open>n\<close> attempts are left.\<close>

fun killed_loop :: "(nat \<Rightarrow> attempt) \<Rightarrow> int \<Rightarrow> nat \<Rightarrow> nat \<Rightarrow> string \<Rightarrow> delivery" where
  "killed_loop resp base 0 attempt lastErr = (False, [], lastErr)"
| "killed_loop resp base (Suc n) attempt lastErr = (case resp attempt of
       SendFailed e \<Rightarrow> (case killed_loop resp base n (Suc attempt) e of (d, fx, l) \<Rightarrow> (d, before_attempt base attempt @ fx, l))
     | Status status \<Rightarrow>
         if 200 \<le> status \<and> status < 300 then (True, before_attempt base attempt, lastErr)
         else if 400 \<le> status \<and> status < 500 then (False, before_attempt base attempt, http_text status)
         else (case killed_loop resp base n (Suc attempt) (http_text status) of
                 (d, fx, l) \<Rightarrow> (d, before_attempt base attempt @ fx, l)))"

text \<open>The result: what was sent, and the text and number of attempts of the safety incident if
  there was one. The event is marshalled first; its floats must be finite.\<close>

definition postExecutionKilled :: "host \<Rightarrow> (nat \<Rightarrow> attempt) \<Rightarrow> bool \<Rightarrow> send_effect list \<times> (int \<times> string) option" where
  "postExecutionKilled h resp marshalled =
     (if \<not> marshalled then ([], None)
      else let maxAttempts = executionKilledMaxAttempts h in
        case killed_loop resp (executionKilledBackoffBase h) (nat maxAttempts) 0 ''none'' of
          (True, fx, _) \<Rightarrow> (fx, None)
        | (False, fx, lastErr) \<Rightarrow> (fx, Some (maxAttempts, lastErr)))"


section \<open>The recorder\<close>

text \<open>What the notes of a call say, without the recorder.\<close>

definition resolution_begun :: "conn_note list \<Rightarrow> bool" where
  "resolution_begun ns \<longleftrightarrow> list_ex (\<lambda>n. case n of NoteResolveStart _ \<Rightarrow> True | _ \<Rightarrow> False) ns"

definition resolution_ok :: "conn_note list \<Rightarrow> bool" where
  "resolution_ok ns = fold (\<lambda>n b. case n of NoteResolveDone ok _ \<Rightarrow> ok | _ \<Rightarrow> b) ns False"

definition connection_got :: "conn_note list \<Rightarrow> bool" where
  "connection_got ns \<longleftrightarrow> list_ex (\<lambda>n. case n of NoteGotConn _ _ \<Rightarrow> True | _ \<Rightarrow> False) ns"

definition call_cause :: "conn_note list \<Rightarrow> bool \<Rightarrow> string" where
  "call_cause ns timed_out =
     (if resolution_begun ns \<and> \<not> resolution_ok ns then ''resolve''
      else if \<not> connection_got ns then ''connect''
      else if timed_out then ''timeout'' else ''connect'')"

lemma take_note_open: "rclosed (take_note n r) = rclosed r"
  by (cases n) (simp_all add: rec_update_def)

lemma take_notes_open: "rclosed (fold take_note ns r) = rclosed r"
  by (induction ns arbitrary: r) (simp_all add: take_note_open)

lemma take_notes_failure: "Failure (rtrace (fold take_note ns r)) = Failure (rtrace r)"
proof (induction ns arbitrary: r)
  case (Cons n ns)
  have "Failure (rtrace (take_note n r)) = Failure (rtrace r)" by (cases n) (simp_all add: rec_update_def)
  with Cons show ?case by simp
qed simp

lemma take_notes_state:
  assumes "\<not> rclosed r"
  shows "resolveStartedAt (fold take_note ns r) \<noteq> None \<longleftrightarrow> resolveStartedAt r \<noteq> None \<or> resolution_begun ns"
    and "resolveOK (fold take_note ns r) = fold (\<lambda>n b. case n of NoteResolveDone ok _ \<Rightarrow> ok | _ \<Rightarrow> b) ns (resolveOK r)"
    and "gotConn (fold take_note ns r) \<longleftrightarrow> gotConn r \<or> connection_got ns"
proof -
  have "(resolveStartedAt (fold take_note ns r) \<noteq> None \<longleftrightarrow> resolveStartedAt r \<noteq> None \<or> resolution_begun ns)
     \<and> resolveOK (fold take_note ns r) = fold (\<lambda>n b. case n of NoteResolveDone ok _ \<Rightarrow> ok | _ \<Rightarrow> b) ns (resolveOK r)
     \<and> (gotConn (fold take_note ns r) \<longleftrightarrow> gotConn r \<or> connection_got ns)"
    using assms
  proof (induction ns arbitrary: r)
    case (Cons n ns)
    have "\<not> rclosed (take_note n r)" using Cons.prems by (simp add: take_note_open)
    from Cons.IH[OF this] Cons.prems show ?case
      by (cases n) (simp_all add: rec_update_def resolution_begun_def connection_got_def)
  qed (simp add: resolution_begun_def connection_got_def)
  then show "resolveStartedAt (fold take_note ns r) \<noteq> None \<longleftrightarrow> resolveStartedAt r \<noteq> None \<or> resolution_begun ns"
    "resolveOK (fold take_note ns r) = fold (\<lambda>n b. case n of NoteResolveDone ok _ \<Rightarrow> ok | _ \<Rightarrow> b) ns (resolveOK r)"
    "gotConn (fold take_note ns r) \<longleftrightarrow> gotConn r \<or> connection_got ns" by blast+
qed

lemma finish_call_cause:
  "finish_cause (Some err) False (fold take_note ns (traceRequest t new_recorder)) = call_cause ns (isTimeout err)"
proof -
  have "\<not> rclosed (traceRequest t new_recorder)" by (simp add: traceRequest_def new_recorder_def)
  note st = take_notes_state[OF this, of ns]
  show ?thesis
    by (simp only: finish_cause_def st option.simps if_False)
       (simp add: traceRequest_def new_recorder_def call_cause_def resolution_ok_def)
qed

lemma finish_ok_cause:
  "finish_cause None False (fold take_note ns (traceRequest t new_recorder)) = []"
  by (simp add: finish_cause_def take_notes_failure) (simp add: traceRequest_def new_recorder_def zero_trace_def)

lemma finish_Failure: "Failure (fst (rec_finish t callErr unreadable r)) = finish_cause callErr unreadable r"
  by (simp add: rec_finish_def Let_def)

lemma channel_reply:
  "postExecutionPaused io ev = (reply, tr, err) \<Longrightarrow> reply \<noteq> None \<longleftrightarrow> err = None"
  by (simp add: postExecutionPaused_def Let_def split: if_splits response.splits option.splits)
     (auto, metis option.exhaust)

interpretation late: invariant_steps "\<lambda>r :: connRecorder. rclosed r \<and> rtrace r = tr" take_note for tr
proof unfold_locales
  fix r :: connRecorder and n assume "rclosed r \<and> rtrace r = tr"
  then show "rclosed (take_note n r) \<and> rtrace (take_note n r) = tr"
    by (cases n) (simp_all add: rec_update_def)
qed

section \<open>The address cache\<close>

text \<open>The operations on the shared cache in any order: a resolution that succeeded for a name
  with a port, a failed connection, and the start and end of a background resolution.\<close>

datatype cache_op = CacheResolved string string | CacheFailed string | CacheStart string | CacheEnd

fun cache_step :: "cache_op \<Rightarrow> addrCache \<Rightarrow> addrCache" where
  "cache_step (CacheResolved hp ip) c = (case SplitHostPort hp of
     Some (_, port) \<Rightarrow> cache_set hp (JoinHostPort ip port) c | None \<Rightarrow> c)"
| "cache_step (CacheFailed hp) c = cache_forget hp c"
| "cache_step (CacheStart hp) c = snd (resolveAsync hp c)"
| "cache_step CacheEnd c = c\<lparr>resolving := False\<rparr>"

definition cache_sound :: "addrCache \<Rightarrow> bool" where
  "cache_sound c \<longleftrightarrow> ipport c = [] \<or>
     (\<exists>name port ip. SplitHostPort (chostport c) = Some (name, port) \<and> ipport c = JoinHostPort ip port)"

interpretation cache: invariant_steps cache_sound cache_step
proof unfold_locales
  fix c x assume "cache_sound c"
  then show "cache_sound (cache_step x c)"
    by (cases x) (auto simp: cache_sound_def cache_set_def cache_forget_def resolveAsync_def split: option.splits)
qed

section \<open>Bounded attempts\<close>

lemma resolve_loop_count:
  "0 < n \<Longrightarrow> resolve_loop lk n k = (r, m) \<Longrightarrow> k < m \<and> m \<le> k + n"
proof (induction n arbitrary: k)
  case (Suc n)
  have "resolve_loop lk n (Suc k) = (r, m) \<Longrightarrow> 0 < n \<Longrightarrow> k < m \<and> m \<le> k + Suc n"
    using Suc.IH[of "Suc k"] by simp
  with Suc.prems show ?case by (auto split: option.splits if_splits)
qed simp

lemma resolve_loop_cong:
  "(\<And>i. k \<le> i \<Longrightarrow> i < k + n \<Longrightarrow> lk i = lk' i) \<Longrightarrow> resolve_loop lk n k = resolve_loop lk' n k"
proof (induction n arbitrary: k)
  case (Suc n)
  have "lk k = lk' k" using Suc.prems by simp
  moreover have "resolve_loop lk n (Suc k) = resolve_loop lk' n (Suc k)" using Suc by simp
  ultimately show ?case by (simp split: option.split)
qed simp

lemma async_loop_waits:
  assumes "0 < backoffMax" "backoffMax < 2 ^ 62"
  shows "0 < wait \<Longrightarrow> wait \<le> backoffMax \<Longrightarrow> async_loop lk backoffMax n k wait = (ws, r) \<Longrightarrow>
     length ws \<le> n - 1 \<and> (\<forall>w \<in> set ws. 0 < w \<and> w \<le> backoffMax)"
proof (induction n arbitrary: k wait ws r)
  case (Suc n)
  have "in_i64 (wait * 2)" using Suc.prems(1,2) assms by (auto simp: in_i64_def)
  then have d: "0 < (if backoffMax < i64 (wait * 2) then backoffMax else i64 (wait * 2))"
    "(if backoffMax < i64 (wait * 2) then backoffMax else i64 (wait * 2)) \<le> backoffMax"
    using Suc.prems(1) assms by auto
  obtain ws' r' where a: "async_loop lk backoffMax n (Suc k) (if backoffMax < i64 (wait * 2) then backoffMax else i64 (wait * 2)) = (ws', r')"
    by fastforce
  from Suc.IH[OF d a] Suc.prems a show ?case
    by (auto simp: Let_def split: option.splits if_splits)
qed simp

interpretation killed: bounded_delivery "\<lambda>s. 200 \<le> s \<and> s < 300" killed_loop
  by unfold_locales (auto simp: refused_def)


section \<open>Properties of the channel\<close>

text \<open>The cause recorded for a pause call. A command is returned exactly when there is no
  error, and then no cause is recorded; an answer that cannot be decoded is
  \<^verbatim>\<open>unreadable_response\<close>; a call that failed or timed out is put down to the resolution when
  one was begun and did not succeed, to the connection when none was obtained, to the time limit
  when it expired afterwards. An event that cannot even be sent (not finite, or a bad URL) is an
  error with no cause.\<close>

theorem channel_failure_cause:
  "case postExecutionPaused io event of (command, trace, err) \<Rightarrow>
     (command \<noteq> None \<longleftrightarrow> err = None) \<and>
     Failure trace = (case err of
         None \<Rightarrow> [] | Some EMarshal \<Rightarrow> [] | Some EBuild \<Rightarrow> []
       | Some EDecode \<Rightarrow> ''unreadable_response''
       | Some ERead \<Rightarrow> call_cause (pi_notes io) True
       | Some EPost \<Rightarrow> call_cause (pi_notes io) (case pi_response io of CallFailed e \<Rightarrow> isTimeout e | _ \<Rightarrow> False))"
proof -
  have 0: "finish_cause None False new_recorder = []"
    using finish_ok_cause[of "[]" 0] by (simp add: traceRequest_def new_recorder_def)
  have 1: "finish_cause (Some e) True r = ''unreadable_response''" for e r
    by (simp add: finish_cause_def)
  show ?thesis
    by (simp add: postExecutionPaused_def Let_def finish_Failure 0 1 finish_call_cause finish_ok_cause
          split: response.split option.split)
qed

text \<open>Once a call has returned, a connection that goes on opening in the background writes
  nothing more into the call's record.\<close>

theorem late_notes_ignored:
  assumes "rec_finish t callErr unreadable r = (trace, r')"
  shows "rtrace (fold take_note ns r') = trace"
  using late.run_keeps[of r' trace ns] assms by (auto simp: rec_finish_def Let_def)

text \<open>No name is resolved on the path of a pause event while an address is cached: the cached
  address is dialled, whatever the resolver would answer, no resolution is noted, and when the
  connection fails the address is forgotten and resolved again in the background (unless that is
  already under way or the name is an address).\<close>

theorem cached_address_dialled:
  assumes "cache_get addr c \<noteq> []"
  shows "schedulerDialContext h io addr c = schedulerDialContext h (io\<lparr>di_lookup := lk\<rparr>) addr c
       \<and> dr_target (schedulerDialContext h io addr c) = Some (cache_get addr c)
       \<and> \<not> resolution_begun (dr_notes (schedulerDialContext h io addr c))
       \<and> dr_ok (schedulerDialContext h io addr c) = di_connect io
       \<and> (\<not> di_connect io \<longrightarrow> cache_get addr (dr_cache (schedulerDialContext h io addr c)) = []
            \<and> dr_async (schedulerDialContext h io addr c) = fst (resolveAsync addr (cache_forget addr c)))"
proof -
  have "cache_get addr (snd (resolveAsync addr (cache_forget addr c))) = []"
    by (auto simp: resolveAsync_def cache_get_def cache_forget_def split: option.split)
  then show ?thesis
    using assms
    by (auto simp: schedulerDialContext_def Let_def resolution_begun_def split: prod.split)
qed

text \<open>Without a cached address the name is looked up in place at least once and at most the
  configured number of times, and only those lookups matter; the address that answered is cached
  when, and only when, the connection to it opened.\<close>

theorem in_place_resolution_bounded:
  assumes "cache_get addr c = []" "SplitHostPort addr = Some (name, port)" "\<not> is_IP name"
  shows "(\<exists>r m. resolve_loop (di_lookup io) (nat (schedulerAddressResolveMaxAttempts h)) 0 = (r, m)
            \<and> 1 \<le> m \<and> int m \<le> schedulerAddressResolveMaxAttempts h)
       \<and> (\<forall>lk. (\<forall>i < nat (schedulerAddressResolveMaxAttempts h). lk i = di_lookup io i) \<longrightarrow>
            schedulerDialContext h (io\<lparr>di_lookup := lk\<rparr>) addr c = schedulerDialContext h io addr c)
       \<and> (dr_cache (schedulerDialContext h io addr c) \<noteq> c \<longrightarrow> dr_ok (schedulerDialContext h io addr c)
            \<and> Some (cache_get addr (dr_cache (schedulerDialContext h io addr c))) = dr_target (schedulerDialContext h io addr c))"
proof -
  let ?n = "nat (schedulerAddressResolveMaxAttempts h)"
  have n: "0 < ?n" by (simp add: schedulerAddressResolveMaxAttempts_def positiveIntEnv_pos)
  obtain r m where rm: "resolve_loop (di_lookup io) ?n 0 = (r, m)" by fastforce
  have "1 \<le> m" "int m \<le> schedulerAddressResolveMaxAttempts h"
    using resolve_loop_count[OF n rm] by auto
  moreover have "schedulerDialContext h (io\<lparr>di_lookup := lk\<rparr>) addr c = schedulerDialContext h io addr c"
    if "\<forall>i < ?n. lk i = di_lookup io i" for lk
    using resolve_loop_cong[of 0 ?n lk "di_lookup io"] that assms
    by (simp add: schedulerDialContext_def Let_def split: prod.split option.split)
  moreover have "dr_cache (schedulerDialContext h io addr c) \<noteq> c \<longrightarrow> dr_ok (schedulerDialContext h io addr c)
      \<and> Some (cache_get addr (dr_cache (schedulerDialContext h io addr c))) = dr_target (schedulerDialContext h io addr c)"
    using assms rm by (auto simp: schedulerDialContext_def Let_def cache_get_def cache_set_def split: option.splits)
  ultimately show ?thesis using rm by blast
qed

text \<open>Whatever resolutions, failures and background resolutions interleave, a cached address
  has the port of the name it is cached for.\<close>

theorem cache_keeps_port:
  assumes "cache_get hp (fold cache_step ops \<lparr>chostport = [], ipport = [], resolving = False\<rparr>) \<noteq> []"
  shows "\<exists>name port ip. SplitHostPort hp = Some (name, port) \<and>
     cache_get hp (fold cache_step ops \<lparr>chostport = [], ipport = [], resolving = False\<rparr>) = JoinHostPort ip port"
proof -
  have "cache_sound (fold cache_step ops \<lparr>chostport = [], ipport = [], resolving = False\<rparr>)"
    by (rule cache.run_keeps) (simp add: cache_sound_def)
  with assms show ?thesis by (auto simp: cache_sound_def cache_get_def split: if_splits)
qed

text \<open>The background resolution makes at most the configured number of attempts, waits
  between zero and the configured cap between two of them, and ends: the flag that keeps a second
  one from starting is always cleared.\<close>

theorem background_resolution_bounded:
  assumes "schedulerAddressResolveBackoffBase h \<le> schedulerAddressResolveBackoffMax h"
    and "0 < schedulerAddressResolveBackoffBase h" "schedulerAddressResolveBackoffMax h < 2 ^ 62"
    and "resolve_goroutine h hp looked c = (ws, c')"
  shows "int (length ws) < schedulerAddressResolveMaxAttempts h
       \<and> (\<forall>w \<in> set ws. 0 < w \<and> w \<le> schedulerAddressResolveBackoffMax h) \<and> \<not> resolving c'"
proof -
  obtain r where a: "async_loop looked (schedulerAddressResolveBackoffMax h)
     (nat (schedulerAddressResolveMaxAttempts h)) 0 (schedulerAddressResolveBackoffBase h) = (ws, r)" and "\<not> resolving c'"
    using assms(4) by (auto simp: resolve_goroutine_def split: prod.splits option.splits)
  moreover have "0 < schedulerAddressResolveMaxAttempts h"
    by (simp add: schedulerAddressResolveMaxAttempts_def positiveIntEnv_pos)
  ultimately show ?thesis
    using async_loop_waits[OF _ assms(3,2,1) a] assms(1,2) by auto
qed

text \<open>C32: \<^verbatim>\<open>EXECUTION_KILLED\<close> is posted at most the configured number of times, with waits
  that double; it counts as delivered exactly when some attempt got a 2xx answer before any 4xx,
  and otherwise, and only then, the safety incident is raised. The incident always carries the
  configured maximum, also when a refusal ended the attempts early.\<close>

theorem execution_killed_delivery:
  assumes "postExecutionKilled h resp True = (fx, incident)"
  shows "int (posts fx) \<le> executionKilledMaxAttempts h
       \<and> fx = concat (map (before_attempt (executionKilledBackoffBase h)) [0..<posts fx])
       \<and> (incident = None \<longleftrightarrow> (\<exists>i. int i < executionKilledMaxAttempts h \<and> killed.accepted (resp i)
              \<and> (\<forall>j < i. \<not> killed.decisive (resp j))))
       \<and> (\<forall>a l. incident = Some (a, l) \<longrightarrow> a = executionKilledMaxAttempts h)"
proof -
  let ?n = "nat (executionKilledMaxAttempts h)"
  have n: "0 < executionKilledMaxAttempts h"
    unfolding executionKilledMaxAttempts_def by (rule env_int_ok) simp
  obtain d l where k: "killed_loop resp (executionKilledBackoffBase h) ?n 0 ''none'' = (d, fx, l)"
    and i: "incident = (if d then None else Some (executionKilledMaxAttempts h, l))"
    using assms by (auto simp: postExecutionKilled_def Let_def split: prod.splits bool.splits)
  have "int j < executionKilledMaxAttempts h \<longleftrightarrow> j < ?n" for j using n by auto
  with killed.outcome(1-3)[OF k] i n show ?thesis by auto
qed

section \<open>Concrete calls\<close>

definition pool_cache :: addrCache where
  "pool_cache = \<lparr>chostport = ''sched:5000'', ipport = ''10.0.0.7:5000'', resolving = False\<rparr>"

definition quiet_host :: host where
  "quiet_host = \<lparr>getenv = (\<lambda>_. []), files = (\<lambda>_. None), now = 0\<rparr>"

definition dead_dial :: dial_io where
  "dead_dial = \<lparr>di_lookup = (\<lambda>k. (if k = 0 then None else Some [''::1'', ''10.0.0.9''], False)), di_connect = False,
     di_resolve_start = 1, di_resolve_done = 5, di_connect_start = 5, di_connect_done = 9\<rparr>"

theorem late_notes_ignored_witness:
  "rtrace (fold take_note [NoteConnectDone 99, NoteGotConn False 99] (snd (rec_finish 7 None False new_recorder)))
     = fst (rec_finish 7 None False new_recorder)"
  by (rule late_notes_ignored[of 7 None False new_recorder]) simp

theorem cached_address_dialled_witness:
  "dr_target (schedulerDialContext quiet_host dead_dial ''sched:5000'' pool_cache) = Some ''10.0.0.7:5000''
   \<and> cache_get ''sched:5000'' (dr_cache (schedulerDialContext quiet_host dead_dial ''sched:5000'' pool_cache)) = []"
  using cached_address_dialled[of "''sched:5000''" pool_cache quiet_host dead_dial]
  by (simp add: pool_cache_def cache_get_def dead_dial_def)

theorem in_place_resolution_bounded_witness:
  "dr_target (schedulerDialContext quiet_host (dead_dial\<lparr>di_connect := True\<rparr>) ''sched:5000'' (cache_forget ''sched:5000'' pool_cache)) = Some ''10.0.0.9:5000''
   \<and> cache_get ''sched:5000'' (dr_cache (schedulerDialContext quiet_host (dead_dial\<lparr>di_connect := True\<rparr>) ''sched:5000'' (cache_forget ''sched:5000'' pool_cache))) = ''10.0.0.9:5000''"
proof -
  let ?d = "schedulerDialContext quiet_host (dead_dial\<lparr>di_connect := True\<rparr>) ''sched:5000'' (cache_forget ''sched:5000'' pool_cache)"
  have 1: "cache_get ''sched:5000'' (cache_forget ''sched:5000'' pool_cache) = []" by code_simp
  have 2: "SplitHostPort ''sched:5000'' = Some (''sched'', ''5000'')" by code_simp
  have 3: "\<not> is_IP ''sched''" by code_simp
  have 4: "dr_target ?d = Some ''10.0.0.9:5000''" by code_simp
  have 5: "ipport (dr_cache ?d) \<noteq> ipport (cache_forget ''sched:5000'' pool_cache)" by code_simp
  then have "dr_cache ?d \<noteq> cache_forget ''sched:5000'' pool_cache" by auto
  then show ?thesis
    using in_place_resolution_bounded[OF 1 2 3, of "dead_dial\<lparr>di_connect := True\<rparr>" quiet_host] 4 by simp
qed

theorem cache_keeps_port_witness:
  "\<exists>name port ip. SplitHostPort ''sched:5000'' = Some (name, port) \<and>
     cache_get ''sched:5000'' (fold cache_step [CacheStart ''sched:5000'', CacheResolved ''sched:5000'' ''::1'', CacheEnd]
       \<lparr>chostport = [], ipport = [], resolving = False\<rparr>) = JoinHostPort ip port"
proof (rule cache_keeps_port)
  show "cache_get ''sched:5000'' (fold cache_step [CacheStart ''sched:5000'', CacheResolved ''sched:5000'' ''::1'', CacheEnd]
       \<lparr>chostport = [], ipport = [], resolving = False\<rparr>) \<noteq> []" by code_simp
qed

theorem background_resolution_bounded_witness:
  "int (length (fst (resolve_goroutine quiet_host ''sched:5000'' (\<lambda>k. if k < 3 then None else Some [''10.0.0.9'']) pool_cache))) < 8"
proof -
  let ?g = "resolve_goroutine quiet_host ''sched:5000'' (\<lambda>k. if k < 3 then None else Some [''10.0.0.9'']) pool_cache"
  have 1: "schedulerAddressResolveBackoffBase quiet_host = 200000000"
    "schedulerAddressResolveBackoffMax quiet_host = 5000000000"
    "schedulerAddressResolveMaxAttempts quiet_host = 8" by code_simp+
  have "?g = (fst ?g, snd ?g)" by simp
  from background_resolution_bounded[OF _ _ _ this] show ?thesis by (simp add: 1)
qed

theorem execution_killed_delivery_witness:
  "postExecutionKilled quiet_host (\<lambda>k. if k = 0 then SendFailed ''refused'' else Status 404) True
     = ([Posted, Slept 200000000, Posted], Some (5, ''HTTP 404''))
   \<and> int (posts [Posted, Slept 200000000, Posted]) \<le> executionKilledMaxAttempts quiet_host
   \<and> 5 = executionKilledMaxAttempts quiet_host"
proof -
  have "itoa 404 = ''404''"
    by (simp add: itoa_def nat_digits.simps digit_char_def) code_simp
  then have "postExecutionKilled quiet_host (\<lambda>k. if k = 0 then SendFailed ''refused'' else Status 404) True
     = ([Posted, Slept 200000000, Posted], Some (5, ''HTTP 404''))"
    by (simp add: postExecutionKilled_def executionKilledMaxAttempts_def executionKilledBackoffBase_def env_int_def
          quiet_host_def millis_def in_i64_def before_attempt_def backoff_def http_text_def eval_nat_numeral)
  from this execution_killed_delivery[OF this] show ?thesis by simp
qed

end
