(* ===== verification/Monitor.thy ===== *)
theory Monitor
  imports Segments Freezer Channel
begin

text \<open>
  \<^verbatim>\<open>src/openwhisk/energyMonitor.go\<close>, with the record types of
  \<^verbatim>\<open>metricHandler.go\<close> it fills: the monitor samples the energy of a step, and at its threshold
  kills the step or runs a pause cycle (freeze, tell the scheduler, obey its command).

  The monitor runs in its own goroutine and is the only one to touch the controller, the meter,
  the marks and its result while it runs; these are its state \<open>mon\<close>, with the trace of what it
  did. What it meets is given in advance: the host at each reading, the clock, how each cgroup
  operation goes, what each call of the scheduler returns. The rounds of a pause cycle are a list;
  a cycle whose list is used up, or whose controller does not return, is still \<open>Waiting\<close>.
  Log lines are left out, except the structured safety incidents.
\<close>

section \<open>Records\<close>

record PauseCycle =
  pcPauseID :: string
  ThresholdDetectedAt :: f64
  EnergyAtThresholdJ :: f64
  FreezeRequestedAt :: f64
  FreezeEffectiveAt :: f64
  EnergyAtEffectiveFreezeJ :: f64
  pcExecutionThresholdJ :: f64
  CommandRoundtripNs :: int
  ConnReused :: bool
  ConnSetupNs :: int
  ChannelTraced :: bool
  ChannelDNSNs :: int
  ChannelConnectNs :: int
  ChannelCachedAddr :: bool
  ChannelFailure :: string
  ResumeRequestedAt :: f64
  ResumeEffectiveAt :: f64
  EnergyAtResumeEffectiveJ :: f64
  CPUUsecWhileFrozen :: "int option"
  Outcome :: string

record Lifecycle =
  MonitorSamples :: int
  MonitorBusyNs :: int
  SidecarExtractNs :: int
  SidecarInjectNs :: int
  SidecarStateBytes :: int
  KillRequestedAt :: f64
  ProcessStoppedAt :: f64
  KillCause :: string
  Cycles :: "PauseCycle list"

definition zero_lifecycle :: Lifecycle where
  "zero_lifecycle = \<lparr>MonitorSamples = 0, MonitorBusyNs = 0, SidecarExtractNs = 0, SidecarInjectNs = 0,
     SidecarStateBytes = 0, KillRequestedAt = Fin 0, ProcessStoppedAt = Fin 0, KillCause = [], Cycles = []\<rparr>"

record EnergyKillInfo =
  ki_EnergyConsumedJ :: f64
  ki_PauseID :: string

record energyMonitorResult =
  mr_killed :: bool
  mr_consumedJ :: f64
  mr_pauseID :: string
  mr_thresholdJ :: f64
  thresholdUpdated :: bool
  mr_lifecycle :: Lifecycle

definition new_result :: energyMonitorResult where
  "new_result = \<lparr>mr_killed = False, mr_consumedJ = Fin 0, mr_pauseID = [], mr_thresholdJ = Fin 0,
     thresholdUpdated = False, mr_lifecycle = zero_lifecycle\<rparr>"

section \<open>The monitor's result\<close>

definition energyMonitorInterval :: "host \<Rightarrow> int" where
  "energyMonitorInterval h = millis (env_int (\<lambda>parsed. 0 < parsed) h ''ENERGY_MONITOR_INTERVAL_MS'' 100)"

text \<open>Seconds since the epoch: \<^verbatim>\<open>float64(t.UnixNano()) / 1e9\<close>.\<close>

definition unix_seconds :: "int \<Rightarrow> f64" where
  "unix_seconds nanos = f_div (f_of_int nanos) (f_of_int 1000000000)"

definition setKilled :: "f64 \<Rightarrow> string \<Rightarrow> energyMonitorResult \<Rightarrow> energyMonitorResult" where
  "setKilled consumedJ pauseID r = r\<lparr>mr_killed := True, mr_consumedJ := consumedJ, mr_pauseID := pauseID\<rparr>"

definition setThreshold :: "f64 \<Rightarrow> energyMonitorResult \<Rightarrow> energyMonitorResult" where
  "setThreshold thresholdJ r = r\<lparr>mr_thresholdJ := thresholdJ, thresholdUpdated := True\<rparr>"

definition finalThreshold :: "energyMonitorResult \<Rightarrow> f64 \<times> bool" where
  "finalThreshold r = (mr_thresholdJ r, thresholdUpdated r)"

definition noteSample :: "int \<Rightarrow> energyMonitorResult \<Rightarrow> energyMonitorResult" where
  "noteSample busy r = r\<lparr>mr_lifecycle := (mr_lifecycle r)\<lparr>
     MonitorSamples := i64 (MonitorSamples (mr_lifecycle r) + 1),
     MonitorBusyNs := i64 (MonitorBusyNs (mr_lifecycle r) + busy)\<rparr>\<rparr>"

definition addCycle :: "PauseCycle \<Rightarrow> energyMonitorResult \<Rightarrow> energyMonitorResult" where
  "addCycle c r = r\<lparr>mr_lifecycle := (mr_lifecycle r)\<lparr>Cycles := Cycles (mr_lifecycle r) @ [c]\<rparr>\<rparr>"

definition noteKill :: "int \<Rightarrow> int \<Rightarrow> string \<Rightarrow> energyMonitorResult \<Rightarrow> energyMonitorResult" where
  "noteKill requestedAt stoppedAt cause r = r\<lparr>mr_lifecycle := (mr_lifecycle r)\<lparr>
     KillRequestedAt := unix_seconds requestedAt, ProcessStoppedAt := unix_seconds stoppedAt, KillCause := cause\<rparr>\<rparr>"

definition snapshotLifecycle :: "energyMonitorResult \<Rightarrow> Lifecycle option" where
  "snapshotLifecycle r = (let l = mr_lifecycle r in
     if MonitorSamples l = 0 \<and> Cycles l = [] \<and> KillRequestedAt l = Fin 0 then None else Some l)"

definition result_get :: "energyMonitorResult \<Rightarrow> bool \<times> f64 \<times> string" where
  "result_get r = (mr_killed r, mr_consumedJ r, mr_pauseID r)"

section \<open>Whether a step may be interrupted\<close>

definition shortActionName :: "string \<Rightarrow> string" where
  "shortActionName qualified = after_last (CHR ''/'') qualified"

definition isNonInterruptibleForThisStep :: "EnergyState option \<Rightarrow> bool" where
  "isNonInterruptibleForThisStep energy = (case energy of
       None \<Rightarrow> False
     | Some st \<Rightarrow> (case InterruptionClass st of
           None \<Rightarrow> False
         | Some m \<Rightarrow>
             if ResolvedActionName st = [] then True
             else (case map_of m (ResolvedActionName st) of
                 None \<Rightarrow> False
               | Some class \<Rightarrow> class = ''UNKILLABLE'')))"

definition interruptionClassUnresolved :: "EnergyState option \<Rightarrow> bool" where
  "interruptionClassUnresolved energy \<longleftrightarrow> (case energy of
       None \<Rightarrow> False | Some st \<Rightarrow> InterruptionClass st \<noteq> None \<and> ResolvedActionName st = [])"

definition unkillableRepollInterval :: "host \<Rightarrow> int" where
  "unkillableRepollInterval h = millis (env_int (\<lambda>parsed. 0 < parsed) h ''UNKILLABLE_REPOLL_INTERVAL_MS'' 1000)"

text \<open>The second result is whether the unresolved class is logged.\<close>

definition shouldMonitorEnergy :: "EnergyState option \<Rightarrow> bool \<times> bool" where
  "shouldMonitorEnergy energy = (case energy of
       None \<Rightarrow> (False, False)
     | Some st \<Rightarrow>
         if f_le (ExecutionThresholdJ st) (Fin 0) then (False, False)
         else if interruptionClassUnresolved energy then (False, True)
         else (True, False))"

section \<open>The monitor's state and what it meets\<close>

text \<open>What the monitor did, in order. A kill or resume is noted when it is asked for; the cgroup
  writes it leads to follow.\<close>

datatype mon_effect =
    MFreeze string | MPost ExecutionPausedEvent | MResume string | MKill string
  | MCgroup cg_effect | MSafety string string | MSleep int

record mon =
  mctl :: ActivationController
  mmeter :: stepMeter
  mmarks :: freezeMarks
  mres :: energyMonitorResult
  mfx :: "mon_effect list"

datatype 'r run = Returned 'r mon | Waiting mon

definition emit :: "mon_effect list \<Rightarrow> mon \<Rightarrow> mon" where
  "emit fx m = m\<lparr>mfx := mfx m @ fx\<rparr>"

definition mpath :: "mon \<Rightarrow> string" where
  "mpath m = acPath (mctl m)"

definition mpid :: "mon \<Rightarrow> int" where
  "mpid m = ac_Pid (mctl m)"

text \<open>A kill: how it goes, and the clock before and after it.\<close>

record kill_io =
  k_io :: "cg_io \<times> reap"
  k_requested :: int
  k_stopped :: int

text \<open>One round of a pause cycle.\<close>

record round_io =
  rd_sent :: int
  rd_received :: int
  rd_call :: paused_io
  rd_frozen :: host
  rd_failed :: host
  rd_resume :: cg_io
  rd_resume_at :: int
  rd_resumed_at :: int
  rd_resumed :: host
  rd_kill :: kill_io

record cycle_io =
  cy_random :: "string option"
  cy_nano :: int
  cy_requested :: int
  cy_effective :: int
  cy_freeze :: cg_io
  cy_kill :: kill_io
  cy_frozen :: host
  cy_rounds :: "round_io list"

section \<open>The pause cycle\<close>

definition refineCycleWhileFrozen :: "rapl_cfg \<Rightarrow> host \<Rightarrow> f64 \<Rightarrow> PauseCycle \<times> mon \<Rightarrow> PauseCycle \<times> mon" where
  "refineCycleWhileFrozen c now_h consumedBeforeJ cm = (case cm of (cycle, m) \<Rightarrow>
     (case refineFrozenSegment c now_h (mpath m) (mpid m) (mmeter m, mmarks m) of
        (None, _) \<Rightarrow> (cycle, m)
      | (Some cpuUsec, meter, marks) \<Rightarrow>
          (cycle\<lparr>CPUUsecWhileFrozen := Some cpuUsec,
                 EnergyAtEffectiveFreezeJ := f_add consumedBeforeJ (closedJ meter)\<rparr>,
           m\<lparr>mmeter := meter, mmarks := marks\<rparr>)))"

definition kill_now :: "host \<Rightarrow> string \<Rightarrow> kill_io \<Rightarrow> string \<Rightarrow> mon \<Rightarrow> mon option \<times> mon" where
  "kill_now h pauseID k cause m =
     (let asked = emit [MKill pauseID] m in
      case killExecution h pauseID (k_io k) (mctl m) of
        None \<Rightarrow> (None, asked)
      | Some (err, fx, a) \<Rightarrow>
          (Some ((emit (map MCgroup fx) asked)\<lparr>mctl := a, mres := noteKill (k_requested k) (k_stopped k) cause (mres m)\<rparr>), asked))"

text \<open>How one round of the loop ends: it goes round again, the cycle returns (the new threshold,
  whether the step was killed, the pause), or the controller never returns.\<close>

datatype round_outcome =
    Again PauseCycle mon | Ended "f64 \<times> bool \<times> string" PauseCycle mon | Stuck mon

definition kill_and_end :: "host \<Rightarrow> string \<Rightarrow> kill_io \<Rightarrow> string \<Rightarrow> PauseCycle \<Rightarrow> mon \<Rightarrow> round_outcome" where
  "kill_and_end h pauseID k cause cycle m = (case kill_now h pauseID k cause m of
       (None, asked) \<Rightarrow> Stuck asked
     | (Some m', _) \<Rightarrow> Ended (Fin 0, True, pauseID) cycle m')"

text \<open>An unkillable step logs, sleeps and goes round again; any other step is refined and killed.\<close>

definition killOrRetry :: "host \<Rightarrow> rapl_cfg \<Rightarrow> EnergyState \<Rightarrow> string \<Rightarrow> host \<Rightarrow> kill_io \<Rightarrow> string \<Rightarrow> string
    \<Rightarrow> PauseCycle \<Rightarrow> mon \<Rightarrow> round_outcome" where
  "killOrRetry h c energy pauseID now_h k event severity cycle m =
     (if isNonInterruptibleForThisStep (Some energy)
      then Again cycle (emit [MSafety event severity, MSleep (unkillableRepollInterval h)] m)
      else (case refineCycleWhileFrozen c now_h (ConsumedBeforeJ energy) (cycle, m) of
              (cycle', m') \<Rightarrow> kill_and_end h pauseID k event cycle' m'))"

definition note_call :: "round_io \<Rightarrow> schedulerConnTrace \<Rightarrow> PauseCycle \<Rightarrow> PauseCycle" where
  "note_call rd tr cycle = cycle\<lparr>
     CommandRoundtripNs := rd_received rd - rd_sent rd,
     ConnReused := Reused tr, ConnSetupNs := SetupNs tr,
     ChannelTraced := True, ChannelDNSNs := DNSNs tr, ChannelConnectNs := ConnectNs tr,
     ChannelCachedAddr := CachedAddr tr,
     ChannelFailure := (if Failure tr \<noteq> [] then Failure tr else ChannelFailure cycle)\<rparr>"

text \<open>The branch of a matching \<^verbatim>\<open>RESUME_EXECUTION\<close>.\<close>

definition resume_round :: "host \<Rightarrow> rapl_cfg \<Rightarrow> EnergyState \<Rightarrow> string \<Rightarrow> round_io \<Rightarrow> f64 \<Rightarrow> PauseCycle \<Rightarrow> mon \<Rightarrow> round_outcome" where
  "resume_round h c energy pauseID rd newThresholdJ cycle m =
     (case refineCycleWhileFrozen c (rd_frozen rd) (ConsumedBeforeJ energy) (cycle, m) of (cycle1, m1) \<Rightarrow>
      let m2 = emit [MResume pauseID] m1 in
      case resumeExecution h pauseID (rd_resume rd) (mctl m2) of
        None \<Rightarrow> Stuck m2
      | Some (Some e, fx, a) \<Rightarrow>
          killOrRetry h c energy pauseID (rd_failed rd) (rd_kill rd) ''RESUME_FAILED'' ''critical''
            cycle1 ((emit (map MCgroup fx) m2)\<lparr>mctl := a\<rparr>)
      | Some (None, fx, a) \<Rightarrow>
          (let m3 = (emit (map MCgroup fx) m2)\<lparr>mctl := a\<rparr>;
               seg = snd (openSegmentAtResume (rd_resumed rd) (mpath m3) (mpid m3) (mmeter m3, mmarks m3));
               cycle2 = cycle1\<lparr>ResumeRequestedAt := unix_seconds (rd_resume_at rd),
                               ResumeEffectiveAt := unix_seconds (rd_resumed_at rd),
                               EnergyAtResumeEffectiveJ := EnergyAtEffectiveFreezeJ cycle1,
                               Outcome := ''resumed''\<rparr>
           in Ended (newThresholdJ, False, pauseID) cycle2 (m3\<lparr>mmeter := fst seg, mmarks := snd seg\<rparr>)))"

definition pause_round :: "host \<Rightarrow> rapl_cfg \<Rightarrow> EnergyState \<Rightarrow> string \<Rightarrow> ExecutionPausedEvent \<Rightarrow> round_io
    \<Rightarrow> PauseCycle \<Rightarrow> mon \<Rightarrow> round_outcome" where
  "pause_round h c energy pauseID event rd cycle0 m0 =
     (case postExecutionPaused (rd_call rd) event of (reply, tr, err) \<Rightarrow>
      let cycle = note_call rd tr cycle0;
          m = emit [MPost event] m0;
          retry = (\<lambda>ev severity. killOrRetry h c energy pauseID (rd_frozen rd) (rd_kill rd) ev severity cycle m)
      in case reply of
        None \<Rightarrow> retry ''PAUSE_CHANNEL_FAILED'' ''warning''
      | Some command \<Rightarrow>
          if sc_PauseID command \<noteq> pauseID then retry ''PAUSE_ID_MISMATCH'' ''warning''
          else if Command command = ''RESUME_EXECUTION''
          then resume_round h c energy pauseID rd (NewExecutionThresholdJ command) cycle m
          else if Command command = ''WAIT_EXECUTION'' then
            (if \<not> isNonInterruptibleForThisStep (Some energy) then retry ''UNEXPECTED_WAIT_COMMAND'' ''critical''
             else Again (cycle\<lparr>Outcome := ''queued_wait''\<rparr>) (emit [MSleep (unkillableRepollInterval h)] m))
          else if Command command = ''KILL_EXECUTION'' then
            (if isNonInterruptibleForThisStep (Some energy)
             then Again cycle (emit [MSafety ''KILL_EXECUTION_REFUSED_UNKILLABLE'' ''critical'',
                                     MSleep (unkillableRepollInterval h)] m)
             else (case refineCycleWhileFrozen c (rd_frozen rd) (ConsumedBeforeJ energy) (cycle, m) of
                     (cycle1, m1) \<Rightarrow> kill_and_end h pauseID (rd_kill rd)
                       (''SCHEDULER_COMMAND:'' @ sc_Reason command) cycle1 m1))
          else retry ''UNKNOWN_SCHEDULER_COMMAND'' ''warning'')"

text \<open>Every way out of the cycle appends its record.\<close>

definition end_cycle :: "f64 \<times> bool \<times> string \<Rightarrow> PauseCycle \<Rightarrow> mon \<Rightarrow> (f64 \<times> bool \<times> string) run" where
  "end_cycle r cycle m = Returned r (m\<lparr>mres := addCycle cycle (mres m)\<rparr>)"

fun pause_loop :: "host \<Rightarrow> rapl_cfg \<Rightarrow> EnergyState \<Rightarrow> string \<Rightarrow> ExecutionPausedEvent \<Rightarrow> round_io list
    \<Rightarrow> PauseCycle \<Rightarrow> mon \<Rightarrow> (f64 \<times> bool \<times> string) run" where
  "pause_loop h c energy pauseID event [] cycle m = Waiting m"
| "pause_loop h c energy pauseID event (rd # rds) cycle m =
     (case pause_round h c energy pauseID event rd cycle m of
        Again cycle' m' \<Rightarrow> pause_loop h c energy pauseID event rds cycle' m'
      | Ended r cycle' m' \<Rightarrow> end_cycle r cycle' m'
      | Stuck m' \<Rightarrow> Waiting m')"

definition new_cycle :: "string \<Rightarrow> int \<Rightarrow> f64 \<Rightarrow> f64 \<Rightarrow> PauseCycle" where
  "new_cycle pauseID detectedAt atThresholdJ thresholdJ =
     \<lparr>pcPauseID = pauseID, ThresholdDetectedAt = unix_seconds detectedAt, EnergyAtThresholdJ = atThresholdJ,
      FreezeRequestedAt = Fin 0, FreezeEffectiveAt = Fin 0, EnergyAtEffectiveFreezeJ = Fin 0,
      pcExecutionThresholdJ = thresholdJ, CommandRoundtripNs = 0, ConnReused = False, ConnSetupNs = 0,
      ChannelTraced = False, ChannelDNSNs = 0, ChannelConnectNs = 0, ChannelCachedAddr = False, ChannelFailure = [],
      ResumeRequestedAt = Fin 0, ResumeEffectiveAt = Fin 0, EnergyAtResumeEffectiveJ = Fin 0,
      CPUUsecWhileFrozen = None, Outcome = ''killed''\<rparr>"

definition paused_event :: "EnergyState \<Rightarrow> string \<Rightarrow> string \<Rightarrow> f64 \<Rightarrow> cycle_io \<Rightarrow> ExecutionPausedEvent" where
  "paused_event energy actionName pauseID consumedJ io =
     \<lparr>pe_Event = ''EXECUTION_PAUSED'', pe_TraceID = TraceID energy, pe_ReservationID = ReservationID energy,
      pe_PauseID = pauseID, pe_ActionName = actionName, pe_ExecutionPhase = ExecutionPhase energy,
      pe_EnergyConsumedJ = consumedJ,
      PauseRequestedAt = unix_seconds (cy_requested io), PauseEffectiveAt = unix_seconds (cy_effective io),
      FreezeLatencyMs = f_div (f_of_int (go_quot (cy_effective io - cy_requested io) 1000)) (f_of_int 1000)\<rparr>"

definition runPauseCycle :: "host \<Rightarrow> rapl_cfg \<Rightarrow> cycle_io \<Rightarrow> EnergyState \<Rightarrow> string \<Rightarrow> f64 \<Rightarrow> int \<Rightarrow> f64 \<Rightarrow> mon
    \<Rightarrow> (f64 \<times> bool \<times> string) run" where
  "runPauseCycle h c io energy actionName stepJ0 detectedAt atThresholdJ m0 =
     (let pauseID = newPauseID (cy_random io) (cy_nano io);
          cycle = new_cycle pauseID detectedAt atThresholdJ (ExecutionThresholdJ energy);
          m = emit [MFreeze pauseID] m0
      in case freezeExecution h pauseID (cy_freeze io) (mctl m) of
           None \<Rightarrow> Waiting m
         | Some (Some err, fx, a) \<Rightarrow>
             (let m1 = (emit (map MCgroup fx) m)\<lparr>mctl := a\<rparr> in
              if isNonInterruptibleForThisStep (Some energy)
              then end_cycle (ExecutionThresholdJ energy, False, pauseID) cycle
                     (emit [MSafety ''FREEZE_FAILED_UNKILLABLE'' ''critical''] m1)
              else (case kill_and_end h pauseID (cy_kill io) ''FREEZE_FAILED'' cycle m1 of
                  Ended r cycle' m' \<Rightarrow> end_cycle r cycle' m'
                | Again _ m' \<Rightarrow> Waiting m' | Stuck m' \<Rightarrow> Waiting m'))
         | Some (None, fx, a) \<Rightarrow>
             (let m1 = (emit (map MCgroup fx) m)\<lparr>mctl := a\<rparr>;
                  cycle1 = cycle\<lparr>FreezeRequestedAt := unix_seconds (cy_requested io),
                                 FreezeEffectiveAt := unix_seconds (cy_effective io)\<rparr>
              in case closeSegmentAtFreeze c (cy_frozen io) (mpath m1) (mpid m1) (mmeter m1, mmarks m1) of
                   (wasClosed, meter, marks) \<Rightarrow>
                     (let frozenStepJ = (if wasClosed then closedJ meter else stepJ0);
                          cycle2 = cycle1\<lparr>EnergyAtEffectiveFreezeJ := f_add (ConsumedBeforeJ energy) frozenStepJ\<rparr>
                      in pause_loop h c energy pauseID
                           (paused_event energy actionName pauseID (EnergyAtEffectiveFreezeJ cycle2) io)
                           (cy_rounds io) cycle2 (m1\<lparr>mmeter := meter, mmarks := marks\<rparr>))))"

section \<open>The monitoring loop\<close>

text \<open>One tick: the host as sampled, how long the sampling took, the clock when the threshold was
  seen, and how a kill or a pause cycle would go.\<close>

record tick_io =
  tk_host :: host
  tk_busy :: int
  tk_detected :: int
  tk_kill :: kill_io
  tk_cycle :: cycle_io

datatype mon_event = MonStop | MonTick tick_io

text \<open>The flag says whether the goroutine has returned; it has not when the events run out.\<close>

fun monitor_loop :: "host \<Rightarrow> rapl_cfg \<Rightarrow> EnergyState \<Rightarrow> mon_event list \<Rightarrow> mon \<Rightarrow> (bool \<times> EnergyState) run" where
  "monitor_loop h c energy [] m = Returned (False, energy) m"
| "monitor_loop h c energy (MonStop # evs) m = Returned (True, energy) m"
| "monitor_loop h c energy (MonTick tk # evs) m =
     (let sampled = m\<lparr>mres := noteSample (tk_busy tk) (mres m)\<rparr> in
      case readEnergy (tk_host tk) of
        (_, Some _) \<Rightarrow> monitor_loop h c energy evs sampled
      | (energyNow, None) \<Rightarrow>
          (let cpuNow = readCPUSnapshot (tk_host tk) (mpid m);
               step = stepJ c (mmeter m) energyNow cpuNow;
               total_j = f_add (ConsumedBeforeJ energy) step
           in if f_lt total_j (ExecutionThresholdJ energy) then monitor_loop h c energy evs sampled
              else if \<not> PauseEnabled energy then
                (if isNonInterruptibleForThisStep (Some energy)
                 then Returned (True, energy) (emit [MSafety ''LOCAL_KILL_REFUSED_UNKILLABLE'' ''critical''] sampled)
                 else (case kill_now h [] (tk_kill tk) ''THRESHOLD_NO_PAUSE'' sampled of
                     (None, asked) \<Rightarrow> Waiting asked
                   | (Some m', _) \<Rightarrow> Returned (True, energy) (m'\<lparr>mres := setKilled step [] (mres m')\<rparr>)))
              else (case runPauseCycle h c (tk_cycle tk) energy (ResolvedActionName energy) step (tk_detected tk) total_j sampled of
                  Waiting m' \<Rightarrow> Waiting m'
                | Returned (thr, killed, pauseID) m' \<Rightarrow>
                    if killed then
                      Returned (True, energy) (m'\<lparr>mres := setKilled
                        (if frozen (mmeter m') then closedJ (mmeter m') else step) pauseID (mres m')\<rparr>)
                    else monitor_loop h c (energy\<lparr>ExecutionThresholdJ := thr\<rparr>) evs
                           (m'\<lparr>mres := setThreshold thr (mres m')\<rparr>))))"

definition monitorEnergy :: "host \<Rightarrow> rapl_cfg \<Rightarrow> host \<Rightarrow> EnergyState \<Rightarrow> mon_event list \<Rightarrow> ActivationController
    \<Rightarrow> freezeMarks \<Rightarrow> (bool \<times> EnergyState) run" where
  "monitorEnergy h c start_h initialEnergy evs ctl marks =
     (let m0 = \<lparr>mctl = ctl, mmeter = newStepMeter 0 zero_snapshot, mmarks = marks, mres = new_result, mfx = []\<rparr> in
      case readEnergy start_h of
        (_, Some _) \<Rightarrow> Returned (True, initialEnergy) m0
      | (energyStart, None) \<Rightarrow>
          monitor_loop h c initialEnergy evs
            (m0\<lparr>mmeter := newStepMeter energyStart (readCPUSnapshot start_h (ac_Pid ctl))\<rparr>))"


section \<open>What the pieces of a cycle leave alone\<close>

fun outcome_mon :: "round_outcome \<Rightarrow> mon" where
  "outcome_mon (Again _ m) = m" | "outcome_mon (Ended _ _ m) = m" | "outcome_mon (Stuck m) = m"

fun run_mon :: "'r run \<Rightarrow> mon" where
  "run_mon (Returned _ m) = m" | "run_mon (Waiting m) = m"

abbreviation unkillable :: "EnergyState \<Rightarrow> bool" where
  "unkillable energy \<equiv> isNonInterruptibleForThisStep (Some energy)"

lemma emit_sel [simp]:
  "mctl (emit fx m) = mctl m" "mmeter (emit fx m) = mmeter m" "mmarks (emit fx m) = mmarks m"
  "mres (emit fx m) = mres m" "mfx (emit fx m) = mfx m @ fx"
  "mpath (emit fx m) = mpath m" "mpid (emit fx m) = mpid m"
  by (simp_all add: emit_def mpath_def mpid_def)

lemma refine_frame:
  assumes "refineCycleWhileFrozen c hh b (cy, m) = (cy', m')"
  shows "mctl m' = mctl m" "mres m' = mres m" "mfx m' = mfx m" "Outcome cy' = Outcome cy"
    "pcPauseID cy' = pcPauseID cy"
    "(mmeter m', mmarks m') = seg_event_step c (mpath m) (mpid m) (WhileFrozen hh) (mmeter m, mmarks m)"
    "frozen (mmeter m') = frozen (mmeter m)"
  using assms
  by (auto simp: refineCycleWhileFrozen_def refineFrozenSegment_def refineFrozenCPU_def Let_def
        split: prod.splits option.splits if_splits)

text \<open>Effects that kill: the request itself and the write to the cgroup.\<close>

fun kills :: "mon_effect \<Rightarrow> bool" where
  "kills (MKill _) = True"
| "kills (MCgroup (CgWrite file _)) = (file = ''cgroup.kill'')"
| "kills _ = False"

definition kill_free :: "mon_effect list \<Rightarrow> bool" where
  "kill_free fx \<longleftrightarrow> \<not> list_ex kills fx"

lemma kill_free_simps [simp]:
  "kill_free []" "kill_free (xs @ ys) \<longleftrightarrow> kill_free xs \<and> kill_free ys" "kill_free (x # xs) \<longleftrightarrow> \<not> kills x \<and> kill_free xs"
  by (simp_all add: kill_free_def)

lemma freeze_resume_kill_free:
  "freezeExecution h p io a = Some (err, fx, b) \<Longrightarrow> kill_free (map MCgroup fx)"
  "resumeExecution h p io a = Some (err, fx, b) \<Longrightarrow> kill_free (map MCgroup fx)"
  by (auto elim!: freezeExecution_cases resumeExecution_cases)

lemma note_call_sel [simp]: "Outcome (note_call rd tr cy) = Outcome cy" "pcPauseID (note_call rd tr cy) = pcPauseID cy"
  by (simp_all add: note_call_def)

section \<open>One round\<close>

text \<open>The segments of a step at two moments of the same freeze.\<close>

definition same_freeze :: "rapl_cfg \<Rightarrow> mon \<Rightarrow> mon \<Rightarrow> bool" where
  "same_freeze c m m' \<longleftrightarrow> frozen (mmeter m') = frozen (mmeter m) \<and>
     (\<forall>e0 s0. agree c e0 s0 (mmeter m) (mmarks m) \<longrightarrow> agree c e0 s0 (mmeter m') (mmarks m'))"

lemma same_freeze_refl [simp]: "same_freeze c m m"
  by (simp add: same_freeze_def)

lemma same_freeze_trans: "same_freeze c m m1 \<Longrightarrow> same_freeze c m1 m2 \<Longrightarrow> same_freeze c m m2"
  by (auto simp: same_freeze_def)

lemma same_freeze_eq: "mmeter m' = mmeter m \<Longrightarrow> mmarks m' = mmarks m \<Longrightarrow> same_freeze c m m'"
  by (simp add: same_freeze_def)

text \<open>The cycle's identity, and its outcome.\<close>

definition same_cycle :: "PauseCycle \<Rightarrow> PauseCycle \<Rightarrow> bool" where
  "same_cycle cy cy' \<longleftrightarrow> pcPauseID cy' = pcPauseID cy \<and> Outcome cy' = Outcome cy"

lemma same_cycle_note [simp]: "same_cycle cy (note_call rd tr cy)"
  by (simp add: same_cycle_def)

lemma refine_facts:
  assumes "refineCycleWhileFrozen c hh b (cy, m) = (cy', m')"
  shows "mctl m' = mctl m" "mres m' = mres m" "mfx m' = mfx m" "same_cycle cy cy'" "same_freeze c m m'"
proof -
  note fr = refine_frame[OF assms]
  show "mctl m' = mctl m" "mres m' = mres m" "mfx m' = mfx m" "same_cycle cy cy'"
    using fr(1-5) by (auto simp: same_cycle_def)
  show "same_freeze c m m'"
    using fr(6,7) agree_event[of c _ _ "mmeter m" "mmarks m" "WhileFrozen hh" "mpath m" "mpid m" "mmeter m'" "mmarks m'"]
    unfolding same_freeze_def by auto
qed

text \<open>Leaving a cycle by a kill, from the state in which it was decided.\<close>

definition killed_end :: "rapl_cfg \<Rightarrow> string \<Rightarrow> string \<Rightarrow> PauseCycle \<Rightarrow> mon \<Rightarrow> round_outcome \<Rightarrow> bool" where
  "killed_end c p cause cy m out \<longleftrightarrow> (case out of
       Again _ _ \<Rightarrow> False
     | Stuck m' \<Rightarrow> same_freeze c m m' \<and> mres m' = mres m
     | Ended r cy' m' \<Rightarrow> r = (Fin 0, True, p) \<and> same_cycle cy cy' \<and> same_freeze c m m' \<and> MKill p \<in> set (mfx m') \<and>
         (\<exists>t0 t1. mres m' = noteKill t0 t1 cause (mres m)))"

lemma kill_and_end_killed: "killed_end c p cause cy m (kill_and_end h p k cause cy m)"
proof (cases "killExecution h p (k_io k) (mctl m)")
  case None
  then show ?thesis by (simp add: kill_and_end_def kill_now_def Let_def killed_end_def same_freeze_eq)
next
  case (Some x)
  then show ?thesis
    by (cases x) (auto simp: kill_and_end_def kill_now_def Let_def killed_end_def same_cycle_def intro: same_freeze_eq)
qed

lemma killed_end_after:
  assumes "killed_end c p cause cy' m' out" "same_cycle cy cy'" "same_freeze c m m'" "mres m' = mres m"
  shows "killed_end c p cause cy m out"
  using assms by (cases out) (auto simp: killed_end_def same_cycle_def elim: same_freeze_trans)

lemma refine_then_kill:
  assumes "refineCycleWhileFrozen c hh b (cy, m) = (cy', m')"
  shows "killed_end c p cause cy m (kill_and_end h p k cause cy' m')"
  using killed_end_after[OF kill_and_end_killed] refine_facts[OF assms] by blast

lemma killOrRetry_unkillable:
  "unkillable energy \<Longrightarrow> killOrRetry h c energy p hh k ev sev cy m =
     Again cy (emit [MSafety ev sev, MSleep (unkillableRepollInterval h)] m)"
  by (simp add: killOrRetry_def)

lemma killOrRetry_cases:
  "killOrRetry h c energy p hh k ev sev cy m =
     Again cy (emit [MSafety ev sev, MSleep (unkillableRepollInterval h)] m) \<and> unkillable energy
   \<or> killed_end c p ev cy m (killOrRetry h c energy p hh k ev sev cy m) \<and> \<not> unkillable energy"
  by (auto simp: killOrRetry_def intro: refine_then_kill split: prod.splits)

text \<open>Leaving a cycle by a resume with the given threshold.\<close>

definition resumed_end :: "rapl_cfg \<Rightarrow> string \<Rightarrow> f64 \<Rightarrow> PauseCycle \<Rightarrow> mon \<Rightarrow> round_outcome \<Rightarrow> bool" where
  "resumed_end c p thr cy m out \<longleftrightarrow> (case out of
       Ended r cy' m' \<Rightarrow> r = (thr, False, p) \<and> pcPauseID cy' = pcPauseID cy \<and> Outcome cy' = ''resumed'' \<and>
         acState (mctl m') = StateRunning \<and> mres m' = mres m \<and> \<not> frozen (mmeter m') \<and>
         (\<forall>e0 s0. agree c e0 s0 (mmeter m) (mmarks m) \<longrightarrow> agree c e0 s0 (mmeter m') (mmarks m')) \<and>
         (\<exists>new. mfx m' = mfx m @ MResume p # new \<and> kill_free new)
     | _ \<Rightarrow> False)"

text \<open>Staying in the cycle, or in a call that does not return, without asking for a kill.\<close>

definition still_paused :: "rapl_cfg \<Rightarrow> mon \<Rightarrow> mon \<Rightarrow> bool" where
  "still_paused c m m' \<longleftrightarrow> same_freeze c m m' \<and> mres m' = mres m \<and> (\<exists>new. mfx m' = mfx m @ new \<and> kill_free new)"

lemma open_facts:
  "\<not> frozen (fst (snd (openSegmentAtResume hh path pid (meter, marks))))"
  "agree c e0 s0 meter marks \<Longrightarrow>
     agree c e0 s0 (fst (snd (openSegmentAtResume hh path pid (meter, marks)))) (snd (snd (openSegmentAtResume hh path pid (meter, marks))))"
proof -
  show "\<not> frozen (fst (snd (openSegmentAtResume hh path pid (meter, marks))))"
    by (auto simp: openSegmentAtResume_def openAt_def Let_def split: prod.split)
  show "agree c e0 s0 meter marks \<Longrightarrow>
     agree c e0 s0 (fst (snd (openSegmentAtResume hh path pid (meter, marks)))) (snd (snd (openSegmentAtResume hh path pid (meter, marks))))"
    using agree_event[of c e0 s0 meter marks "AtResume hh" path pid] by simp
qed

lemma resume_round_cases:
  "resumed_end c p thr cy m (resume_round h c energy p rd thr cy m)
   \<or> (\<exists>m'. resume_round h c energy p rd thr cy m = Stuck m' \<and> still_paused c m m')
   \<or> (\<exists>cy' m'. resume_round h c energy p rd thr cy m = Again cy' m' \<and> unkillable energy \<and> same_cycle cy cy' \<and> still_paused c m m')
   \<or> killed_end c p ''RESUME_FAILED'' cy m (resume_round h c energy p rd thr cy m) \<and> \<not> unkillable energy"
proof -
  obtain cy1 m1 where r: "refineCycleWhileFrozen c (rd_frozen rd) (ConsumedBeforeJ energy) (cy, m) = (cy1, m1)" by fastforce
  note rf = refine_facts[OF r]
  let ?res = "resumeExecution h p (rd_resume rd) (mctl m)"
  consider "?res = None" | e fx a where "?res = Some (Some e, fx, a)" | fx a where "?res = Some (None, fx, a)"
    by (cases ?res) (auto, metis not_Some_eq)
  then show ?thesis
  proof cases
    case 1
    then have "resume_round h c energy p rd thr cy m = Stuck (emit [MResume p] m1)"
      by (simp add: resume_round_def r rf Let_def)
    moreover have "still_paused c m (emit [MResume p] m1)"
      using rf by (auto simp: still_paused_def same_freeze_def)
    ultimately show ?thesis by blast
  next
    case (2 e fx a)
    let ?m = "(emit (map MCgroup fx) (emit [MResume p] m1))\<lparr>mctl := a\<rparr>"
    have eq: "resume_round h c energy p rd thr cy m =
        killOrRetry h c energy p (rd_failed rd) (rd_kill rd) ''RESUME_FAILED'' ''critical'' cy1 ?m"
      using 2 by (simp add: resume_round_def r rf Let_def)
    have sf: "same_freeze c m ?m" using rf(5) by (auto simp: same_freeze_def)
    have kf: "kill_free (map MCgroup fx)" using freeze_resume_kill_free(2)[OF 2] .
    show ?thesis
    proof (cases "unkillable energy")
      case True
      then have "resume_round h c energy p rd thr cy m =
          Again cy1 (emit [MSafety ''RESUME_FAILED'' ''critical'', MSleep (unkillableRepollInterval h)] ?m)"
        by (simp add: eq killOrRetry_def)
      moreover have "still_paused c m (emit [MSafety ''RESUME_FAILED'' ''critical'', MSleep (unkillableRepollInterval h)] ?m)"
        using sf rf kf by (auto simp: still_paused_def same_freeze_def)
      ultimately show ?thesis using True rf(4) by blast
    next
      case False
      then have "killed_end c p ''RESUME_FAILED'' cy1 ?m (resume_round h c energy p rd thr cy m)"
        unfolding eq using killOrRetry_cases by blast
      with False killed_end_after[OF _ rf(4) sf] rf(2) show ?thesis by simp
    qed
  next
    case (3 fx a)
    have "acState a = StateRunning" using 3 by (auto elim: resumeExecution_cases)
    with 3 rf freeze_resume_kill_free(2)[OF 3] open_facts show ?thesis
      by (intro disjI1) (auto simp: resume_round_def r Let_def resumed_end_def same_cycle_def same_freeze_def)
  qed
qed

text \<open>One round of the loop, by the way it ends.\<close>

lemma pause_round_cases:
  obtains (again) cy' m' where "pause_round h c energy p ev rd cy m = Again cy' m'" "unkillable energy"
      "pcPauseID cy' = pcPauseID cy" "still_paused c m m'"
  | (resumed) command tr where "postExecutionPaused (rd_call rd) ev = (Some command, tr, None)"
      "sc_PauseID command = p" "Command command = ''RESUME_EXECUTION''"
      "resumed_end c p (NewExecutionThresholdJ command) cy (emit [MPost ev] m) (pause_round h c energy p ev rd cy m)"
  | (killed) cause where "\<not> unkillable energy" "killed_end c p cause cy m (pause_round h c energy p ev rd cy m)"
  | (stuck) m' where "pause_round h c energy p ev rd cy m = Stuck m'" "still_paused c m m'"
proof -
  obtain reply tr err where post: "postExecutionPaused (rd_call rd) ev = (reply, tr, err)"
    by (cases "postExecutionPaused (rd_call rd) ev")
  let ?cy = "note_call rd tr cy" and ?m = "emit [MPost ev] m" and ?out = "pause_round h c energy p ev rd cy m"
  have sp: "still_paused c m ?m" by (auto simp: still_paused_def same_freeze_def)
  have sp2: "still_paused c m m'" if "still_paused c ?m m'" for m'
    using that by (auto simp: still_paused_def same_freeze_def)
  have ke: "killed_end c p cause cy m out" if "killed_end c p cause ?cy ?m out" for cause out
    by (rule killed_end_after[OF that]) (simp_all add: same_freeze_def)
  have retry: thesis if "?out = killOrRetry h c energy p (rd_frozen rd) (rd_kill rd) e sev ?cy ?m" for e sev
  proof (cases "unkillable energy")
    case True
    with that have "?out = Again ?cy (emit [MSafety e sev, MSleep (unkillableRepollInterval h)] ?m)"
      by (simp add: killOrRetry_def)
    with True again show thesis by (auto simp: still_paused_def same_freeze_def)
  next
    case False
    with that killOrRetry_cases have "killed_end c p e ?cy ?m ?out" by metis
    with False killed ke show thesis by blast
  qed
  show thesis
  proof (cases reply)
    case None
    show thesis by (rule retry) (use post None in \<open>simp add: pause_round_def Let_def\<close>)
  next
    case (Some command)
    have err: "err = None" using channel_reply[OF post] Some by simp
    consider (mis) "sc_PauseID command \<noteq> p"
      | (res) "sc_PauseID command = p" "Command command = ''RESUME_EXECUTION''"
      | (wait) "sc_PauseID command = p" "Command command = ''WAIT_EXECUTION''"
      | (kl) "sc_PauseID command = p" "Command command = ''KILL_EXECUTION''"
      | (unk) "sc_PauseID command = p" "Command command \<noteq> ''RESUME_EXECUTION''" "Command command \<noteq> ''WAIT_EXECUTION''"
          "Command command \<noteq> ''KILL_EXECUTION''" by blast
    then show thesis
    proof cases
      case mis
      show thesis by (rule retry) (use post Some mis in \<open>simp add: pause_round_def Let_def\<close>)
    next
      case unk
      show thesis by (rule retry) (use post Some unk in \<open>simp add: pause_round_def Let_def\<close>)
    next
      case res
      then have eq: "?out = resume_round h c energy p rd (NewExecutionThresholdJ command) ?cy ?m"
        using post Some by (simp add: pause_round_def Let_def)
      from resume_round_cases[of c p "NewExecutionThresholdJ command" ?cy ?m h energy rd, folded eq]
      show thesis
      proof (elim disjE exE conjE)
        assume "resumed_end c p (NewExecutionThresholdJ command) ?cy ?m ?out"
        then have "resumed_end c p (NewExecutionThresholdJ command) cy ?m ?out"
          by (auto simp: resumed_end_def split: round_outcome.splits)
        with res post Some err resumed show thesis by blast
      next
        fix m' assume "?out = Stuck m'" "still_paused c ?m m'"
        with stuck sp2 show thesis by blast
      next
        fix cy' m' assume "?out = Again cy' m'" "unkillable energy" "same_cycle ?cy cy'" "still_paused c ?m m'"
        with again sp2 show thesis by (auto simp: same_cycle_def)
      next
        assume "killed_end c p ''RESUME_FAILED'' ?cy ?m ?out" "\<not> unkillable energy"
        with killed ke show thesis by blast
      qed
    next
      case wait
      show thesis
      proof (cases "unkillable energy")
        case True
        then have "?out = Again (?cy\<lparr>Outcome := ''queued_wait''\<rparr>) (emit [MSleep (unkillableRepollInterval h)] ?m)"
          using post Some wait by (simp add: pause_round_def Let_def)
        with True again show thesis by (auto simp: still_paused_def same_freeze_def)
      next
        case False
        show thesis by (rule retry) (use post Some wait False in \<open>simp add: pause_round_def Let_def\<close>)
      qed
    next
      case kl
      show thesis
      proof (cases "unkillable energy")
        case True
        then have "?out = Again ?cy (emit [MSafety ''KILL_EXECUTION_REFUSED_UNKILLABLE'' ''critical'',
            MSleep (unkillableRepollInterval h)] ?m)"
          using post Some kl by (simp add: pause_round_def Let_def)
        with True again show thesis by (auto simp: still_paused_def same_freeze_def)
      next
        case False
        obtain cy1 m1 where r: "refineCycleWhileFrozen c (rd_frozen rd) (ConsumedBeforeJ energy) (?cy, ?m) = (cy1, m1)" by fastforce
        have "?out = kill_and_end h p (rd_kill rd) (''SCHEDULER_COMMAND:'' @ sc_Reason command) cy1 m1"
          using post Some kl False r by (simp add: pause_round_def Let_def)
        with refine_then_kill[OF r] ke False killed show thesis by metis
      qed
    qed
  qed
qed


section \<open>The whole cycle\<close>

definition extends_kill_free :: "mon \<Rightarrow> mon \<Rightarrow> bool" where
  "extends_kill_free m m' \<longleftrightarrow> (\<exists>new. mfx m' = mfx m @ new \<and> kill_free new)"

lemma extends_trans: "extends_kill_free m m1 \<Longrightarrow> extends_kill_free m1 m2 \<Longrightarrow> extends_kill_free m m2"
  by (auto simp: extends_kill_free_def)

lemma still_paused_extends: "still_paused c m m' \<Longrightarrow> extends_kill_free m m'"
  by (auto simp: still_paused_def extends_kill_free_def)

lemma resumed_end_extends:
  "resumed_end c p thr cy (emit [MPost ev] m) (Ended r cy' m') \<Longrightarrow> extends_kill_free m m'"
  by (auto simp: resumed_end_def extends_kill_free_def)

lemma pause_loop_unkillable:
  assumes "unkillable energy"
  shows "extends_kill_free m (run_mon (pause_loop h c energy p ev rds cy m)) \<and>
     (\<forall>thr k q m'. pause_loop h c energy p ev rds cy m = Returned (thr, k, q) m' \<longrightarrow> \<not> k)"
proof (induction rds arbitrary: cy m)
  case Nil
  then show ?case by (simp add: extends_kill_free_def)
next
  case (Cons rd rds)
  show ?case
  proof (cases rule: pause_round_cases[where h = h and c = c and energy = energy and p = p and ev = ev and rd = rd and cy = cy and m = m])
    case (again cy' m')
    with Cons[of m' cy'] show ?thesis by (auto intro: extends_trans still_paused_extends)
  next
    case (resumed command tr)
    then obtain r cy' m' where out: "pause_round h c energy p ev rd cy m = Ended r cy' m'" "r = (NewExecutionThresholdJ command, False, p)"
      by (cases "pause_round h c energy p ev rd cy m") (auto simp: resumed_end_def)
    with resumed resumed_end_extends[of c p _ cy ev m r cy' m'] show ?thesis
      by (auto simp: end_cycle_def extends_kill_free_def)
  next
    case (killed cause)
    with assms show ?thesis by blast
  next
    case (stuck m')
    then show ?thesis by (auto dest: still_paused_extends)
  qed
qed

text \<open>What a cycle that came back by a resume, or by a kill, has done.\<close>

definition came_back :: "rapl_cfg \<Rightarrow> EnergyState \<Rightarrow> string \<Rightarrow> ExecutionPausedEvent \<Rightarrow> round_io list \<Rightarrow> PauseCycle \<Rightarrow> mon
    \<Rightarrow> f64 \<Rightarrow> bool \<Rightarrow> PauseCycle \<Rightarrow> mon \<Rightarrow> bool" where
  "came_back c energy p ev rds cy m thr k cy' m' \<longleftrightarrow> pcPauseID cy' = pcPauseID cy \<and>
     (if k then \<not> unkillable energy \<and> Outcome cy' = Outcome cy \<and> same_freeze c m m' \<and> MKill p \<in> set (mfx m') \<and>
        (\<exists>t0 t1 cause. mres m' = noteKill t0 t1 cause (mres m))
      else Outcome cy' = ''resumed'' \<and> acState (mctl m') = StateRunning \<and> mres m' = mres m \<and> \<not> frozen (mmeter m') \<and>
        (\<forall>e0 s0. agree c e0 s0 (mmeter m) (mmarks m) \<longrightarrow> agree c e0 s0 (mmeter m') (mmarks m')) \<and>
        (\<exists>pre new. mfx m' = mfx m @ pre @ [MPost ev, MResume p] @ new) \<and>
        (\<exists>rd \<in> set rds. \<exists>command tr. postExecutionPaused (rd_call rd) ev = (Some command, tr, None) \<and>
           sc_PauseID command = p \<and> Command command = ''RESUME_EXECUTION'' \<and> thr = NewExecutionThresholdJ command))"

lemma pause_loop_returned:
  "pause_loop h c energy p ev rds cy m = Returned (thr, k, q) m' \<Longrightarrow>
     q = p \<and> (\<exists>cy' m1. m' = m1\<lparr>mres := addCycle cy' (mres m1)\<rparr> \<and> came_back c energy p ev rds cy m thr k cy' m1)"
proof (induction rds arbitrary: cy m)
  case Nil
  then show ?case by simp
next
  case (Cons rd rds)
  show ?case
  proof (cases rule: pause_round_cases[where h = h and c = c and energy = energy and p = p and ev = ev and rd = rd and cy = cy and m = m])
    case (again cy2 m2)
    with Cons.prems have "pause_loop h c energy p ev rds cy2 m2 = Returned (thr, k, q) m'" by simp
    from Cons.IH[OF this] obtain cy' m1 where ih: "q = p" "m' = m1\<lparr>mres := addCycle cy' (mres m1)\<rparr>"
      "came_back c energy p ev rds cy2 m2 thr k cy' m1" by blast
    from again obtain new2 where new2: "mfx m2 = mfx m @ new2" "mres m2 = mres m" "same_freeze c m m2"
      by (auto simp: still_paused_def)
    have "came_back c energy p ev (rd # rds) cy m thr k cy' m1"
    proof (cases k)
      case True
      with ih again show ?thesis by (simp add: came_back_def)
    next
      case False
      with ih(3) obtain pre new where "mfx m1 = mfx m2 @ pre @ [MPost ev, MResume p] @ new"
        by (auto simp: came_back_def)
      then have "mfx m1 = mfx m @ (new2 @ pre) @ [MPost ev, MResume p] @ new" using new2 by simp
      then have "\<exists>pre new. mfx m1 = mfx m @ pre @ [MPost ev, MResume p] @ new" by blast
      with ih(3) again new2 False show ?thesis by (auto simp: came_back_def same_freeze_def)
    qed
    with ih show ?thesis by blast
  next
    case (resumed command tr)
    then obtain cy' m1 where "pause_round h c energy p ev rd cy m = Ended (thr, k, q) cy' m1"
      "m' = m1\<lparr>mres := addCycle cy' (mres m1)\<rparr>"
      using Cons.prems by (auto simp: end_cycle_def resumed_end_def split: round_outcome.splits)
    with resumed(4) have e: "k = False" "q = p" "thr = NewExecutionThresholdJ command" "pcPauseID cy' = pcPauseID cy"
      "Outcome cy' = ''resumed''" "acState (mctl m1) = StateRunning" "mres m1 = mres m" "\<not> frozen (mmeter m1)"
      "\<forall>e0 s0. agree c e0 s0 (mmeter m) (mmarks m) \<longrightarrow> agree c e0 s0 (mmeter m1) (mmarks m1)"
      "\<exists>new. mfx m1 = mfx m @ [] @ [MPost ev, MResume p] @ new"
      by (auto simp: resumed_end_def)
    have "\<exists>pre new. mfx m1 = mfx m @ pre @ [MPost ev, MResume p] @ new" using e(10) by blast
    moreover have "\<exists>rd' \<in> set (rd # rds). \<exists>command tr. postExecutionPaused (rd_call rd') ev = (Some command, tr, None) \<and>
        sc_PauseID command = p \<and> Command command = ''RESUME_EXECUTION'' \<and> thr = NewExecutionThresholdJ command"
      using e(3) resumed(1-3) by auto
    ultimately have "came_back c energy p ev (rd # rds) cy m thr k cy' m1"
      unfolding came_back_def using e(1,4-9) by simp
    with e(2) \<open>m' = m1\<lparr>mres := addCycle cy' (mres m1)\<rparr>\<close> show ?thesis by blast
  next
    case (killed cause)
    then obtain cy' m1 where "pause_round h c energy p ev rd cy m = Ended (thr, k, q) cy' m1"
      "m' = m1\<lparr>mres := addCycle cy' (mres m1)\<rparr>"
      using Cons.prems by (auto simp: end_cycle_def killed_end_def split: round_outcome.splits)
    moreover from this killed have "q = p" "came_back c energy p ev (rd # rds) cy m thr k cy' m1"
      by (auto simp: killed_end_def came_back_def same_cycle_def)
    ultimately show ?thesis by blast
  next
    case (stuck m2)
    with Cons.prems show ?thesis by simp
  qed
qed

lemma new_cycle_sel [simp]: "pcPauseID (new_cycle p t a thr) = p" "Outcome (new_cycle p t a thr) = ''killed''"
  by (simp_all add: new_cycle_def)

text \<open>What one whole pause cycle of a running step has done when it comes back.\<close>

definition freeze_failed :: "host \<Rightarrow> cycle_io \<Rightarrow> mon \<Rightarrow> bool" where
  "freeze_failed h io m \<longleftrightarrow>
     (case freezeExecution h (newPauseID (cy_random io) (cy_nano io)) (cy_freeze io) (mctl m) of
        Some (Some _, _, _) \<Rightarrow> True | _ \<Rightarrow> False)"

lemma runPauseCycle_unkillable:
  assumes "unkillable energy"
  shows "extends_kill_free m (run_mon (runPauseCycle h c io energy an st t a m)) \<and>
     (\<forall>thr k q m'. runPauseCycle h c io energy an st t a m = Returned (thr, k, q) m' \<longrightarrow> \<not> k)"
proof -
  let ?p = "newPauseID (cy_random io) (cy_nano io)"
  let ?m = "emit [MFreeze ?p] m"
  consider "freezeExecution h ?p (cy_freeze io) (mctl m) = None"
    | e fx a' where "freezeExecution h ?p (cy_freeze io) (mctl m) = Some (Some e, fx, a')"
    | fx a' where "freezeExecution h ?p (cy_freeze io) (mctl m) = Some (None, fx, a')"
    by (metis not_Some_eq prod_cases3)
  then show ?thesis
  proof cases
    case 1
    then show ?thesis by (simp add: runPauseCycle_def Let_def extends_kill_free_def)
  next
    case (2 e fx a')
    then show ?thesis using assms freeze_resume_kill_free(1)[OF 2]
      by (simp add: runPauseCycle_def Let_def extends_kill_free_def end_cycle_def)
  next
    case (3 fx a')
    let ?m1 = "(emit (map MCgroup fx) ?m)\<lparr>mctl := a'\<rparr>"
    obtain ok meter marks where cl: "closeSegmentAtFreeze c (cy_frozen io) (mpath ?m1) (mpid ?m1) (mmeter ?m1, mmarks ?m1) = (ok, meter, marks)"
      by (cases "closeSegmentAtFreeze c (cy_frozen io) (mpath ?m1) (mpid ?m1) (mmeter ?m1, mmarks ?m1)")
    have x: "extends_kill_free m (?m1\<lparr>mmeter := meter, mmarks := marks\<rparr>)"
      using freeze_resume_kill_free(1)[OF 3] by (simp add: extends_kill_free_def)
    have "\<exists>ev cy. runPauseCycle h c io energy an st t a m =
        pause_loop h c energy ?p ev (cy_rounds io) cy (?m1\<lparr>mmeter := meter, mmarks := marks\<rparr>)"
      using 3 cl by (simp add: runPauseCycle_def Let_def) blast
    then show ?thesis
      using pause_loop_unkillable[OF assms] extends_trans[OF x] by metis
  qed
qed

lemma close_facts:
  assumes "closeSegmentAtFreeze c hh path pid (meter, marks) = (ok, meter', marks')" "\<not> frozen meter"
  shows "agree c e0 s0 meter marks \<Longrightarrow> agree c e0 s0 meter' marks'"
  using agree_event[of c e0 s0 meter marks "AtFreeze hh" path pid meter' marks'] assms by simp

text \<open>The result of a cycle that comes back with a kill or with a resume.\<close>

definition cycle_result :: "host \<Rightarrow> rapl_cfg \<Rightarrow> cycle_io \<Rightarrow> EnergyState \<Rightarrow> mon \<Rightarrow> f64 \<Rightarrow> bool \<Rightarrow> string \<Rightarrow> PauseCycle \<Rightarrow> mon \<Rightarrow> bool" where
  "cycle_result h c io energy m thr k q cy m1 \<longleftrightarrow> pcPauseID cy = q \<and>
     (\<forall>e0 s0. agree c e0 s0 (mmeter m) (mmarks m) \<longrightarrow> agree c e0 s0 (mmeter m1) (mmarks m1)) \<and>
     (if k then \<not> unkillable energy \<and> Outcome cy = ''killed'' \<and> MKill q \<in> set (mfx m1) \<and>
        (\<exists>t0 t1 cause. mres m1 = noteKill t0 t1 cause (mres m))
      else mres m1 = mres m \<and> \<not> frozen (mmeter m1) \<and>
        (if freeze_failed h io m then unkillable energy \<and> Outcome cy = ''killed'' \<and> thr = ExecutionThresholdJ energy
         else Outcome cy = ''resumed'' \<and> acState (mctl m1) = StateRunning \<and>
           (\<exists>ev. pe_PauseID ev = q \<and> (\<exists>pre new. mfx m1 = mfx m @ MFreeze q # pre @ [MPost ev, MResume q] @ new) \<and>
              (\<exists>rd \<in> set (cy_rounds io). \<exists>command tr. postExecutionPaused (rd_call rd) ev = (Some command, tr, None) \<and>
                 sc_PauseID command = q \<and> Command command = ''RESUME_EXECUTION'' \<and> thr = NewExecutionThresholdJ command))))"

lemma runPauseCycle_failed_freeze:
  assumes "runPauseCycle h c io energy an st t a m = Returned (thr, k, q) m'" "\<not> frozen (mmeter m)"
    and "freezeExecution h (newPauseID (cy_random io) (cy_nano io)) (cy_freeze io) (mctl m) = Some (Some e, fx, a')"
  shows "q = newPauseID (cy_random io) (cy_nano io) \<and>
     (\<exists>cy m1. m' = m1\<lparr>mres := addCycle cy (mres m1)\<rparr> \<and> cycle_result h c io energy m thr k q cy m1)"
proof -
  let ?p = "newPauseID (cy_random io) (cy_nano io)"
  let ?m1 = "(emit (map MCgroup fx) (emit [MFreeze ?p] m))\<lparr>mctl := a'\<rparr>"
  let ?cy = "new_cycle ?p t a (ExecutionThresholdJ energy)"
  have ff: "freeze_failed h io m" using assms(3) by (simp add: freeze_failed_def)
  show ?thesis
  proof (cases "unkillable energy")
    case True
    let ?m2 = "emit [MSafety ''FREEZE_FAILED_UNKILLABLE'' ''critical''] ?m1"
    have r: "q = ?p" "k = False" "thr = ExecutionThresholdJ energy" "m' = ?m2\<lparr>mres := addCycle ?cy (mres ?m2)\<rparr>"
      using assms True by (auto simp: runPauseCycle_def Let_def end_cycle_def)
    moreover have "cycle_result h c io energy m thr k q ?cy ?m2"
      using True ff r assms(2) by (simp add: cycle_result_def)
    ultimately show ?thesis by blast
  next
    case False
    with assms have r: "(case kill_and_end h ?p (cy_kill io) ''FREEZE_FAILED'' ?cy ?m1 of
        Ended r cy' m' \<Rightarrow> end_cycle r cy' m' | Again _ m' \<Rightarrow> Waiting m' | Stuck m' \<Rightarrow> Waiting m') = Returned (thr, k, q) m'"
      by (simp add: runPauseCycle_def Let_def)
    have "killed_end c ?p ''FREEZE_FAILED'' ?cy ?m1 (kill_and_end h ?p (cy_kill io) ''FREEZE_FAILED'' ?cy ?m1)"
      by (rule kill_and_end_killed)
    moreover obtain cy m1 where out: "kill_and_end h ?p (cy_kill io) ''FREEZE_FAILED'' ?cy ?m1 = Ended (thr, k, q) cy m1"
      "m' = m1\<lparr>mres := addCycle cy (mres m1)\<rparr>"
      using r by (auto simp: end_cycle_def split: round_outcome.splits)
    ultimately have "q = ?p" "cycle_result h c io energy m thr k q cy m1"
      using False by (auto simp: killed_end_def cycle_result_def same_cycle_def same_freeze_def)
    with out(2) show ?thesis by blast
  qed
qed

lemma runPauseCycle_frozen:
  assumes "runPauseCycle h c io energy an st t a m = Returned (thr, k, q) m'" "\<not> frozen (mmeter m)"
    and fz: "freezeExecution h (newPauseID (cy_random io) (cy_nano io)) (cy_freeze io) (mctl m) = Some (None, fx, a')"
  shows "q = newPauseID (cy_random io) (cy_nano io) \<and>
     (\<exists>cy m1. m' = m1\<lparr>mres := addCycle cy (mres m1)\<rparr> \<and> cycle_result h c io energy m thr k q cy m1)"
proof -
  let ?p = "newPauseID (cy_random io) (cy_nano io)"
  let ?m1 = "(emit (map MCgroup fx) (emit [MFreeze ?p] m))\<lparr>mctl := a'\<rparr>"
  have ff: "\<not> freeze_failed h io m" using fz by (simp add: freeze_failed_def)
  obtain ok meter marks where cl: "closeSegmentAtFreeze c (cy_frozen io) (mpath ?m1) (mpid ?m1) (mmeter m, mmarks m) = (ok, meter, marks)"
    by (cases "closeSegmentAtFreeze c (cy_frozen io) (mpath ?m1) (mpid ?m1) (mmeter m, mmarks m)")
  let ?m2 = "?m1\<lparr>mmeter := meter, mmarks := marks\<rparr>"
  obtain ev cy0 where pl: "pause_loop h c energy ?p ev (cy_rounds io) cy0 ?m2 = Returned (thr, k, q) m'"
    and ev: "pe_PauseID ev = ?p" and cy0: "pcPauseID cy0 = ?p" "Outcome cy0 = ''killed''"
    using assms(1) fz cl by (auto simp: runPauseCycle_def Let_def paused_event_def)
  have ag: "agree c e0 s0 (mmeter m) (mmarks m) \<Longrightarrow> agree c e0 s0 meter marks" for e0 s0
    using close_facts[OF cl assms(2)] .
  from pause_loop_returned[OF pl] obtain cy m1 where
    r: "q = ?p" "m' = m1\<lparr>mres := addCycle cy (mres m1)\<rparr>" "came_back c energy ?p ev (cy_rounds io) cy0 ?m2 thr k cy m1"
    by blast
  have "cycle_result h c io energy m thr k q cy m1"
  proof (cases k)
    case True
    with r(1,3) cy0 ag show ?thesis by (auto simp: came_back_def cycle_result_def same_freeze_def)
  next
    case False
    from r(3) False obtain pre new where "mfx m1 = mfx ?m2 @ pre @ [MPost ev, MResume ?p] @ new"
      by (auto simp: came_back_def)
    then have "mfx m1 = mfx m @ MFreeze ?p # (map MCgroup fx @ pre) @ [MPost ev, MResume ?p] @ new" by simp
    then have "\<exists>pre new. mfx m1 = mfx m @ MFreeze ?p # pre @ [MPost ev, MResume ?p] @ new" by blast
    with r(1,3) False cy0 ag ff ev show ?thesis unfolding came_back_def cycle_result_def by simp metis
  qed
  with r show ?thesis by blast
qed

lemma runPauseCycle_returned:
  assumes "runPauseCycle h c io energy an st t a m = Returned (thr, k, q) m'" "\<not> frozen (mmeter m)"
  shows "q = newPauseID (cy_random io) (cy_nano io)"
    and "\<exists>cy m1. m' = m1\<lparr>mres := addCycle cy (mres m1)\<rparr> \<and> cycle_result h c io energy m thr k q cy m1"
proof -
  let ?fz = "freezeExecution h (newPauseID (cy_random io) (cy_nano io)) (cy_freeze io) (mctl m)"
  have "?fz \<noteq> None"
  proof
    assume "?fz = None"
    then show False using assms(1) by (simp add: runPauseCycle_def Let_def)
  qed
  then obtain e fx a' where "?fz = Some (e, fx, a')" by (metis not_Some_eq prod_cases3)
  then have "q = newPauseID (cy_random io) (cy_nano io) \<and>
     (\<exists>cy m1. m' = m1\<lparr>mres := addCycle cy (mres m1)\<rparr> \<and> cycle_result h c io energy m thr k q cy m1)"
    using runPauseCycle_frozen[OF assms] runPauseCycle_failed_freeze[OF assms] by (cases e) blast+
  then show "q = newPauseID (cy_random io) (cy_nano io)"
    "\<exists>cy m1. m' = m1\<lparr>mres := addCycle cy (mres m1)\<rparr> \<and> cycle_result h c io energy m thr k q cy m1" by blast+
qed


section \<open>The monitoring loop\<close>

lemma result_frame [simp]:
  "mr_killed (addCycle cy r) = mr_killed r" "mr_killed (noteKill t0 t1 ca r) = mr_killed r"
  "mr_killed (noteSample b r) = mr_killed r" "mr_killed (setThreshold x r) = mr_killed r"
  "thresholdUpdated (addCycle cy r) = thresholdUpdated r" "thresholdUpdated (noteKill t0 t1 ca r) = thresholdUpdated r"
  "thresholdUpdated (noteSample b r) = thresholdUpdated r" "thresholdUpdated (setKilled x q r) = thresholdUpdated r"
  "mr_thresholdJ (addCycle cy r) = mr_thresholdJ r" "mr_thresholdJ (noteKill t0 t1 ca r) = mr_thresholdJ r"
  "mr_thresholdJ (noteSample b r) = mr_thresholdJ r" "mr_thresholdJ (setKilled x q r) = mr_thresholdJ r"
  "thresholdUpdated (setThreshold x r)" "mr_thresholdJ (setThreshold x r) = x"
  "mr_killed (setKilled x q r)" "mr_consumedJ (setKilled x q r) = x" "mr_pauseID (setKilled x q r) = q"
  by (simp_all add: addCycle_def noteKill_def noteSample_def setThreshold_def setKilled_def)

lemma pause_loop_waiting: "pause_loop h c energy p ev rds cy m = Waiting m' \<Longrightarrow> mres m' = mres m"
proof (induction rds arbitrary: cy m)
  case (Cons rd rds)
  show ?case
  proof (cases rule: pause_round_cases[where h = h and c = c and energy = energy and p = p and ev = ev and rd = rd and cy = cy and m = m])
    case (again cy2 m2)
    with Cons.prems have "pause_loop h c energy p ev rds cy2 m2 = Waiting m'" by simp
    with Cons.IH again show ?thesis by (auto simp: still_paused_def)
  next
    case (resumed command tr)
    with Cons.prems show ?thesis by (auto simp: end_cycle_def resumed_end_def split: round_outcome.splits)
  next
    case (killed cause)
    with Cons.prems show ?thesis by (auto simp: end_cycle_def killed_end_def split: round_outcome.splits)
  next
    case (stuck m2)
    with Cons.prems show ?thesis by (auto simp: still_paused_def)
  qed
qed simp

lemma runPauseCycle_waiting: "runPauseCycle h c io energy an st t a m = Waiting m' \<Longrightarrow> mres m' = mres m"
proof -
  assume w: "runPauseCycle h c io energy an st t a m = Waiting m'"
  let ?p = "newPauseID (cy_random io) (cy_nano io)"
  consider "freezeExecution h ?p (cy_freeze io) (mctl m) = None"
    | e fx a' where "freezeExecution h ?p (cy_freeze io) (mctl m) = Some (Some e, fx, a')"
    | fx a' where "freezeExecution h ?p (cy_freeze io) (mctl m) = Some (None, fx, a')"
    by (metis not_Some_eq prod_cases3)
  then show ?thesis
  proof cases
    case 1
    with w show ?thesis by (auto simp: runPauseCycle_def Let_def)
  next
    case (2 e fx a')
    let ?m1 = "(emit (map MCgroup fx) (emit [MFreeze ?p] m))\<lparr>mctl := a'\<rparr>"
    let ?cy = "new_cycle ?p t a (ExecutionThresholdJ energy)"
    have "killed_end c ?p ''FREEZE_FAILED'' ?cy ?m1 (kill_and_end h ?p (cy_kill io) ''FREEZE_FAILED'' ?cy ?m1)"
      by (rule kill_and_end_killed)
    with w 2 show ?thesis
      by (auto simp: runPauseCycle_def Let_def end_cycle_def killed_end_def split: if_splits round_outcome.splits)
  next
    case (3 fx a')
    with w show ?thesis by (auto simp: runPauseCycle_def Let_def split: prod.splits dest!: pause_loop_waiting)
  qed
qed

text \<open>One tick, by what it leads to.\<close>

lemma monitor_tick_cases:
  obtains (idle) "monitor_loop h c energy (MonTick tk # evs) m =
      monitor_loop h c energy evs (m\<lparr>mres := noteSample (tk_busy tk) (mres m)\<rparr>)"
  | (refused) "unkillable energy" "monitor_loop h c energy (MonTick tk # evs) m =
      Returned (True, energy) (emit [MSafety ''LOCAL_KILL_REFUSED_UNKILLABLE'' ''critical''] (m\<lparr>mres := noteSample (tk_busy tk) (mres m)\<rparr>))"
  | (local_stuck) m' where "\<not> unkillable energy" "monitor_loop h c energy (MonTick tk # evs) m = Waiting m'" "mr_killed (mres m') = mr_killed (mres m)"
  | (local_kill) m' step where "\<not> unkillable energy" "monitor_loop h c energy (MonTick tk # evs) m = Returned (True, energy) (m'\<lparr>mres := setKilled step [] (mres m')\<rparr>)"
      "mmeter m' = mmeter m" "mmarks m' = mmarks m" "thresholdUpdated (mres m') = thresholdUpdated (mres m)" "mr_thresholdJ (mres m') = mr_thresholdJ (mres m)"
  | (cycle) step t total_j where "PauseEnabled energy" "monitor_loop h c energy (MonTick tk # evs) m =
      (case runPauseCycle h c (tk_cycle tk) energy (ResolvedActionName energy) step t total_j (m\<lparr>mres := noteSample (tk_busy tk) (mres m)\<rparr>) of
         Waiting m' \<Rightarrow> Waiting m'
       | Returned (thr, killed, pauseID) m' \<Rightarrow>
           if killed then Returned (True, energy) (m'\<lparr>mres := setKilled
             (if frozen (mmeter m') then closedJ (mmeter m') else step) pauseID (mres m')\<rparr>)
           else monitor_loop h c (energy\<lparr>ExecutionThresholdJ := thr\<rparr>) evs (m'\<lparr>mres := setThreshold thr (mres m')\<rparr>))"
proof -
  obtain e err where re: "readEnergy (tk_host tk) = (e, err)" by fastforce
  let ?s = "m\<lparr>mres := noteSample (tk_busy tk) (mres m)\<rparr>"
  define step where "step = stepJ c (mmeter m) e (readCPUSnapshot (tk_host tk) (mpid m))"
  define tot where "tot = f_add (ConsumedBeforeJ energy) step"
  have unfold: "monitor_loop h c energy (MonTick tk # evs) m =
      (if f_lt tot (ExecutionThresholdJ energy) then monitor_loop h c energy evs ?s
       else if \<not> PauseEnabled energy then
         (if unkillable energy then Returned (True, energy) (emit [MSafety ''LOCAL_KILL_REFUSED_UNKILLABLE'' ''critical''] ?s)
          else (case kill_now h [] (tk_kill tk) ''THRESHOLD_NO_PAUSE'' ?s of
              (None, asked) \<Rightarrow> Waiting asked
            | (Some m', _) \<Rightarrow> Returned (True, energy) (m'\<lparr>mres := setKilled step [] (mres m')\<rparr>)))
       else (case runPauseCycle h c (tk_cycle tk) energy (ResolvedActionName energy) step (tk_detected tk) tot ?s of
           Waiting m' \<Rightarrow> Waiting m'
         | Returned (thr, killed, pauseID) m' \<Rightarrow>
             if killed then Returned (True, energy) (m'\<lparr>mres := setKilled
               (if frozen (mmeter m') then closedJ (mmeter m') else step) pauseID (mres m')\<rparr>)
             else monitor_loop h c (energy\<lparr>ExecutionThresholdJ := thr\<rparr>) evs (m'\<lparr>mres := setThreshold thr (mres m')\<rparr>)))"
    if "err = None"
    unfolding step_def tot_def using re that by (simp add: Let_def)
  show thesis
  proof (cases err)
    case (Some x)
    with re idle show thesis by (simp add: Let_def)
  next
    case None
    note u = unfold[OF None]
    consider "f_lt tot (ExecutionThresholdJ energy)"
      | "\<not> f_lt tot (ExecutionThresholdJ energy)" "PauseEnabled energy"
      | "\<not> f_lt tot (ExecutionThresholdJ energy)" "\<not> PauseEnabled energy" "unkillable energy"
      | "\<not> f_lt tot (ExecutionThresholdJ energy)" "\<not> PauseEnabled energy" "\<not> unkillable energy" by blast
    then show thesis
    proof cases
      case 1 with u idle show thesis by simp
    next
      case 2 with u cycle show thesis by simp
    next
      case 3 with u refused show thesis by simp
    next
      case 4
      show thesis
      proof (cases "killExecution h [] (k_io (tk_kill tk)) (mctl m)")
        case None
        with u 4 show thesis by (intro local_stuck[of "emit [MKill []] ?s"]) (simp_all add: kill_now_def Let_def)
      next
        case (Some x)
        obtain e' fx a where x: "x = (e', fx, a)" by (cases x)
        show thesis
          by (rule local_kill[where step = step and m' = "(emit (map MCgroup fx) (emit [MKill []] ?s))\<lparr>mctl := a, mres := noteKill (k_requested (tk_kill tk)) (k_stopped (tk_kill tk)) ''THRESHOLD_NO_PAUSE'' (mres ?s)\<rparr>"])
             (use u 4 Some x in \<open>simp_all add: kill_now_def Let_def\<close>)
      qed
    qed
  qed
qed


text \<open>The fields of the energy state the loop changes: only the threshold.\<close>

lemma unkillable_threshold [simp]: "unkillable (energy\<lparr>ExecutionThresholdJ := x\<rparr>) = unkillable energy"
  by (simp add: isNonInterruptibleForThisStep_def split: option.split)

lemma monitor_loop_unkillable:
  "unkillable energy \<Longrightarrow> kill_free (mfx m) \<Longrightarrow> \<not> mr_killed (mres m) \<Longrightarrow> \<not> frozen (mmeter m) \<Longrightarrow>
     kill_free (mfx (run_mon (monitor_loop h c energy evs m))) \<and> \<not> mr_killed (mres (run_mon (monitor_loop h c energy evs m)))"
proof (induction evs arbitrary: energy m)
  case (Cons ev evs)
  show ?case
  proof (cases ev)
    case MonStop
    with Cons.prems show ?thesis by simp
  next
    case (MonTick tk)
    let ?s = "m\<lparr>mres := noteSample (tk_busy tk) (mres m)\<rparr>"
    show ?thesis
    proof (cases rule: monitor_tick_cases[where h = h and c = c and energy = energy and tk = tk and evs = evs and m = m])
      case idle
      with Cons MonTick show ?thesis by simp
    next
      case refused
      with Cons.prems MonTick show ?thesis by simp
    next
      case (cycle step t total_j)
      let ?r = "runPauseCycle h c (tk_cycle tk) energy (ResolvedActionName energy) step t total_j ?s"
      note u = runPauseCycle_unkillable[OF Cons.prems(1), of ?s h c "tk_cycle tk" "ResolvedActionName energy" step t total_j]
      have kf: "kill_free (mfx (run_mon ?r))" using u Cons.prems(2) by (auto simp: extends_kill_free_def)
      show ?thesis
      proof (cases ?r)
        case (Waiting m')
        with cycle kf Cons.prems(3) MonTick runPauseCycle_waiting[OF Waiting] show ?thesis by simp
      next
        case (Returned x m')
        obtain thr k q where x: "x = (thr, k, q)" by (cases x)
        have nk: "\<not> k" using u Returned x by blast
        obtain cy m1 where m1: "m' = m1\<lparr>mres := addCycle cy (mres m1)\<rparr>" "cycle_result h c (tk_cycle tk) energy ?s thr k q cy m1"
          using runPauseCycle_returned(2)[OF Returned[unfolded x]] Cons.prems(4) by auto
        then have "\<not> mr_killed (mres m')" "\<not> frozen (mmeter m')"
          using nk Cons.prems(3) by (auto simp: cycle_result_def)
        with Cons.IH[of "energy\<lparr>ExecutionThresholdJ := thr\<rparr>" "m'\<lparr>mres := setThreshold thr (mres m')\<rparr>"] kf Returned x nk cycle Cons.prems(1) MonTick
        show ?thesis by simp
      qed
    qed (use Cons.prems(1) in blast)+
  qed
qed simp

lemma monitor_loop_settled:
  "agree c e0 s0 (mmeter m) (mmarks m) \<Longrightarrow> \<not> frozen (mmeter m) \<Longrightarrow> \<not> mr_killed (mres m) \<Longrightarrow>
   monitor_loop h c energy evs m = Returned (b, en) m' \<Longrightarrow>
     agree c e0 s0 (mmeter m') (mmarks m') \<and>
     (mr_killed (mres m') \<and> frozen (mmeter m') \<longrightarrow> mr_consumedJ (mres m') = closedJ (mmeter m'))"
proof (induction evs arbitrary: energy m)
  case (Cons ev evs)
  show ?case
  proof (cases ev)
    case MonStop
    with Cons.prems show ?thesis by simp
  next
    case (MonTick tk)
    let ?s = "m\<lparr>mres := noteSample (tk_busy tk) (mres m)\<rparr>"
    show ?thesis
    proof (cases rule: monitor_tick_cases[where h = h and c = c and energy = energy and tk = tk and evs = evs and m = m])
      case idle
      with Cons.prems MonTick have "monitor_loop h c energy evs ?s = Returned (b, en) m'" by simp
      with Cons.IH[of ?s energy] Cons.prems show ?thesis by simp
    next
      case refused
      with Cons.prems MonTick show ?thesis by auto
    next
      case (local_stuck m1)
      with Cons.prems MonTick show ?thesis by simp
    next
      case (local_kill m1 step)
      with Cons.prems MonTick show ?thesis by auto
    next
      case (cycle step t total_j)
      let ?r = "runPauseCycle h c (tk_cycle tk) energy (ResolvedActionName energy) step t total_j ?s"
      obtain thr k q m2 where r: "?r = Returned (thr, k, q) m2"
        using Cons.prems(4) cycle MonTick by (auto split: run.splits)
      obtain cy m1 where m1: "m2 = m1\<lparr>mres := addCycle cy (mres m1)\<rparr>" "cycle_result h c (tk_cycle tk) energy ?s thr k q cy m1"
        using runPauseCycle_returned(2)[OF r] Cons.prems(2) by auto
      have ag: "agree c e0 s0 (mmeter m2) (mmarks m2)"
        using m1 Cons.prems(1) by (auto simp: cycle_result_def)
      show ?thesis
      proof (cases k)
        case True
        with r cycle MonTick Cons.prems(4) ag show ?thesis by auto
      next
        case False
        then have "monitor_loop h c (energy\<lparr>ExecutionThresholdJ := thr\<rparr>) evs (m2\<lparr>mres := setThreshold thr (mres m2)\<rparr>) = Returned (b, en) m'"
          using r cycle MonTick Cons.prems(4) by simp
        with Cons.IH[of "m2\<lparr>mres := setThreshold thr (mres m2)\<rparr>"] ag m1 False Cons.prems(3) show ?thesis
          by (auto simp: cycle_result_def)
      qed
    qed
  qed
qed simp

lemma monitor_loop_threshold:
  "(thresholdUpdated (mres m) \<Longrightarrow> mr_thresholdJ (mres m) = ExecutionThresholdJ energy) \<Longrightarrow> \<not> frozen (mmeter m) \<Longrightarrow>
   monitor_loop h c energy evs m = Returned (b, en) m' \<Longrightarrow>
     en = energy\<lparr>ExecutionThresholdJ := (if thresholdUpdated (mres m') then mr_thresholdJ (mres m') else ExecutionThresholdJ energy)\<rparr> \<and>
     (thresholdUpdated (mres m) \<longrightarrow> thresholdUpdated (mres m'))"
proof (induction evs arbitrary: energy m)
  case (Cons ev evs)
  show ?case
  proof (cases ev)
    case MonStop
    with Cons.prems show ?thesis by auto
  next
    case (MonTick tk)
    let ?s = "m\<lparr>mres := noteSample (tk_busy tk) (mres m)\<rparr>"
    show ?thesis
    proof (cases rule: monitor_tick_cases[where h = h and c = c and energy = energy and tk = tk and evs = evs and m = m])
      case idle
      with Cons.prems MonTick have "monitor_loop h c energy evs ?s = Returned (b, en) m'" by simp
      with Cons.IH[of ?s energy] Cons.prems show ?thesis by simp
    next
      case refused
      with Cons.prems MonTick show ?thesis by auto
    next
      case (local_stuck m1)
      with Cons.prems MonTick show ?thesis by simp
    next
      case (local_kill m1 step)
      with Cons.prems MonTick show ?thesis by auto
    next
      case (cycle step t total_j)
      let ?r = "runPauseCycle h c (tk_cycle tk) energy (ResolvedActionName energy) step t total_j ?s"
      obtain thr k q m2 where r: "?r = Returned (thr, k, q) m2"
        using Cons.prems(3) cycle MonTick by (auto split: run.splits)
      obtain cy m1 where m1: "m2 = m1\<lparr>mres := addCycle cy (mres m1)\<rparr>" "cycle_result h c (tk_cycle tk) energy ?s thr k q cy m1"
        using runPauseCycle_returned(2)[OF r] Cons.prems(2) by auto
      show ?thesis
      proof (cases k)
        case True
        with m1(2) obtain t0 t1 cause where "mres m1 = noteKill t0 t1 cause (mres ?s)" by (auto simp: cycle_result_def)
        with r cycle MonTick Cons.prems m1(1) True show ?thesis by auto
      next
        case False
        then have "monitor_loop h c (energy\<lparr>ExecutionThresholdJ := thr\<rparr>) evs (m2\<lparr>mres := setThreshold thr (mres m2)\<rparr>) = Returned (b, en) m'"
          using r cycle MonTick Cons.prems(3) by simp
        with Cons.IH[of "m2\<lparr>mres := setThreshold thr (mres m2)\<rparr>" "energy\<lparr>ExecutionThresholdJ := thr\<rparr>"] m1 False show ?thesis
          by (auto simp: cycle_result_def)
      qed
    qed
  qed
qed simp

end
