(* ===== verification/Monitor_Laws.thy ===== *)
theory Monitor_Laws
  imports Monitor
begin

text \<open>
  The properties of the energy monitor (\<open>Monitor\<close>): what it may never do to a step that must
  not be killed, what it needs before it resumes one, what it records, and what a killed step is
  settled at.
\<close>

section \<open>Nothing below the threshold\<close>

text \<open>A sample that leaves the step alone: it fails, or shows less than the threshold.\<close>

definition quiet_tick :: "rapl_cfg \<Rightarrow> EnergyState \<Rightarrow> stepMeter \<Rightarrow> int \<Rightarrow> tick_io \<Rightarrow> bool" where
  "quiet_tick c energy meter pid tk = (case readEnergy (tk_host tk) of
       (_, Some _) \<Rightarrow> True
     | (e, None) \<Rightarrow> f_lt (f_add (ConsumedBeforeJ energy) (stepJ c meter e (readCPUSnapshot (tk_host tk) pid))) (ExecutionThresholdJ energy))"

fun quiet_event :: "rapl_cfg \<Rightarrow> EnergyState \<Rightarrow> stepMeter \<Rightarrow> int \<Rightarrow> mon_event \<Rightarrow> bool" where
  "quiet_event c energy meter pid MonStop = True"
| "quiet_event c energy meter pid (MonTick tk) = quiet_tick c energy meter pid tk"

fun ticks_before_stop :: "mon_event list \<Rightarrow> nat" where
  "ticks_before_stop [] = 0"
| "ticks_before_stop (MonStop # evs) = 0"
| "ticks_before_stop (MonTick tk # evs) = Suc (ticks_before_stop evs)"

lemma monitor_loop_quiet:
  "list_all (quiet_event c energy (mmeter m) (mpid m)) evs \<Longrightarrow>
     \<exists>r. monitor_loop h c energy evs m = Returned (MonStop \<in> set evs, energy) (m\<lparr>mres := r\<rparr>) \<and>
         mr_killed r = mr_killed (mres m) \<and> Cycles (mr_lifecycle r) = Cycles (mr_lifecycle (mres m)) \<and>
         thresholdUpdated r = thresholdUpdated (mres m) \<and>
         i64 (MonitorSamples (mr_lifecycle r)) = i64 (MonitorSamples (mr_lifecycle (mres m)) + int (ticks_before_stop evs))"
proof (induction evs arbitrary: m)
  case Nil
  then show ?case by (intro exI[of _ "mres m"]) simp
next
  case (Cons ev evs)
  show ?case
  proof (cases ev)
    case MonStop
    then show ?thesis by (intro exI[of _ "mres m"]) simp
  next
    case (MonTick tk)
    let ?s = "m\<lparr>mres := noteSample (tk_busy tk) (mres m)\<rparr>"
    have q: "quiet_tick c energy (mmeter m) (mpid m) tk" using Cons.prems MonTick by simp
    have eq: "monitor_loop h c energy (MonTick tk # evs) m = monitor_loop h c energy evs ?s"
      using q by (auto simp: quiet_tick_def Let_def split: prod.splits option.splits)
    have "list_all (quiet_event c energy (mmeter ?s) (mpid ?s)) evs"
      using Cons.prems by (simp add: mpid_def)
    from Cons.IH[OF this] obtain r where r: "monitor_loop h c energy evs ?s = Returned (MonStop \<in> set evs, energy) (?s\<lparr>mres := r\<rparr>)"
      "mr_killed r = mr_killed (mres ?s)" "Cycles (mr_lifecycle r) = Cycles (mr_lifecycle (mres ?s))"
      "thresholdUpdated r = thresholdUpdated (mres ?s)"
      "i64 (MonitorSamples (mr_lifecycle r)) = i64 (MonitorSamples (mr_lifecycle (mres ?s)) + int (ticks_before_stop evs))" by blast
    have n: "i64 (MonitorSamples (mr_lifecycle (mres ?s)) + int (ticks_before_stop evs)) =
        i64 (MonitorSamples (mr_lifecycle (mres m)) + int (ticks_before_stop (MonTick tk # evs)))"
      by (simp add: noteSample_def add.assoc)
    show ?thesis
      unfolding MonTick eq r(1) using r(2-5) n by (intro exI[of _ r]) (simp add: noteSample_def)
  qed
qed

section \<open>A state that was lost\<close>

lemma unknown_round:
  assumes "unkillable energy" "acState (mctl m) = StateUnknown"
  shows "\<exists>cy' m'. pause_round h c energy p ev rd cy m = Again cy' m' \<and> acState (mctl m') = StateUnknown"
proof -
  obtain reply tr err where post: "postExecutionPaused (rd_call rd) ev = (reply, tr, err)"
    by (cases "postExecutionPaused (rd_call rd) ev")
  let ?cy = "note_call rd tr cy" and ?m = "emit [MPost ev] m"
  obtain cy1 m1 where r: "refineCycleWhileFrozen c (rd_frozen rd) (ConsumedBeforeJ energy) (?cy, ?m) = (cy1, m1)" by fastforce
  have "acState (mctl m1) = StateUnknown" using refine_facts(1)[OF r] assms(2) by simp
  then show ?thesis
    using assms by (auto simp: pause_round_def post Let_def killOrRetry_unkillable resume_round_def r resumeExecution_def split: option.split)
qed

lemma unknown_loop:
  assumes "unkillable energy"
  shows "acState (mctl m) = StateUnknown \<Longrightarrow> \<exists>m'. pause_loop h c energy p ev rds cy m = Waiting m' \<and> acState (mctl m') = StateUnknown"
proof (induction rds arbitrary: cy m)
  case (Cons rd rds)
  obtain cy' m' where "pause_round h c energy p ev rd cy m = Again cy' m'" "acState (mctl m') = StateUnknown"
    using unknown_round[OF assms Cons.prems] by blast
  with Cons.IH show ?case by simp
qed simp

section \<open>A kill from an unknown state\<close>

lemma kill_unknown:
  "acState (mctl m) = StateUnknown \<Longrightarrow> \<exists>m'. kill_and_end h p k cause cy m = Ended (Fin 0, True, p) cy m' \<and>
     acState (mctl m') = StateUnknown \<and> mfx m' = mfx m @ [MKill p]"
  by (simp add: kill_and_end_def kill_now_def killExecution_def Let_def)

lemma freeze_failure_not_killed:
  assumes "\<not> unkillable energy" "acState (mctl m) = StateRunning" "cgroup_freeze h (cy_freeze io) = Some (Some err)"
  shows "\<exists>m'. runPauseCycle h c io energy an st t a m = Returned (Fin 0, True, newPauseID (cy_random io) (cy_nano io)) m' \<and>
     acState (mctl m') = StateUnknown \<and> MCgroup (CgWrite ''cgroup.kill'' ''1'') \<notin> set (drop (length (mfx m)) (mfx m'))"
  using assms
  by (simp add: runPauseCycle_def Let_def freezeExecution_def kill_and_end_def kill_now_def killExecution_def end_cycle_def)

lemma resume_failure_not_killed:
  assumes "\<not> unkillable energy" "acState (mctl m) = StateFrozen" "cgroup_unfreeze h (rd_resume rd) = Some (Some err)"
  shows "\<exists>cy' m'. resume_round h c energy (lastPauseID (mctl m)) rd thr cy m = Ended (Fin 0, True, lastPauseID (mctl m)) cy' m' \<and>
     acState (mctl m') = StateUnknown \<and> MCgroup (CgWrite ''cgroup.kill'' ''1'') \<notin> set (drop (length (mfx m)) (mfx m'))"
proof -
  let ?p = "lastPauseID (mctl m)"
  obtain cy1 m1 where r1: "refineCycleWhileFrozen c (rd_frozen rd) (ConsumedBeforeJ energy) (cy, m) = (cy1, m1)" by fastforce
  have m1: "mctl m1 = mctl m" "mfx m1 = mfx m" using refine_facts[OF r1] by simp_all
  let ?m2 = "(emit [MCgroup (CgWrite ''cgroup.freeze'' ''0'')] (emit [MResume ?p] m1))\<lparr>mctl := (mctl m)\<lparr>acState := StateUnknown\<rparr>\<rparr>"
  obtain cy2 m2 where r2: "refineCycleWhileFrozen c (rd_failed rd) (ConsumedBeforeJ energy) (cy1, ?m2) = (cy2, m2)" by fastforce
  have m2: "mctl m2 = mctl ?m2" "mfx m2 = mfx ?m2" using refine_facts[OF r2] by simp_all
  have "resume_round h c energy ?p rd thr cy m = kill_and_end h ?p (rd_kill rd) ''RESUME_FAILED'' cy2 m2"
    using assms m1 r2 by (simp add: resume_round_def r1 Let_def resumeExecution_def killOrRetry_def)
  with kill_unknown[of m2 h ?p "rd_kill rd" "''RESUME_FAILED''" cy2] m1 m2 show ?thesis by auto
qed

section \<open>Properties\<close>

text \<open>C1: a step that must not be killed is never killed by its monitor. For a step whose
  interruption class is UNKILLABLE (or could not be resolved), whatever is sampled, however the
  cgroup behaves and whatever the scheduler answers, \<^verbatim>\<open>KILL_EXECUTION\<close> included, no kill is
  asked for, nothing is written to \<^verbatim>\<open>cgroup.kill\<close>, and no kill is reported.\<close>

theorem unkillable_never_killed:
  assumes "isNonInterruptibleForThisStep (Some energy)"
  shows "kill_free (mfx (run_mon (monitorEnergy h c start_h energy evs ctl marks)))
       \<and> \<not> mr_killed (mres (run_mon (monitorEnergy h c start_h energy evs ctl marks)))"
proof -
  have nf: "\<not> frozen (newStepMeter e s)" for e s by (simp add: newStepMeter_def)
  show ?thesis
    using monitor_loop_unkillable[OF assms] nf
    by (auto simp: monitorEnergy_def Let_def new_result_def split: prod.split option.split)
qed

text \<open>C2: an activation is set running again only on the scheduler's word. A pause cycle that
  returns without a kill has received \<^verbatim>\<open>RESUME_EXECUTION\<close> for this very pause, after posting
  \<^verbatim>\<open>EXECUTION_PAUSED\<close> for it and before resuming, and the threshold it returns is the
  command's; the only other way is an unkillable step that could not be frozen, which keeps its
  threshold.\<close>

theorem resume_needs_command:
  assumes "runPauseCycle h c io energy an st t a m = Returned (thr, False, q) m'" "\<not> frozen (mmeter m)"
  shows "freeze_failed h io m \<and> isNonInterruptibleForThisStep (Some energy) \<and> thr = ExecutionThresholdJ energy
       \<or> acState (mctl m') = StateRunning \<and>
         (\<exists>ev pre new. pe_PauseID ev = q \<and> mfx m' = mfx m @ MFreeze q # pre @ [MPost ev, MResume q] @ new \<and>
            (\<exists>rd \<in> set (cy_rounds io). \<exists>command tr. postExecutionPaused (rd_call rd) ev = (Some command, tr, None) \<and>
               sc_PauseID command = q \<and> Command command = ''RESUME_EXECUTION'' \<and> thr = NewExecutionThresholdJ command))"
proof -
  obtain cy m1 where m1: "m' = m1\<lparr>mres := addCycle cy (mres m1)\<rparr>" "cycle_result h c io energy m thr False q cy m1"
    using runPauseCycle_returned(2)[OF assms] by blast
  show ?thesis
  proof (cases "freeze_failed h io m")
    case True
    with m1(2) show ?thesis by (simp add: cycle_result_def)
  next
    case False
    with m1(2) obtain ev pre new rd command tr where "acState (mctl m1) = StateRunning" "pe_PauseID ev = q"
      "mfx m1 = mfx m @ MFreeze q # pre @ [MPost ev, MResume q] @ new" "rd \<in> set (cy_rounds io)"
      "postExecutionPaused (rd_call rd) ev = (Some command, tr, None)" "sc_PauseID command = q"
      "Command command = ''RESUME_EXECUTION''" "thr = NewExecutionThresholdJ command"
      unfolding cycle_result_def by auto
    with m1(1) show ?thesis by auto
  qed
qed

text \<open>C34: every pause cycle that returns has added exactly one record to the lifecycle, under its
  own identifier. Its outcome is \<^verbatim>\<open>resumed\<close> exactly when the step was resumed; it is
  \<^verbatim>\<open>killed\<close> otherwise, also for an unkillable step that could not be frozen and was not
  killed.\<close>

theorem cycle_recorded_once:
  assumes "runPauseCycle h c io energy an st t a m = Returned (thr, k, q) m'" "\<not> frozen (mmeter m)"
  shows "\<exists>cy. Cycles (mr_lifecycle (mres m')) = Cycles (mr_lifecycle (mres m)) @ [cy] \<and> pcPauseID cy = q
     \<and> q = newPauseID (cy_random io) (cy_nano io)
     \<and> Outcome cy = (if \<not> k \<and> \<not> freeze_failed h io m then ''resumed'' else ''killed'')"
proof -
  obtain cy m1 where m1: "m' = m1\<lparr>mres := addCycle cy (mres m1)\<rparr>" "cycle_result h c io energy m thr k q cy m1"
    using runPauseCycle_returned(2)[OF assms] by blast
  have "Cycles (mr_lifecycle (mres m1)) = Cycles (mr_lifecycle (mres m))"
    using m1(2) by (auto simp: cycle_result_def noteKill_def split: if_splits)
  with m1 runPauseCycle_returned(1)[OF assms] show ?thesis
    by (intro exI[of _ cy]) (auto simp: cycle_result_def addCycle_def split: if_splits)
qed

text \<open>A step killed while frozen is settled at its effective freeze. When the monitor has
  killed a step whose meter is frozen, the energy it reports is the energy of the execution
  segments that the marks describe, which is what the collector is sent, whatever the counters
  read after the kill.\<close>

theorem killed_step_settled_at_freeze:
  assumes "readEnergy start_h = (e0, None)"
    and "monitorEnergy h c start_h energy evs ctl [] = Returned (b, en) m'"
    and "mr_killed (mres m')" "frozen (mmeter m')"
  shows "mr_consumedJ (mres m') =
     joules (AttributedUJ (segmentedAttribution c e0 e (readCPUSnapshot start_h (ac_Pid ctl)) s (mmarks m')))"
proof -
  let ?s0 = "readCPUSnapshot start_h (ac_Pid ctl)"
  let ?m = "\<lparr>mctl = ctl, mmeter = newStepMeter e0 ?s0, mmarks = [], mres = new_result, mfx = []\<rparr>"
  have "monitor_loop h c energy evs ?m = Returned (b, en) m'"
    using assms(1,2) by (simp add: monitorEnergy_def Let_def)
  then have "agree c e0 ?s0 (mmeter m') (mmarks m')" "mr_consumedJ (mres m') = closedJ (mmeter m')"
    using monitor_loop_settled[of c e0 ?s0 ?m] assms(3,4) agree_new by (auto simp: newStepMeter_def new_result_def)
  with agree_stepJ[of c e0 ?s0 "mmeter m'" "mmarks m'" e s] assms(4) show ?thesis
    by (simp add: stepJ_def)
qed

text \<open>The threshold a step ends with is the one the monitor publishes: the last extension
  granted, or the initial threshold when there was none. The monitor changes nothing else in its
  copy of the energy state.\<close>

theorem threshold_published:
  assumes "monitorEnergy h c start_h energy evs ctl marks = Returned (b, en) m'"
  shows "en = energy\<lparr>ExecutionThresholdJ :=
     (case finalThreshold (mres m') of (thr, updated) \<Rightarrow> if updated then thr else ExecutionThresholdJ energy)\<rparr>"
proof -
  obtain e err where re: "readEnergy start_h = (e, err)" by fastforce
  let ?m = "\<lparr>mctl = ctl, mmeter = newStepMeter e (readCPUSnapshot start_h (ac_Pid ctl)), mmarks = marks, mres = new_result, mfx = []\<rparr>"
  show ?thesis
  proof (cases err)
    case (Some x)
    with assms re show ?thesis by (auto simp: monitorEnergy_def new_result_def finalThreshold_def)
  next
    case None
    with assms re have "monitor_loop h c energy evs ?m = Returned (b, en) m'" by (simp add: monitorEnergy_def Let_def)
    from monitor_loop_threshold[OF _ _ this] show ?thesis
      by (simp add: new_result_def finalThreshold_def newStepMeter_def)
  qed
qed

text \<open>A step that stays below its threshold is left alone. As long as every sample that could
  be read is below the threshold, the monitor freezes nothing, kills nothing, posts nothing, and
  returns when it is told to stop, having counted its samples.\<close>

theorem below_threshold_untouched:
  assumes "readEnergy start_h = (e0, None)"
    and "list_all (quiet_event c energy (newStepMeter e0 (readCPUSnapshot start_h (ac_Pid ctl))) (ac_Pid ctl)) evs"
  shows "\<exists>m'. monitorEnergy h c start_h energy evs ctl marks = Returned (MonStop \<in> set evs, energy) m'
     \<and> mfx m' = [] \<and> mctl m' = ctl \<and> mmarks m' = marks \<and> \<not> mr_killed (mres m') \<and> Cycles (mr_lifecycle (mres m')) = []
     \<and> i64 (MonitorSamples (mr_lifecycle (mres m'))) = i64 (int (ticks_before_stop evs))"
proof -
  let ?m = "\<lparr>mctl = ctl, mmeter = newStepMeter e0 (readCPUSnapshot start_h (ac_Pid ctl)), mmarks = marks, mres = new_result, mfx = []\<rparr>"
  have eq: "monitorEnergy h c start_h energy evs ctl marks = monitor_loop h c energy evs ?m"
    using assms(1) by (simp add: monitorEnergy_def Let_def)
  have "list_all (quiet_event c energy (mmeter ?m) (mpid ?m)) evs"
    using assms(2) by (simp add: mpid_def)
  from monitor_loop_quiet[OF this, of h] obtain r where
    r: "monitor_loop h c energy evs ?m = Returned (MonStop \<in> set evs, energy) (?m\<lparr>mres := r\<rparr>)"
    "mr_killed r = mr_killed new_result" "Cycles (mr_lifecycle r) = Cycles (mr_lifecycle new_result)"
    "i64 (MonitorSamples (mr_lifecycle r)) = i64 (MonitorSamples (mr_lifecycle new_result) + int (ticks_before_stop evs))"
    by auto
  show ?thesis
    using r by (intro exI[of _ "?m\<lparr>mres := r\<rparr>"]) (simp add: eq new_result_def zero_lifecycle_def)
qed

text \<open>C15: a kill that follows a failed freeze or a failed resume never happens. The failure leaves
  the controller UNKNOWN, from where it refuses to kill: nothing is written to
  \<^verbatim>\<open>cgroup.kill\<close>, and yet the cycle ends as killed, which is what is then reported.\<close>

theorem kill_after_failure_is_refused:
  assumes "\<not> isNonInterruptibleForThisStep (Some energy)"
  shows "(acState (mctl m) = StateRunning \<and> cgroup_freeze h (cy_freeze io) = Some (Some err) \<longrightarrow>
      (\<exists>m'. runPauseCycle h c io energy an st t a m = Returned (Fin 0, True, newPauseID (cy_random io) (cy_nano io)) m' \<and>
        acState (mctl m') = StateUnknown \<and> MCgroup (CgWrite ''cgroup.kill'' ''1'') \<notin> set (drop (length (mfx m)) (mfx m'))))
    \<and> (acState (mctl m) = StateFrozen \<and> cgroup_unfreeze h (rd_resume rd) = Some (Some err') \<longrightarrow>
      (\<exists>cy' m'. resume_round h c energy (lastPauseID (mctl m)) rd thr cy m = Ended (Fin 0, True, lastPauseID (mctl m)) cy' m' \<and>
        acState (mctl m') = StateUnknown \<and> MCgroup (CgWrite ''cgroup.kill'' ''1'') \<notin> set (drop (length (mfx m)) (mfx m'))))"
  using freeze_failure_not_killed[OF assms] resume_failure_not_killed[OF assms] by blast

text \<open>C35: an unkillable step whose resume failed never leaves its pause cycle. After a
  \<^verbatim>\<open>RESUME_EXECUTION\<close> whose write or confirmation failed, the controller is UNKNOWN, every
  later \<^verbatim>\<open>RESUME_EXECUTION\<close> is refused by it, and the cycle goes on posting for as many rounds
  as there are.\<close>

theorem failed_resume_never_ends:
  assumes "isNonInterruptibleForThisStep (Some energy)"
    and "acState (mctl m) = StateFrozen" "lastPauseID (mctl m) = p"
    and "postExecutionPaused (rd_call rd) ev = (Some command, tr, None)"
    and "sc_PauseID command = p" "Command command = ''RESUME_EXECUTION''"
    and "cgroup_unfreeze h (rd_resume rd) = Some (Some err)"
  shows "\<exists>m'. pause_loop h c energy p ev (rd # rds) cy m = Waiting m' \<and> acState (mctl m') = StateUnknown"
proof -
  let ?cy = "note_call rd tr cy" and ?m = "emit [MPost ev] m"
  obtain cy1 m1 where r: "refineCycleWhileFrozen c (rd_frozen rd) (ConsumedBeforeJ energy) (?cy, ?m) = (cy1, m1)" by fastforce
  have m1: "mctl m1 = mctl m" using refine_facts(1)[OF r] by simp
  have "\<exists>cy' m'. pause_round h c energy p ev rd cy m = Again cy' m' \<and> acState (mctl m') = StateUnknown"
    using assms m1
    by (simp add: pause_round_def Let_def resume_round_def r resumeExecution_def killOrRetry_unkillable)
  then obtain cy' m' where "pause_round h c energy p ev rd cy m = Again cy' m'" "acState (mctl m') = StateUnknown" by blast
  with unknown_loop[OF assms(1), of m' h c p ev rds cy'] show ?thesis by simp
qed

text \<open>Which steps are monitored. Enforcement needs a positive threshold; a step whose own
  class could not be resolved is never monitored, and that refusal is the one that is logged.\<close>

theorem monitored_steps:
  "shouldMonitorEnergy energy =
     (case energy of None \<Rightarrow> (False, False)
      | Some st \<Rightarrow> (\<not> f_le (ExecutionThresholdJ st) (Fin 0) \<and> \<not> (InterruptionClass st \<noteq> None \<and> ResolvedActionName st = []),
          \<not> f_le (ExecutionThresholdJ st) (Fin 0) \<and> InterruptionClass st \<noteq> None \<and> ResolvedActionName st = []))
   \<and> (fst (shouldMonitorEnergy energy) \<and> isNonInterruptibleForThisStep energy \<longleftrightarrow>
        (\<exists>st m. energy = Some st \<and> fst (shouldMonitorEnergy energy) \<and> InterruptionClass st = Some m \<and>
           map_of m (ResolvedActionName st) = Some ''UNKILLABLE''))"
  by (auto simp: shouldMonitorEnergy_def interruptionClassUnresolved_def isNonInterruptibleForThisStep_def split: option.splits)

section \<open>A step that reaches its threshold\<close>

text \<open>An activation of the process 42 in the cgroup \<^verbatim>\<open>/sys/fs/cgroup/ow/act-1\<close>, sampled once above
  its threshold of 50 J.\<close>

definition act_host :: "string \<Rightarrow> string \<Rightarrow> int \<Rightarrow> host" where
  "act_host energy cpu t = \<lparr>getenv = (\<lambda>_. []),
     files = (\<lambda>p. if p = ''/sys/class/powercap/intel-rapl/intel-rapl:0/energy_uj'' then Some energy
                  else if p = ''/proc/42/cgroup'' then Some ''0::/ow/act-1''
                  else if p = ''/sys/fs/cgroup/ow/act-1/cpu.stat'' then Some (''usage_usec '' @ cpu) else None),
     now = t\<rparr>"

definition act_kill :: kill_io where
  "act_kill = \<lparr>k_io = (quick_kill, Some (2000, None)), k_requested = 0, k_stopped = 1000000000\<rparr>"

definition act_thaw :: cg_io where
  "act_thaw = \<lparr>io_write = True, io_start = 0, io_polls = [(Some ''frozen 0'', 1000)]\<rparr>"

definition act_round :: "string \<Rightarrow> cg_io \<Rightarrow> round_io" where
  "act_round command thaw = \<lparr>rd_sent = 0, rd_received = 500,
     rd_call = \<lparr>pi_url_ok = True, pi_start = 0, pi_notes = [],
                pi_response = BodyJson (JObj [(''command'', JStr command), (''pause_id'', JStr ''pause-''), (''new_execution_threshold_j'', JNum (Fin 400))]),
                pi_end = 500\<rparr>,
     rd_frozen = act_host ''100000000'' ''1000'' 5000000, rd_failed = act_host ''100000000'' ''1000'' 5000000,
     rd_resume = thaw, rd_resume_at = 0, rd_resumed_at = 0,
     rd_resumed = act_host ''300000000'' ''1000'' 9000000, rd_kill = act_kill\<rparr>"

definition act_cycle :: "round_io list \<Rightarrow> cycle_io" where
  "act_cycle rds = \<lparr>cy_random = Some [], cy_nano = 0, cy_requested = 0, cy_effective = 0, cy_freeze = slow_freeze,
     cy_kill = act_kill, cy_frozen = act_host ''100000000'' ''1000'' 1000000, cy_rounds = rds\<rparr>"

definition act_tick :: "round_io list \<Rightarrow> tick_io" where
  "act_tick rds = \<lparr>tk_host = act_host ''90000000'' ''1000'' 1000000, tk_busy = 700, tk_detected = 0, tk_kill = act_kill,
     tk_cycle = act_cycle rds\<rparr>"

definition act_energy :: "string \<Rightarrow> EnergyState" where
  "act_energy name = sample_state\<lparr>ResolvedActionName := name\<rparr>"

definition act_mon :: mon where
  "act_mon = \<lparr>mctl = started_controller, mmeter = newStepMeter 0 \<lparr>ProcessTicks = 0, WallNs = 0\<rparr>, mmarks = [],
     mres = noteSample 700 new_result, mfx = []\<rparr>"

definition act_pause :: "string \<Rightarrow> round_io list \<Rightarrow> (f64 \<times> bool \<times> string) run" where
  "act_pause name rds = runPauseCycle bare_host cfg_example (act_cycle rds) (act_energy name) name (Fin 90) 0 (Fin 90) act_mon"

definition act_run :: "string \<Rightarrow> round_io list \<Rightarrow> (bool \<times> EnergyState) run" where
  "act_run name rds = monitorEnergy bare_host cfg_example (act_host ''0'' ''0'' 0) (act_energy name)
     [MonTick (act_tick rds), MonStop] started_controller []"

lemma act_start:
  "readEnergy (act_host ''0'' ''0'' 0) = (0, None)"
  "readCPUSnapshot (act_host ''0'' ''0'' 0) 42 = \<lparr>ProcessTicks = 0, WallNs = 0\<rparr>"
  by code_simp+

lemma act_sample:
  "readEnergy (act_host ''90000000'' ''1000'' 1000000) = (90000000, None)"
  "readCPUSnapshot (act_host ''90000000'' ''1000'' 1000000) 42 = \<lparr>ProcessTicks = 1000, WallNs = 1000000\<rparr>"
  "stepJ cfg_example (newStepMeter 0 \<lparr>ProcessTicks = 0, WallNs = 0\<rparr>) 90000000 \<lparr>ProcessTicks = 1000, WallNs = 1000000\<rparr> = Fin 90"
  by code_simp+

lemma act_step: "f_add (Fin 0) (Fin 90) = Fin 90" "\<not> f_lt (Fin 90) (Fin 50)"
  by code_simp+

lemma act_started: "ac_Pid started_controller = 42"
  by code_simp

text \<open>The tick reaches the threshold, and the run is the pause cycle and what follows it.\<close>

lemma act_run_cycle:
  "act_run name rds = (case act_pause name rds of
       Waiting m' \<Rightarrow> Waiting m'
     | Returned (thr, killed, pauseID) m' \<Rightarrow>
         if killed then Returned (True, act_energy name) (m'\<lparr>mres := setKilled
           (if frozen (mmeter m') then closedJ (mmeter m') else Fin 90) pauseID (mres m')\<rparr>)
         else Returned (True, (act_energy name)\<lparr>ExecutionThresholdJ := thr\<rparr>) (m'\<lparr>mres := setThreshold thr (mres m')\<rparr>))"
  by (simp add: act_run_def act_pause_def monitorEnergy_def Let_def act_start act_started act_tick_def act_sample act_mon_def
      mpid_def act_energy_def sample_state_def act_step split: run.split prod.split del: f_add.simps f_lt.simps)

lemma act_resumed:
  "case act_pause ''tts'' [act_round ''RESUME_EXECUTION'' act_thaw] of
     Returned (thr, k, q) m \<Rightarrow> thr = Fin 400 \<and> \<not> k \<and> q = ''pause-'' | Waiting _ \<Rightarrow> False"
  by code_simp

lemma act_killed:
  "case act_pause ''tts'' [act_round ''KILL_EXECUTION'' act_thaw] of
     Returned (thr, k, q) m \<Rightarrow> k \<and> frozen (mmeter m) \<and> closedJ (mmeter m) = Fin 100 | Waiting _ \<Rightarrow> False"
  by code_simp

lemma act_unkillable: "isNonInterruptibleForThisStep (Some (act_energy ''ocr''))"
  by code_simp

theorem unkillable_never_killed_witness:
  "kill_free (mfx (run_mon (act_run ''ocr'' [act_round ''KILL_EXECUTION'' act_thaw])))"
  using unkillable_never_killed[OF act_unkillable, of bare_host cfg_example "act_host ''0'' ''0'' 0"
      "[MonTick (act_tick [act_round ''KILL_EXECUTION'' act_thaw]), MonStop]" started_controller "[]"]
  by (simp add: act_run_def)

lemma act_mon_running: "\<not> frozen (mmeter act_mon)"
  by (simp add: act_mon_def newStepMeter_def)

lemma act_freezes: "\<not> freeze_failed bare_host (act_cycle [act_round ''RESUME_EXECUTION'' act_thaw]) act_mon"
  by code_simp

theorem resume_needs_command_witness:
  "\<exists>m'. act_pause ''tts'' [act_round ''RESUME_EXECUTION'' act_thaw] = Returned (Fin 400, False, ''pause-'') m' \<and>
     acState (mctl m') = StateRunning \<and> MResume ''pause-'' \<in> set (mfx m')"
proof -
  obtain m' where m': "act_pause ''tts'' [act_round ''RESUME_EXECUTION'' act_thaw] = Returned (Fin 400, False, ''pause-'') m'"
    using act_resumed by (auto split: run.splits)
  with resume_needs_command[OF m'[unfolded act_pause_def] act_mon_running] act_freezes show ?thesis by auto
qed

theorem cycle_recorded_once_witness:
  "\<exists>m' cy. act_pause ''tts'' [act_round ''RESUME_EXECUTION'' act_thaw] = Returned (Fin 400, False, ''pause-'') m' \<and>
     Cycles (mr_lifecycle (mres m')) = [cy] \<and> Outcome cy = ''resumed''"
proof -
  obtain m' where m': "act_pause ''tts'' [act_round ''RESUME_EXECUTION'' act_thaw] = Returned (Fin 400, False, ''pause-'') m'"
    using act_resumed by (auto split: run.splits)
  have "Cycles (mr_lifecycle (mres act_mon)) = []"
    by (simp add: act_mon_def noteSample_def new_result_def zero_lifecycle_def)
  with m' cycle_recorded_once[OF m'[unfolded act_pause_def] act_mon_running] act_freezes show ?thesis by auto
qed

theorem killed_step_settled_at_freeze_witness:
  "\<exists>m'. act_run ''tts'' [act_round ''KILL_EXECUTION'' act_thaw] = Returned (True, act_energy ''tts'') m' \<and>
     mr_consumedJ (mres m') = Fin 100 \<and>
     joules (AttributedUJ (segmentedAttribution cfg_example 0 999000000 \<lparr>ProcessTicks = 0, WallNs = 0\<rparr>
       \<lparr>ProcessTicks = 1000, WallNs = 99000000\<rparr> (mmarks m'))) = Fin 100"
proof -
  let ?r = "act_pause ''tts'' [act_round ''KILL_EXECUTION'' act_thaw]"
  obtain thr q m1 where m1: "?r = Returned (thr, True, q) m1" "frozen (mmeter m1)" "closedJ (mmeter m1) = Fin 100"
    using act_killed by (auto split: run.splits)
  define m' where "m' = m1\<lparr>mres := setKilled (Fin 100) q (mres m1)\<rparr>"
  have run: "act_run ''tts'' [act_round ''KILL_EXECUTION'' act_thaw] = Returned (True, act_energy ''tts'') m'"
    using m1 by (simp add: act_run_cycle m'_def)
  have k: "mr_killed (mres m')" "frozen (mmeter m')" "mr_consumedJ (mres m') = Fin 100"
    using m1 by (simp_all add: m'_def)
  show ?thesis
    using killed_step_settled_at_freeze[OF act_start(1) run[unfolded act_run_def] k(1,2),
        of 999000000 "\<lparr>ProcessTicks = 1000, WallNs = 99000000\<rparr>"] run k(3)
    by (simp add: act_started act_start)
qed

theorem threshold_published_witness:
  "\<exists>en m'. act_run ''tts'' [act_round ''RESUME_EXECUTION'' act_thaw] = Returned (True, en) m' \<and> ExecutionThresholdJ en = Fin 400"
proof -
  let ?r = "act_pause ''tts'' [act_round ''RESUME_EXECUTION'' act_thaw]"
  obtain q m1 where m1: "?r = Returned (Fin 400, False, q) m1" using act_resumed by (auto split: run.splits)
  define en where "en = (act_energy ''tts'')\<lparr>ExecutionThresholdJ := Fin 400\<rparr>"
  define m' where "m' = m1\<lparr>mres := setThreshold (Fin 400) (mres m1)\<rparr>"
  have run: "act_run ''tts'' [act_round ''RESUME_EXECUTION'' act_thaw] = Returned (True, en) m'"
    using m1 by (simp add: act_run_cycle m'_def en_def)
  have "ExecutionThresholdJ en = Fin 400"
    using threshold_published[OF run[unfolded act_run_def]] by (simp add: finalThreshold_def m'_def)
  with run show ?thesis by blast
qed

theorem below_threshold_untouched_witness:
  "\<exists>m'. monitorEnergy bare_host cfg_example (act_host ''0'' ''0'' 0) ((act_energy ''tts'')\<lparr>ExecutionThresholdJ := Fin 95\<rparr>)
      [MonTick (act_tick []), MonStop] started_controller [] = Returned (True, (act_energy ''tts'')\<lparr>ExecutionThresholdJ := Fin 95\<rparr>) m' \<and> mfx m' = []"
proof -
  have lt: "f_lt (Fin 90) (Fin 95)" by code_simp
  have "list_all (quiet_event cfg_example ((act_energy ''tts'')\<lparr>ExecutionThresholdJ := Fin 95\<rparr>)
      (newStepMeter 0 (readCPUSnapshot (act_host ''0'' ''0'' 0) (ac_Pid started_controller))) (ac_Pid started_controller))
      [MonTick (act_tick []), MonStop]"
    by (simp add: quiet_tick_def act_start act_started act_tick_def act_sample act_energy_def sample_state_def act_step lt
        del: f_add.simps f_lt.simps)
  from below_threshold_untouched[OF act_start(1) this, of bare_host "[]"] show ?thesis by auto
qed

theorem failed_resume_never_ends_witness:
  "\<exists>m'. pause_loop bare_host cfg_example (act_energy ''ocr'') ''pause-'' (paused_event (act_energy ''ocr'') ''ocr'' ''pause-'' (Fin 100) (act_cycle []))
      (act_round ''RESUME_EXECUTION'' failed_write # replicate 9 (act_round ''RESUME_EXECUTION'' act_thaw))
      (new_cycle ''pause-'' 0 (Fin 90) (Fin 50)) (act_mon\<lparr>mctl := frozen_controller\<lparr>lastPauseID := ''pause-''\<rparr>\<rparr>) = Waiting m'"
proof -
  let ?ev = "paused_event (act_energy ''ocr'') ''ocr'' ''pause-'' (Fin 100) (act_cycle [])"
  let ?rd = "act_round ''RESUME_EXECUTION'' failed_write"
  obtain command tr where post: "postExecutionPaused (rd_call ?rd) ?ev = (Some command, tr, None)"
    "sc_PauseID command = ''pause-''" "Command command = ''RESUME_EXECUTION''"
  proof -
    have "case postExecutionPaused (rd_call ?rd) ?ev of (Some command, tr, None) \<Rightarrow>
        sc_PauseID command = ''pause-'' \<and> Command command = ''RESUME_EXECUTION'' | _ \<Rightarrow> False"
      by code_simp
    then show thesis by (auto intro: that split: option.splits prod.splits)
  qed
  have "case cgroup_unfreeze bare_host (rd_resume ?rd) of Some (Some _) \<Rightarrow> True | _ \<Rightarrow> False" by code_simp
  then obtain err where "cgroup_unfreeze bare_host (rd_resume ?rd) = Some (Some err)" by (auto split: option.splits)
  from failed_resume_never_ends[OF act_unkillable _ _ post this,
      where m = "act_mon\<lparr>mctl := frozen_controller\<lparr>lastPauseID := ''pause-''\<rparr>\<rparr>" and c = cfg_example
        and rds = "replicate 9 (act_round ''RESUME_EXECUTION'' act_thaw)" and cy = "new_cycle ''pause-'' 0 (Fin 90) (Fin 50)"]
  show ?thesis by (auto simp: frozen_controller_def)
qed

theorem kill_after_failure_is_refused_witness:
  "\<exists>m'. runPauseCycle bare_host cfg_example ((act_cycle [])\<lparr>cy_freeze := failed_write\<rparr>) (act_energy ''tts'') ''tts'' (Fin 90) 0 (Fin 90) act_mon
      = Returned (Fin 0, True, newPauseID (Some []) 0) m' \<and> acState (mctl m') = StateUnknown"
proof -
  let ?io = "(act_cycle [])\<lparr>cy_freeze := failed_write\<rparr>"
  have k: "\<not> isNonInterruptibleForThisStep (Some (act_energy ''tts''))" by code_simp
  have r: "acState (mctl act_mon) = StateRunning" by (simp add: act_mon_def started_controller_def)
  have "case cgroup_freeze bare_host (cy_freeze ?io) of Some (Some _) \<Rightarrow> True | _ \<Rightarrow> False" by code_simp
  then obtain err where "cgroup_freeze bare_host (cy_freeze ?io) = Some (Some err)" by (auto split: option.splits)
  with kill_after_failure_is_refused[OF k, of act_mon bare_host ?io err cfg_example "''tts''" "Fin 90" 0 "Fin 90"] r
  show ?thesis by (auto simp: act_cycle_def)
qed

end
