(* ===== verification/Metrics.thy ===== *)
theory Metrics
  imports Monitor
begin

text \<open>
  The measurement of an invocation after it ended: \<^verbatim>\<open>src/openwhisk/metricHandler.go\<close> (the
  in-process store), \<^verbatim>\<open>pushgateway.go\<close> (the push to the collector) and the recording
  functions at the end of \<^verbatim>\<open>metrics_helpers.go\<close>.

  The collector is a function from the attempt's number to what the attempt meets, as in
  \<open>Delivery\<close>. A push started with \<^verbatim>\<open>go\<close> and one that is awaited are told apart by a flag of
  the effect. The proxy's mutexes guard single updates of the store and of the pending entry,
  which are steps of the model.
\<close>

section \<open>Records\<close>

record RunMeta =
  rm_TraceID :: string
  rm_PodName :: string
  rm_ActivationID :: string
  rm_ExecutionPhase :: string
  rm_Lifecycle :: "Lifecycle option"

record Entry =
  en_Start :: int
  en_End :: int
  en_EnergyStart :: int
  en_EnergyEnd :: int
  EnergyAttributed :: int
  en_CPUProcessUsec :: int
  en_CPUCapacityUsec :: int
  en_CPURatio :: f64
  en_TraceID :: string
  en_PodName :: string
  en_ActivationID :: string
  en_ExecutionPhase :: string
  en_Lifecycle :: "Lifecycle option"

record collectorPayload =
  cp_Endpoint :: string
  cp_Start :: int
  cp_End :: int
  cp_EnergyStart :: int
  cp_EnergyEnd :: int
  cp_EnergyAttributed :: int
  cp_TraceID :: string
  cp_PodName :: string
  cp_ActivationID :: string
  cp_ExecutionPhase :: string
  cp_Lifecycle :: "Lifecycle option"
  cp_CPUProcessUsec :: int
  cp_CPUCapacityUsec :: int
  cp_CPURatio :: f64

section \<open>The store\<close>

text \<open>A missing key of the map reads as an empty slice.\<close>

record Metrics =
  data :: "string \<Rightarrow> Entry list option"
  limit :: int

definition NewMetrics :: "int \<Rightarrow> Metrics" where
  "NewMetrics n = \<lparr>data = (\<lambda>_. None), limit = n\<rparr>"

definition entries_of :: "Metrics \<Rightarrow> string \<Rightarrow> Entry list" where
  "entries_of m endpoint = (case data m endpoint of None \<Rightarrow> [] | Some s \<Rightarrow> s)"

definition Metrics_Add :: "string \<Rightarrow> Entry \<Rightarrow> Metrics \<Rightarrow> Metrics" where
  "Metrics_Add endpoint entry m =
     (if en_Start entry = 0 \<and> en_End entry = 0 then m
      else let s = entries_of m endpoint @ [entry];
               s' = (if 0 < limit m \<and> limit m < int (length s) then drop (length s - nat (limit m)) s else s)
           in m\<lparr>data := (data m)(endpoint := Some s')\<rparr>)"

definition Snapshot :: "Metrics \<Rightarrow> string \<Rightarrow> Entry list option" where
  "Snapshot m = (\<lambda>k. case data m k of None \<Rightarrow> None | Some v \<Rightarrow> Some (map (\<lambda>e. e) v))"

text \<open>The handler answers 503 when there is no store, or the encoded snapshot.\<close>

datatype metric_reply = MetricError int string | MetricJson "string \<Rightarrow> Entry list option"

definition metricHandler :: "Metrics option \<Rightarrow> metric_reply" where
  "metricHandler metrics = (case metrics of
       None \<Rightarrow> MetricError 503 ''metrics not initialized''
     | Some m \<Rightarrow> MetricJson (Snapshot m))"

section \<open>The push\<close>

definition metricsPushMaxAttempts :: "host \<Rightarrow> int" where
  "metricsPushMaxAttempts h = env_int (\<lambda>parsed. 0 < parsed) h ''METRICS_PUSH_MAX_ATTEMPTS'' 3"

definition metricsPushBackoffBase :: "host \<Rightarrow> int" where
  "metricsPushBackoffBase h = millis (env_int (\<lambda>parsed. 0 < parsed) h ''METRICS_PUSH_RETRY_BACKOFF_BASE_MS'' 200)"

definition payload_of :: "string \<Rightarrow> Entry \<Rightarrow> collectorPayload" where
  "payload_of endpoint entry =
     \<lparr>cp_Endpoint = endpoint, cp_Start = en_Start entry, cp_End = en_End entry,
      cp_EnergyStart = en_EnergyStart entry, cp_EnergyEnd = en_EnergyEnd entry,
      cp_EnergyAttributed = EnergyAttributed entry, cp_TraceID = en_TraceID entry, cp_PodName = en_PodName entry,
      cp_ActivationID = en_ActivationID entry, cp_ExecutionPhase = en_ExecutionPhase entry,
      cp_Lifecycle = en_Lifecycle entry, cp_CPUProcessUsec = en_CPUProcessUsec entry,
      cp_CPUCapacityUsec = en_CPUCapacityUsec entry, cp_CPURatio = en_CPURatio entry\<rparr>"

text \<open>What \<^verbatim>\<open>json.Marshal\<close> needs of the payload: finite floats.\<close>

definition cycle_finite :: "PauseCycle \<Rightarrow> bool" where
  "cycle_finite c \<longleftrightarrow> list_all f_finite [ThresholdDetectedAt c, EnergyAtThresholdJ c, FreezeRequestedAt c,
     FreezeEffectiveAt c, EnergyAtEffectiveFreezeJ c, pcExecutionThresholdJ c, ResumeRequestedAt c,
     ResumeEffectiveAt c, EnergyAtResumeEffectiveJ c]"

definition payload_finite :: "collectorPayload \<Rightarrow> bool" where
  "payload_finite p \<longleftrightarrow> f_finite (cp_CPURatio p) \<and> (case cp_Lifecycle p of
       None \<Rightarrow> True
     | Some l \<Rightarrow> f_finite (KillRequestedAt l) \<and> f_finite (ProcessStoppedAt l) \<and> list_all cycle_finite (Cycles l))"

fun push_loop :: "(nat \<Rightarrow> attempt) \<Rightarrow> int \<Rightarrow> nat \<Rightarrow> nat \<Rightarrow> string \<Rightarrow> delivery" where
  "push_loop resp base 0 attempt lastErr = (False, [], lastErr)"
| "push_loop resp base (Suc n) attempt lastErr = (case resp attempt of
       SendFailed e \<Rightarrow> (case push_loop resp base n (Suc attempt) e of (d, fx, l) \<Rightarrow> (d, before_attempt base attempt @ fx, l))
     | Status status \<Rightarrow>
         if status = 200 \<or> status = 202 then (True, before_attempt base attempt, lastErr)
         else if 400 \<le> status \<and> status < 500 then (False, before_attempt base attempt, http_text status)
         else (case push_loop resp base n (Suc attempt) (http_text status) of
                 (d, fx, l) \<Rightarrow> (d, before_attempt base attempt @ fx, l)))"

definition TrimRight_slash :: "string \<Rightarrow> string" where
  "TrimRight_slash s = rev (dropWhile (\<lambda>c. c = CHR ''/'') (rev s))"

text \<open>How a push ends: there is no collector, the payload or the request cannot be made, or it was
  posted to a URL, with the safety incident (the attempts it reports and the last error) if it was
  not delivered.\<close>

datatype push_result =
    NoCollector | PayloadError | RequestError
  | Pushed string collectorPayload "send_effect list" "(int \<times> string) option"

definition pushMetrics :: "host \<Rightarrow> bool \<Rightarrow> (nat \<Rightarrow> attempt) \<Rightarrow> string \<Rightarrow> Entry \<Rightarrow> push_result" where
  "pushMetrics h url_ok resp endpoint entry =
     (let collectorURL = getenv h ''COLLECTOR_URL''; payload = payload_of endpoint entry in
      if collectorURL = [] then NoCollector
      else if \<not> payload_finite payload then PayloadError
      else if \<not> url_ok then RequestError
      else let url = TrimRight_slash collectorURL @ ''/collect''; maxAttempts = metricsPushMaxAttempts h in
        case push_loop resp (metricsPushBackoffBase h) (nat maxAttempts) 0 ''none'' of
          (True, fx, _) \<Rightarrow> Pushed url payload fx None
        | (False, fx, lastErr) \<Rightarrow> Pushed url payload fx (Some (maxAttempts, lastErr)))"

section \<open>Recording a measurement\<close>

text \<open>The part of the proxy the recording uses, and what it sees of the executor: the cgroup path
  and the marks of the current invocation.\<close>

record metrics_ap =
  am_metrics :: "Metrics option"
  pendingInitEntry :: "Entry option"

record exec_view =
  xv_CgroupPath :: string
  xv_marks :: freezeMarks

text \<open>A call of \<^verbatim>\<open>pushMetrics\<close> (awaited or not), and the logged use of the fallback.\<close>

datatype metric_effect = Push bool string Entry | FallbackUsed f64

definition view_FreezeMarks :: "exec_view option \<Rightarrow> freezeMark list" where
  "view_FreezeMarks x = (case x of None \<Rightarrow> [] | Some v \<Rightarrow> marks_snapshot (xv_marks v))"

definition end_snapshot_of :: "host \<Rightarrow> exec_view option \<Rightarrow> int \<Rightarrow> CPUSnapshot" where
  "end_snapshot_of h x end_ns =
     (case x of None \<Rightarrow> zero_snapshot | Some v \<Rightarrow> readCPUSnapshotFromCgroup h (xv_CgroupPath v))\<lparr>WallNs := end_ns\<rparr>"

definition run_detail :: "host \<Rightarrow> rapl_cfg \<Rightarrow> int \<Rightarrow> exec_view option \<Rightarrow> string \<Rightarrow> int \<Rightarrow> CPUSnapshot \<Rightarrow> AttributionBreakdown" where
  "run_detail h c end_ns x endpoint energyStart cpuStart =
     segmentedAttribution c energyStart (fst (readEnergy h)) cpuStart (end_snapshot_of h x end_ns)
       (if endpoint = ''/run'' then view_FreezeMarks x else [])"

text \<open>The result of the substitution, and whether it was made.\<close>

definition with_fallback :: "int \<Rightarrow> f64 \<Rightarrow> int \<times> bool" where
  "with_fallback attributed fallbackJ =
     (if attributed = 0 \<and> f_lt (Fin 0) fallbackJ
      then (f_to_i64 (f_mul fallbackJ (f_of_int 1000000)), True) else (attributed, False))"

definition new_entry :: "int \<Rightarrow> int \<Rightarrow> int \<Rightarrow> int \<Rightarrow> int \<Rightarrow> AttributionBreakdown \<Rightarrow> RunMeta option \<Rightarrow> Entry" where
  "new_entry start end_ns energyStart energyEnd attributed detail meta =
     \<lparr>en_Start = start, en_End = end_ns, en_EnergyStart = energyStart, en_EnergyEnd = energyEnd,
      EnergyAttributed = attributed, en_CPUProcessUsec = DeltaProcessUsec detail,
      en_CPUCapacityUsec = CapacityUsec detail, en_CPURatio = CPURatio detail,
      en_TraceID = (case meta of None \<Rightarrow> [] | Some m \<Rightarrow> rm_TraceID m),
      en_PodName = (case meta of None \<Rightarrow> [] | Some m \<Rightarrow> rm_PodName m),
      en_ActivationID = (case meta of None \<Rightarrow> [] | Some m \<Rightarrow> rm_ActivationID m),
      en_ExecutionPhase = (case meta of None \<Rightarrow> [] | Some m \<Rightarrow> rm_ExecutionPhase m),
      en_Lifecycle = (case meta of None \<Rightarrow> None | Some m \<Rightarrow> rm_Lifecycle m)\<rparr>"

definition tag_pending :: "Entry \<Rightarrow> Entry \<Rightarrow> Entry" where
  "tag_pending entry pending = pending\<lparr>en_TraceID := en_TraceID entry, en_ActivationID := en_ActivationID entry,
     en_ExecutionPhase := en_ExecutionPhase entry\<rparr>"

text \<open>Storing the entry, then sending it: a \<^verbatim>\<open>/run\<close> entry goes out after the pending \<^verbatim>\<open>/init\<close>
  entry, any other becomes the pending entry.\<close>

definition record_entry :: "string \<Rightarrow> bool \<Rightarrow> Entry \<Rightarrow> metrics_ap \<Rightarrow> metric_effect list \<times> metrics_ap" where
  "record_entry endpoint awaited entry ap =
     (let ap1 = ap\<lparr>am_metrics := map_option (Metrics_Add endpoint entry) (am_metrics ap)\<rparr> in
      if endpoint = ''/run'' then
        ((case pendingInitEntry ap1 of
            Some pending \<Rightarrow> [Push awaited ''/init'' (tag_pending entry pending)]
          | None \<Rightarrow> []) @ [Push awaited ''/run'' entry],
         ap1\<lparr>pendingInitEntry := None\<rparr>)
      else ([], ap1\<lparr>pendingInitEntry := Some entry\<rparr>))"

definition recordMetricsImpl :: "host \<Rightarrow> rapl_cfg \<Rightarrow> int \<Rightarrow> exec_view option \<Rightarrow> string \<Rightarrow> int \<Rightarrow> int \<Rightarrow> CPUSnapshot
    \<Rightarrow> RunMeta option \<Rightarrow> bool \<Rightarrow> f64 \<Rightarrow> metrics_ap \<Rightarrow> metric_effect list \<times> metrics_ap" where
  "recordMetricsImpl h c end_ns x endpoint start energyStart cpuStart meta awaited fallbackJ ap =
     (let detail = run_detail h c end_ns x endpoint energyStart cpuStart;
          (attributed, used) = with_fallback (AttributedUJ detail) fallbackJ;
          entry = new_entry start end_ns energyStart (fst (readEnergy h)) attributed detail meta;
          (fx, ap') = record_entry endpoint awaited entry ap
      in ((if used then [FallbackUsed fallbackJ] else []) @ fx, ap'))"

definition recordMetrics :: "host \<Rightarrow> rapl_cfg \<Rightarrow> int \<Rightarrow> exec_view option \<Rightarrow> string \<Rightarrow> int \<Rightarrow> int \<Rightarrow> CPUSnapshot
    \<Rightarrow> RunMeta option \<Rightarrow> metrics_ap \<Rightarrow> metric_effect list \<times> metrics_ap" where
  "recordMetrics h c end_ns x endpoint start energyStart cpuStart meta ap =
     recordMetricsImpl h c end_ns x endpoint start energyStart cpuStart meta False (Fin 0) ap"

definition recordMetricsSync :: "host \<Rightarrow> rapl_cfg \<Rightarrow> int \<Rightarrow> exec_view option \<Rightarrow> string \<Rightarrow> int \<Rightarrow> int \<Rightarrow> CPUSnapshot
    \<Rightarrow> RunMeta option \<Rightarrow> metrics_ap \<Rightarrow> metric_effect list \<times> metrics_ap" where
  "recordMetricsSync h c end_ns x endpoint start energyStart cpuStart meta ap =
     recordMetricsImpl h c end_ns x endpoint start energyStart cpuStart meta True (Fin 0) ap"

definition recordMetricsSyncWithFallback :: "host \<Rightarrow> rapl_cfg \<Rightarrow> int \<Rightarrow> exec_view option \<Rightarrow> string \<Rightarrow> int \<Rightarrow> int
    \<Rightarrow> CPUSnapshot \<Rightarrow> RunMeta option \<Rightarrow> f64 \<Rightarrow> metrics_ap \<Rightarrow> metric_effect list \<times> metrics_ap" where
  "recordMetricsSyncWithFallback h c end_ns x endpoint start energyStart cpuStart meta fallbackJ ap =
     recordMetricsImpl h c end_ns x endpoint start energyStart cpuStart meta True fallbackJ ap"


section \<open>The store keeps the latest entries\<close>

definition last_n :: "int \<Rightarrow> 'a list \<Rightarrow> 'a list" where
  "last_n n xs = (if 0 < n then drop (length xs - nat n) xs else xs)"

lemma last_n_snoc: "last_n n (last_n n xs @ [x]) = last_n n (xs @ [x])"
proof (cases "0 < n")
  case True
  then have "Suc (nat (n - 1)) = nat n" by simp
  then show ?thesis using True by (cases "nat n \<le> length xs") (auto simp: last_n_def Suc_diff_le)
qed (simp add: last_n_def)

definition counted :: "Entry \<Rightarrow> bool" where
  "counted e \<longleftrightarrow> \<not> (en_Start e = 0 \<and> en_End e = 0)"

text \<open>The abstract store is the whole history of what was added.\<close>

definition store_rel :: "int \<Rightarrow> Metrics \<Rightarrow> (string \<times> Entry) list \<Rightarrow> bool" where
  "store_rel n m hist \<longleftrightarrow> limit m = n \<and>
     (\<forall>ep. entries_of m ep = last_n n (map snd (filter (\<lambda>(k, e). k = ep \<and> counted e) hist)))"

definition store_add :: "string \<times> Entry \<Rightarrow> Metrics \<Rightarrow> Metrics" where
  "store_add = (\<lambda>(ep, e) m. Metrics_Add ep e m)"

lemma Metrics_Add_entries:
  "entries_of (Metrics_Add ep e m) k =
     (if k = ep \<and> counted e then last_n (limit m) (entries_of m ep @ [e]) else entries_of m k)"
  by (auto simp: Metrics_Add_def Let_def entries_of_def counted_def last_n_def)

lemma Metrics_Add_limit [simp]: "limit (Metrics_Add ep e m) = limit m"
  by (simp add: Metrics_Add_def Let_def)

interpretation store: simulation "store_rel n" store_add "\<lambda>x hist. hist @ [x]" "\<lambda>_ _. True"
  by unfold_locales (auto simp: store_rel_def store_add_def Metrics_Add_entries last_n_snoc split: if_splits)

lemma fold_snoc: "fold (\<lambda>x acc. acc @ [x]) xs acc = acc @ xs"
  by (induction xs arbitrary: acc) simp_all

section \<open>The push\<close>

interpretation push: bounded_delivery "\<lambda>s. s = 200 \<or> s = 202" push_loop
  by unfold_locales (auto simp: refused_def)

section \<open>Entries on their way out\<close>

fun is_push :: "metric_effect \<Rightarrow> bool" where
  "is_push (Push _ _ _) \<longleftrightarrow> True"
| "is_push (FallbackUsed _) \<longleftrightarrow> False"

text \<open>A call of the recording function, and a sequence of them.\<close>

record record_call =
  rc_host :: host
  rc_cfg :: rapl_cfg
  rc_end :: int
  rc_view :: "exec_view option"
  rc_endpoint :: string
  rc_start :: int
  rc_energyStart :: int
  rc_cpuStart :: CPUSnapshot
  rc_meta :: "RunMeta option"
  rc_awaited :: bool
  rc_fallback :: f64

definition do_record :: "record_call \<Rightarrow> metric_effect list \<times> metrics_ap \<Rightarrow> metric_effect list \<times> metrics_ap" where
  "do_record r s = (case recordMetricsImpl (rc_host r) (rc_cfg r) (rc_end r) (rc_view r) (rc_endpoint r) (rc_start r)
       (rc_energyStart r) (rc_cpuStart r) (rc_meta r) (rc_awaited r) (rc_fallback r) (snd s) of
     (fx, ap) \<Rightarrow> (fst s @ fx, ap))"

definition call_entry :: "record_call \<Rightarrow> Entry" where
  "call_entry r = (let detail = run_detail (rc_host r) (rc_cfg r) (rc_end r) (rc_view r) (rc_endpoint r) (rc_energyStart r) (rc_cpuStart r) in
     new_entry (rc_start r) (rc_end r) (rc_energyStart r) (fst (readEnergy (rc_host r)))
       (fst (with_fallback (AttributedUJ detail) (rc_fallback r))) detail (rc_meta r))"

text \<open>Recordings come in rounds: some of \<^verbatim>\<open>/init\<close>, then one of \<^verbatim>\<open>/run\<close>; after the last round some of \<^verbatim>\<open>/init\<close>
  may be waiting. What a round sends: the latest of its \<^verbatim>\<open>/init\<close> measurements, bearing the identifiers of the
  \<^verbatim>\<open>/run\<close> measurement, and then that one.\<close>

type_synonym round = "record_call list \<times> record_call"

definition is_round :: "round \<Rightarrow> bool" where
  "is_round r \<longleftrightarrow> rc_endpoint (snd r) = ''/run'' \<and> list_all (\<lambda>i. rc_endpoint i \<noteq> ''/run'') (fst r)"

definition round_calls :: "round \<Rightarrow> record_call list" where
  "round_calls r = fst r @ [snd r]"

definition round_pushes :: "round \<Rightarrow> metric_effect list" where
  "round_pushes r = (let run = call_entry (snd r) in
     (if fst r = [] then []
      else [Push (rc_awaited (snd r)) ''/init'' ((call_entry (last (fst r)))\<lparr>en_TraceID := en_TraceID run,
              en_ActivationID := en_ActivationID run, en_ExecutionPhase := en_ExecutionPhase run\<rparr>)])
     @ [Push (rc_awaited (snd r)) ''/run'' run])"

lemma rounds_exist:
  "\<exists>rounds later. rs = concat (map round_calls rounds) @ later \<and> list_all is_round rounds \<and>
     list_all (\<lambda>i. rc_endpoint i \<noteq> ''/run'') later"
proof (induction rs rule: rev_induct)
  case (snoc r rs)
  then obtain rounds later where r: "rs = concat (map round_calls rounds) @ later" "list_all is_round rounds"
    "list_all (\<lambda>i. rc_endpoint i \<noteq> ''/run'') later" by blast
  show ?case
  proof (cases "rc_endpoint r = ''/run''")
    case True
    then have "is_round (later, r)" "round_calls (later, r) = later @ [r]" using r(3) by (simp_all add: round_calls_def is_round_def)
    with r show ?thesis by (intro exI[of _ "rounds @ [(later, r)]"] exI[of _ "[]"]) simp
  next
    case False
    with r show ?thesis by (intro exI[of _ rounds] exI[of _ "later @ [r]"]) simp
  qed
qed (auto intro: exI[of _ "[]"])

lemma do_record_effects:
  "\<exists>pre. filter is_push pre = [] \<and>
     fst (do_record r s) = fst s @ pre @ fst (record_entry (rc_endpoint r) (rc_awaited r) (call_entry r) (snd s)) \<and>
     snd (do_record r s) = snd (record_entry (rc_endpoint r) (rc_awaited r) (call_entry r) (snd s))"
  by (auto simp: do_record_def recordMetricsImpl_def call_entry_def Let_def split: prod.splits)

lemma do_record_pushes:
  "filter is_push (fst (do_record r s)) = filter is_push (fst s) @
     (if rc_endpoint r = ''/run''
      then (case pendingInitEntry (snd s) of Some e \<Rightarrow> [Push (rc_awaited r) ''/init'' (tag_pending (call_entry r) e)] | None \<Rightarrow> []) @
        [Push (rc_awaited r) ''/run'' (call_entry r)]
      else [])"
  "pendingInitEntry (snd (do_record r s)) = (if rc_endpoint r = ''/run'' then None else Some (call_entry r))"
  using do_record_effects[of r s] by (auto simp: record_entry_def Let_def split: option.splits)

lemma do_inits:
  "list_all (\<lambda>i. rc_endpoint i \<noteq> ''/run'') cs \<Longrightarrow>
     filter is_push (fst (fold do_record cs s)) = filter is_push (fst s) \<and>
     pendingInitEntry (snd (fold do_record cs s)) = (if cs = [] then pendingInitEntry (snd s) else Some (call_entry (last cs)))"
  by (induction cs arbitrary: s) (auto simp: do_record_pushes)

lemma do_round:
  assumes "is_round r" "pendingInitEntry (snd s) = None"
  shows "filter is_push (fst (fold do_record (round_calls r) s)) = filter is_push (fst s) @ round_pushes r"
    "pendingInitEntry (snd (fold do_record (round_calls r) s)) = None"
  using assms do_inits[of "fst r" s]
  by (auto simp: round_calls_def is_round_def do_record_pushes round_pushes_def tag_pending_def Let_def)

lemma do_rounds:
  "list_all is_round rounds \<Longrightarrow> pendingInitEntry (snd s) = None \<Longrightarrow>
     filter is_push (fst (fold do_record (concat (map round_calls rounds)) s)) = filter is_push (fst s) @ concat (map round_pushes rounds) \<and>
     pendingInitEntry (snd (fold do_record (concat (map round_calls rounds)) s)) = None"
  by (induction rounds arbitrary: s) (simp_all add: do_round)

section \<open>The fallback and its rounding\<close>

text \<open>Joules and back: two roundings of relative error \<open>2^-53\<close>, and a truncation.\<close>

lemma joules_back:
  assumes "0 < u" "u \<le> 2 ^ 50"
  shows "\<exists>b. f_mul (joules u) (f_of_int 1000000) = Fin b \<and> \<bar>b - of_int u\<bar> < 1 \<and> 0 < b"
proof -
  let ?u = "of_int u :: rat"
  have m: "f_of_int 1000000 = Fin 1000000" using f_of_int_exact[of 1000000] by simp
  have uf: "f_of_int u = Fin ?u" using assms by (intro f_of_int_exact) simp
  have ub: "1 \<le> ?u" "?u \<le> 2 ^ 50"
    using assms by (simp_all add: of_int_le_iff[of u "2 ^ 50", where 'a = rat, simplified])
  have tiny: "(2::rat) powi (- 1022) \<le> 2 powi (- 20)" by (simp only: powi_two_le_mono)
  have tiny2: "(2::rat) powi (- 20) \<le> 1 / 1000000" by (simp add: power_int_def power_divide)
  define a where "a = rnd (?u / 1000000)"
  have "\<bar>a - ?u / 1000000\<bar> \<le> \<bar>?u / 1000000\<bar> / 2 ^ 53"
    unfolding a_def using ub tiny tiny2 by (intro rnd_relative) simp
  moreover have "a * 1000000 - ?u = (a - ?u / 1000000) * 1000000" by (simp add: left_diff_distrib)
  then have "\<bar>a * 1000000 - ?u\<bar> = \<bar>a - ?u / 1000000\<bar> * 1000000" by (simp only: abs_mult abs_numeral)
  ultimately have a: "\<bar>a * 1000000 - ?u\<bar> \<le> ?u / 2 ^ 53" using ub by simp
  have j: "joules u = Fin a"
    using ub by (simp add: joules_def uf m a_def to_f64_small)
  define b where "b = rnd (a * 1000000)"
  have ab: "1 / 2 \<le> a * 1000000" "a * 1000000 \<le> 2 * ?u"
    using a ub unfolding abs_le_iff by simp_all
  have "\<bar>b - a * 1000000\<bar> \<le> \<bar>a * 1000000\<bar> / 2 ^ 53"
    unfolding b_def using ab tiny tiny2 by (intro rnd_relative) linarith
  then have b: "\<bar>b - a * 1000000\<bar> \<le> 2 * ?u / 2 ^ 53" using ab by (simp add: divide_right_mono)
  have "f_mul (joules u) (f_of_int 1000000) = Fin b"
    using ab ub by (simp add: j m b_def to_f64_small)
  moreover have "\<bar>b - ?u\<bar> \<le> 3 * ?u / 2 ^ 53" using a b by (simp add: abs_if split: if_splits)
  ultimately show ?thesis using ub by (intro exI[of _ b]) (simp add: abs_if split: if_splits)
qed

section \<open>Properties\<close>

text \<open>No field of a measurement is lost on its way to the collector. The payload determines the
  endpoint and every field of the entry, so that two measurements that differ anywhere are
  different on the wire.\<close>

theorem payload_loses_nothing:
  "payload_of ep e = payload_of ep' e' \<longleftrightarrow> ep = ep' \<and> e = e'"
  by (auto simp: payload_of_def intro: Entry.equality)

text \<open>C36: the in-process store. After any sequence of additions the entries of an endpoint are the
  latest ones added for it that bear a time, in order, at most \<^verbatim>\<open>limit\<close> of them when the limit
  is positive; the entries of the other endpoints do not count.\<close>

theorem store_keeps_latest:
  "entries_of (fold store_add hist (NewMetrics n)) ep =
     last_n n (map snd (filter (\<lambda>(k, e). k = ep \<and> counted e) hist))"
proof -
  have "store.permitted xs h" for xs h by (induction xs arbitrary: h) simp_all
  moreover have "store_rel n (NewMetrics n) []"
    by (simp add: store_rel_def NewMetrics_def entries_of_def last_n_def)
  ultimately have "store_rel n (fold store_add hist (NewMetrics n)) (fold (\<lambda>x acc. acc @ [x]) hist [])"
    by (intro store.run)
  then show ?thesis by (simp add: store_rel_def fold_snoc)
qed

text \<open>The push to the collector posts the payload of its entry at most the configured number
  of times, with waits that double. It is delivered exactly when some attempt was answered 200 or
  202 before any 4xx answer, and otherwise, and only then, the safety incident is raised.\<close>

theorem push_delivery:
  assumes "pushMetrics h url_ok resp ep e = Pushed url p fx incident"
  shows "p = payload_of ep e \<and> int (posts fx) \<le> metricsPushMaxAttempts h
       \<and> fx = concat (map (before_attempt (metricsPushBackoffBase h)) [0..<posts fx])
       \<and> (incident = None \<longleftrightarrow> (\<exists>i. int i < metricsPushMaxAttempts h \<and> push.accepted (resp i)
              \<and> (\<forall>j < i. \<not> push.decisive (resp j))))"
proof -
  let ?n = "nat (metricsPushMaxAttempts h)"
  have n: "0 < metricsPushMaxAttempts h"
    unfolding metricsPushMaxAttempts_def by (rule env_int_ok) simp
  obtain d l where k: "push_loop resp (metricsPushBackoffBase h) ?n 0 ''none'' = (d, fx, l)"
    and i: "incident = (if d then None else Some (metricsPushMaxAttempts h, l))" and p: "p = payload_of ep e"
    using assms by (auto simp: pushMetrics_def Let_def split: prod.splits bool.splits if_splits)
  have "int j < metricsPushMaxAttempts h \<longleftrightarrow> j < ?n" for j using n by auto
  with push.outcome(1-3)[OF k] i n p show ?thesis by auto
qed

text \<open>C33: each measurement is pushed once, and an \<^verbatim>\<open>/init\<close> measurement travels with the first
  \<^verbatim>\<open>/run\<close> after it. Any sequence of recordings is a sequence of rounds, each some (in the service at most one) recordings of
  \<^verbatim>\<open>/init\<close> and then one of \<^verbatim>\<open>/run\<close>, with recordings of \<^verbatim>\<open>/init\<close> after the last round. From an empty
  proxy what is pushed is exactly: round after round, the latest \<^verbatim>\<open>/init\<close> measurement of the round, if it has one, with trace,
  activation and phase of the round's \<^verbatim>\<open>/run\<close>, and then the \<^verbatim>\<open>/run\<close> measurement; the latest of the
  recordings after the last round is kept for the next.\<close>

theorem init_travels_with_run:
  assumes "list_all is_round rounds" "list_all (\<lambda>i. rc_endpoint i \<noteq> ''/run'') later"
    and "fold do_record (concat (map round_calls rounds) @ later) ([], \<lparr>am_metrics = ms, pendingInitEntry = None\<rparr>) = (fx, ap)"
  shows "filter is_push fx = concat (map round_pushes rounds)
   \<and> pendingInitEntry ap = (if later = [] then None else Some (call_entry (last later)))"
proof -
  let ?s = "([], \<lparr>am_metrics = ms, pendingInitEntry = None\<rparr>) :: metric_effect list \<times> metrics_ap"
  let ?t = "fold do_record (concat (map round_calls rounds)) ?s"
  have "filter is_push (fst ?t) = concat (map round_pushes rounds)" "pendingInitEntry (snd ?t) = None"
    using do_rounds[OF assms(1), of ?s] by simp_all
  with do_inits[OF assms(2), of ?t] assms(3) show ?thesis by simp
qed

text \<open>The fallback. The energy recorded for an invocation is the attribution of its execution
  segments; only when that is exactly zero and the monitor had measured something is the monitor's
  value taken, and a value the monitor got from \<open>u\<close> microjoules comes back as \<open>u\<close> or
  \<open>u - 1\<close>.\<close>

theorem fallback_within_a_microjoule:
  assumes "0 < u" "u \<le> 2 ^ 50"
  shows "\<exists>v. with_fallback uj (joules u) = (v, uj = 0) \<and> (uj \<noteq> 0 \<longrightarrow> v = uj) \<and> (uj = 0 \<longrightarrow> u - 1 \<le> v \<and> v \<le> u)"
proof -
  obtain b where b: "f_mul (joules u) (f_of_int 1000000) = Fin b" "\<bar>b - of_int u\<bar> < 1" "0 < b"
    using joules_back[OF assms] by blast
  have fl: "u - 1 \<le> \<lfloor>b\<rfloor>" "\<lfloor>b\<rfloor> \<le> u" using b(2) by linarith+
  moreover have "in_i64 v" if "u - 1 \<le> v" "v \<le> u" for v using that assms by (simp add: in_i64_def)
  then have "in_i64 \<lfloor>b\<rfloor>" using fl by blast
  moreover have "f_lt (Fin 0) (joules u)"
  proof (cases "joules u")
    case (Fin r)
    moreover have "0 \<le> r" using Fin assms f_of_int_exact[of u] f_of_int_exact[of 1000000]
      by (auto simp: joules_def to_f64_def Let_def rnd_nonneg split: if_splits)
    moreover have "r \<noteq> 0" using b Fin f_of_int_exact[of 1000000] by (auto simp: to_f64_def)
    ultimately show ?thesis by simp
  qed (use b f_of_int_exact[of 1000000] in \<open>auto simp: f_signed_inf_def\<close>)
  ultimately show ?thesis using b by (auto simp: with_fallback_def)
qed

section \<open>A concrete push\<close>

definition run_entry :: Entry where
  "run_entry = \<lparr>en_Start = 1, en_End = 9, en_EnergyStart = 0, en_EnergyEnd = 50, EnergyAttributed = 30,
     en_CPUProcessUsec = 3, en_CPUCapacityUsec = 5, en_CPURatio = Fin (3/4), en_TraceID = ''t-1'', en_PodName = ''p'',
     en_ActivationID = ''a-1'', en_ExecutionPhase = ''forward'', en_Lifecycle = None\<rparr>"

definition collector_host :: host where
  "collector_host = \<lparr>getenv = (\<lambda>v. if v = ''COLLECTOR_URL'' then ''http://c:9090/'' else []), files = (\<lambda>_. None), now = 0\<rparr>"

definition recording :: "string \<Rightarrow> string \<Rightarrow> int \<Rightarrow> record_call" where
  "recording ep activation t = \<lparr>rc_host = collector_host, rc_cfg = cfg_example, rc_end = t + 1, rc_view = None, rc_endpoint = ep,
     rc_start = t, rc_energyStart = 0, rc_cpuStart = zero_snapshot,
     rc_meta = Some \<lparr>rm_TraceID = ''t-1'', rm_PodName = ''p'', rm_ActivationID = activation, rm_ExecutionPhase = ''forward'',
       rm_Lifecycle = None\<rparr>, rc_awaited = True, rc_fallback = Fin 0\<rparr>"

theorem init_travels_with_run_witness:
  "\<exists>fx ap. fold do_record [recording ''/init'' [] 1, recording ''/run'' ''a-1'' 5, recording ''/run'' ''a-2'' 9]
       ([], \<lparr>am_metrics = None, pendingInitEntry = None\<rparr>) = (fx, ap) \<and>
     map (\<lambda>x. case x of Push w ep e \<Rightarrow> (ep, en_ActivationID e, en_Start e)) (filter is_push fx) =
       [(''/init'', ''a-1'', 1), (''/run'', ''a-1'', 5), (''/run'', ''a-2'', 9)]"
proof -
  let ?i = "recording ''/init'' [] 1" and ?r = "recording ''/run'' ''a-1'' 5" and ?q = "recording ''/run'' ''a-2'' 9"
  let ?s = "([], \<lparr>am_metrics = None, pendingInitEntry = None\<rparr>) :: metric_effect list \<times> metrics_ap"
  obtain fx ap where f: "fold do_record (concat (map round_calls [([?i], ?r), ([], ?q)]) @ []) ?s = (fx, ap)" by fastforce
  have "list_all is_round [([?i], ?r), ([], ?q)]" by (simp add: is_round_def recording_def)
  from init_travels_with_run[OF this _ f] have "filter is_push fx = round_pushes ([?i], ?r) @ round_pushes ([], ?q)" by simp
  with f show ?thesis
    by (intro exI[of _ fx] exI[of _ ap]) (simp add: round_calls_def round_pushes_def Let_def call_entry_def recording_def new_entry_def)
qed

theorem push_delivery_witness:
  "\<exists>fx. pushMetrics collector_host True (\<lambda>k. if k = 0 then SendFailed ''reset'' else Status 202) ''/run'' run_entry =
     Pushed ''http://c:9090/collect'' (payload_of ''/run'' run_entry) fx None \<and> posts fx \<le> 3"
proof -
  let ?r = "\<lambda>k. if k = 0 then SendFailed ''reset'' else Status 202"
  have mx: "metricsPushMaxAttempts collector_host = 3" by code_simp
  have "case pushMetrics collector_host True ?r ''/run'' run_entry of
      Pushed url p fx None \<Rightarrow> url = ''http://c:9090/collect'' | _ \<Rightarrow> False" by code_simp
  then obtain p fx where r: "pushMetrics collector_host True ?r ''/run'' run_entry = Pushed ''http://c:9090/collect'' p fx None"
    by (auto split: push_result.splits option.splits)
  from push_delivery[OF r] mx have "p = payload_of ''/run'' run_entry" "posts fx \<le> 3" by auto
  with r show ?thesis by blast
qed

theorem fallback_within_a_microjoule_witness:
  "\<exists>v. with_fallback 0 (joules 1234567) = (v, True) \<and> 1234566 \<le> v \<and> v \<le> 1234567"
  using fallback_within_a_microjoule[of 1234567 0] by auto

end
