(* ===== verification/Executor.thy ===== *)
theory Executor
  imports Metrics
begin

text \<open>
  \<^verbatim>\<open>src/openwhisk/executor.go\<close>: the process of an action, its pipes, its activation
  controller and the energy monitor around one interaction.

  The action's side is given in advance: what the reading goroutine gets from its pipe and whether
  it or the exit of the process is seen first, and the events of the monitor. A call that would
  block for ever is \<open>None\<close>; a dereference of a nil command is \<open>None\<close> too, told apart by a
  lemma on when it happens. One interaction runs at a time.
\<close>

section \<open>The executor\<close>

text \<open>The command is nil after a failed start or a stop; otherwise it has a process once started, of the program
  \<open>ex_command\<close> with the arguments \<open>ex_args\<close>.
  The controller is never nil: \<^verbatim>\<open>NewExecutor\<close> returns nil when it cannot make one.\<close>

record Executor =
  ex_cmd :: "int option option"
  ex_command :: string
  ex_args :: "string list"
  ex_env :: "string list"
  ex_exited :: bool
  ex_controller :: ActivationController
  ex_marks :: freezeMarks

definition exec_name :: "int \<Rightarrow> int \<Rightarrow> string" where
  "exec_name pid counter = ''exec-'' @ itoa pid @ ''-'' @ itoa counter"

text \<open>The environment is a Go map, here in the order it is ranged over. The flags say whether the
  pipes could be made, and the two directories of the cgroup.\<close>

definition NewExecutor :: "host \<Rightarrow> bool \<Rightarrow> bool \<Rightarrow> bool \<Rightarrow> bool \<Rightarrow> int \<Rightarrow> string \<Rightarrow> (string \<times> string) list
    \<Rightarrow> string list \<Rightarrow> int \<Rightarrow> Executor option \<times> int" where
  "NewExecutor h debugging pipes mkdirAll mkdir pid command env args counter =
     (if \<not> pipes then (None, counter)
      else (case NewActivationController h mkdirAll mkdir (exec_name pid (counter + 1)) of
          None \<Rightarrow> (None, counter + 1)
        | Some controller \<Rightarrow>
            (Some \<lparr>ex_cmd = Some None, ex_command = command, ex_args = args,
                   ex_env = map (\<lambda>(k, v). k @ ''='' @ v) env @ (if debugging then [''OW_DEBUG=/tmp/action.log''] else []),
                   ex_exited = False, ex_controller = controller, ex_marks = []\<rparr>, counter + 1)))"

definition FreezeMarks :: "Executor option \<Rightarrow> freezeMark list" where
  "FreezeMarks proc = (case proc of None \<Rightarrow> [] | Some p \<Rightarrow> marks_snapshot (ex_marks p))"

definition Executor_Pid :: "Executor \<Rightarrow> int" where
  "Executor_Pid proc = (case ex_cmd proc of Some (Some pid) \<Rightarrow> pid | _ \<Rightarrow> 0)"

definition CgroupPath :: "Executor \<Rightarrow> string" where
  "CgroupPath proc = ac_CgroupPath (ex_controller proc)"

definition Exited :: "Executor \<Rightarrow> bool" where
  "Exited proc = ex_exited proc"

section \<open>One interaction\<close>

text \<open>The line written to the action: the bytes of a request, or a value written by
  \<^verbatim>\<open>json.Marshal\<close>, which contains no newline. A newline follows it.\<close>

datatype act_input = RawBody string | Reencoded json

text \<open>What unblocks the select: a line (with its newline), an error of the read, or the exit.\<close>

datatype answer = AnswerLine string | AnswerError | ProcessExited

record interact_io =
  ix_answer :: "answer option"
  ix_start :: host
  ix_events :: "mon_event list"

record interaction =
  ir_out :: string
  ir_err :: "string option"
  ir_kill :: "EnergyKillInfo option"
  ir_lifecycle :: "Lifecycle option"
  ir_energy :: "EnergyState option"
  ir_input :: act_input
  ir_fx :: "mon_effect list"
  ir_exec :: Executor

definition select_answer :: "answer \<Rightarrow> string \<times> string option" where
  "select_answer a = (case a of
       AnswerLine out \<Rightarrow> (out, if out = [] then Some ''no answer from the action'' else None)
     | AnswerError \<Rightarrow> ([], Some ''no answer from the action'')
     | ProcessExited \<Rightarrow> ([], Some ''command exited''))"

text \<open>The monitor, if the step is monitored, and what is read from it once it has returned: the kill,
  the published threshold, the lifecycle. \<open>None\<close>: it never returns.\<close>

definition monitored :: "host \<Rightarrow> rapl_cfg \<Rightarrow> interact_io \<Rightarrow> EnergyState option \<Rightarrow> Executor
    \<Rightarrow> (EnergyKillInfo option \<times> Lifecycle option \<times> EnergyState option \<times> mon_effect list \<times> Executor) option" where
  "monitored h c io energy proc =
     (case energy of
        Some st \<Rightarrow>
          if fst (shouldMonitorEnergy energy) then
            (case monitorEnergy h c (ix_start io) st (ix_events io) (ex_controller proc) (ex_marks proc) of
               Returned (True, _) m \<Rightarrow>
                 (let (killed, consumedJ, pauseID) = result_get (mres m);
                      (thresholdJ, updated) = finalThreshold (mres m)
                  in Some (if killed then Some \<lparr>ki_EnergyConsumedJ = consumedJ, ki_PauseID = pauseID\<rparr> else None,
                           snapshotLifecycle (mres m),
                           Some (if updated then st\<lparr>ExecutionThresholdJ := thresholdJ\<rparr> else st),
                           mfx m, proc\<lparr>ex_controller := mctl m, ex_marks := mmarks m\<rparr>))
             | _ \<Rightarrow> None)
          else Some (None, None, energy, [], proc)
      | None \<Rightarrow> Some (None, None, energy, [], proc))"

definition Interact :: "host \<Rightarrow> rapl_cfg \<Rightarrow> interact_io \<Rightarrow> act_input \<Rightarrow> EnergyState option \<Rightarrow> Executor
    \<Rightarrow> interaction option" where
  "Interact h c io input energy proc0 =
     (let proc = proc0\<lparr>ex_marks := marks_reset (ex_marks proc0)\<rparr> in
      case ix_answer io of
        None \<Rightarrow> None
      | Some a \<Rightarrow>
          (case (select_answer a, monitored h c io energy proc) of
             (_, None) \<Rightarrow> None
           | ((out, err), Some (kill, lifecycle, energy', fx, proc')) \<Rightarrow>
               if ex_cmd proc' = None then None
               else Some \<lparr>ir_out = out, ir_err = err, ir_kill = kill, ir_lifecycle = lifecycle, ir_energy = energy',
                          ir_input = input, ir_fx = fx,
                          ir_exec = proc'\<lparr>ex_exited := (ex_exited proc' \<or> a = ProcessExited)\<rparr>\<rparr>))"

section \<open>Start and stop\<close>

text \<open>\<^verbatim>\<open>ActionAck\<close> decoded from a JSON value; a missing or null \<^verbatim>\<open>ok\<close> is false.\<close>

fun decode_ack :: "json \<Rightarrow> bool option" where
  "decode_ack (JObj kvs) = fold (\<lambda>(k, j) acc. Option.bind acc (\<lambda>b.
      if fold_key k = ''ok'' then set_bool (\<lambda>x _. x) j b else Some b)) kvs (Some False)"
| "decode_ack JNull = Some False"
| "decode_ack _ = None"

text \<open>What the waiting start sees first: nothing within the time limit (the start without
  acknowledgement only), the exit, an error of the read, a line that is not JSON, or a JSON
  line.\<close>

datatype start_seen = SawTimeout | SawExit | SawReadError string | SawNotJson string | SawAck json

definition Executor_Start :: "bool \<Rightarrow> int option \<Rightarrow> start_seen \<Rightarrow> bool \<Rightarrow> Executor \<Rightarrow> (string option \<times> Executor) option" where
  "Executor_Start opened started seen waitForAck proc =
     (case ac_Start opened started (ex_controller proc) of
        (True, a) \<Rightarrow> Some (Some ''command exited'', proc\<lparr>ex_cmd := None, ex_controller := a\<rparr>)
      | (False, a) \<Rightarrow>
          (let p = proc\<lparr>ex_cmd := Some started, ex_controller := a\<rparr>; exited_p = p\<lparr>ex_exited := True\<rparr> in
           if \<not> waitForAck then
             (case seen of
                SawExit \<Rightarrow> Some (Some ''command exited'', exited_p)
              | SawTimeout \<Rightarrow> Some (None, p)
              | _ \<Rightarrow> None)
           else
             (case seen of
                SawExit \<Rightarrow> Some (Some ''Command exited abruptly during initialization.'', exited_p)
              | SawReadError e \<Rightarrow> Some (Some e, p)
              | SawNotJson e \<Rightarrow> Some (Some e, p)
              | SawAck j \<Rightarrow> (case decode_ack j of
                    None \<Rightarrow> Some (Some ''json: cannot unmarshal'', p)
                  | Some ok \<Rightarrow> Some (if ok then None else Some ''The action did not initialize properly.'', p))
              | SawTimeout \<Rightarrow> None)))"

definition Stop :: "host \<Rightarrow> cg_io \<times> reap \<Rightarrow> Executor \<Rightarrow> (cg_effect list \<times> Executor) option" where
  "Stop h io proc = map_option
     (\<lambda>(err, fx, a). (fx @ ac_Close a, proc\<lparr>ex_controller := a, ex_cmd := None\<rparr>))
     (killExecution h ''shutdown'' io (ex_controller proc))"

section \<open>Lemmas\<close>

text \<open>A stopped executor has no command, its activation neither runs nor is frozen, and the last thing tried is to remove
  its cgroup, even after a kill that failed; an activation killed before is only removed.\<close>

lemma Stop_facts:
  assumes "Stop h io proc = Some (fx, proc')"
  shows "ex_cmd proc' = None" "\<exists>kx. fx = kx @ [CgRemove (CgroupPath proc)]"
    "ac_State (ex_controller proc') \<notin> {StateRunning, StateFrozen}"
    "ac_State (ex_controller proc) = StateStopped \<Longrightarrow> fx = [CgRemove (CgroupPath proc)] \<and> ex_controller proc' = ex_controller proc"
  using assms
  by (auto simp: Stop_def killExecution_def ac_Close_def cg_remove_def CgroupPath_def ac_State_def ac_stopped_def Let_def
      split: if_splits option.splits)

lemma shouldMonitor_some: "fst (shouldMonitorEnergy energy) \<Longrightarrow> energy \<noteq> None"
  by (auto simp: shouldMonitorEnergy_def split: option.splits)

lemma threshold_same: "\<exists>x. st = st\<lparr>ExecutionThresholdJ := x\<rparr>"
  by (rule exI[of _ "ExecutionThresholdJ st"]) simp

lemma monitored_energy:
  assumes "monitored h c io energy proc = Some (kill, life, energy', fx, proc')"
  shows "kill \<noteq> None \<Longrightarrow> energy \<noteq> None" "(energy' = None) = (energy = None)" "ex_cmd proc' = ex_cmd proc"
    "\<And>st. energy = Some st \<Longrightarrow> \<exists>x. energy' = Some (st\<lparr>ExecutionThresholdJ := x\<rparr>)"
  using assms
  by (auto simp: monitored_def Let_def split: option.splits if_splits run.splits bool.splits prod.splits
      intro: threshold_same)

lemma monitored_unkillable:
  assumes "monitored h c io energy proc = Some (kill, life, energy', fx, proc')" "isNonInterruptibleForThisStep energy"
  shows "kill = None \<and> kill_free fx"
proof -
  from assms(2) obtain st where st: "energy = Some st" by (cases energy) (auto simp: isNonInterruptibleForThisStep_def)
  have nf: "\<not> frozen (newStepMeter e s)" for e s by (simp add: newStepMeter_def)
  let ?r = "monitorEnergy h c (ix_start io) st (ix_events io) (ex_controller proc) (ex_marks proc)"
  have "kill_free (mfx (run_mon ?r)) \<and> \<not> mr_killed (mres (run_mon ?r))"
    using monitor_loop_unkillable[of st] assms(2) st nf
    by (auto simp: monitorEnergy_def Let_def new_result_def split: prod.split option.split)
  with assms(1) st show ?thesis
    by (auto simp: monitored_def Let_def result_get_def kill_free_def split: if_splits run.splits bool.splits prod.splits)
qed

end
