(* ===== verification/RunHandler.thy ===== *)
theory RunHandler
  imports Executor Monitor_Laws
begin

text \<open>
  \<^verbatim>\<open>src/openwhisk/runHandler.go\<close>: one activation. The handler strips the energy state from
  the request, runs the action under the monitor, reports a kill to the scheduler or hands the
  energy state on in the result, and records the measurement.

  JSON texts are given with their values, as parsed by \<^verbatim>\<open>encoding/json\<close> (\<open>None\<close> when the
  text is not JSON). The effects of the handler are a list, in the order in which they complete.
\<close>

section \<open>Requests and events\<close>

record runRequest =
  rq_ActivationID :: string
  rq_Value :: params
  rq_ActionName :: string

definition zero_request :: runRequest where
  "zero_request = \<lparr>rq_ActivationID = [], rq_Value = [], rq_ActionName = []\<rparr>"

text \<open>A Go map decoded from a JSON object: later keys replace earlier ones.\<close>

definition go_map :: "(string \<times> json) list \<Rightarrow> params \<Rightarrow> params" where
  "go_map kvs m = fold (\<lambda>(k, v). AList.update k v) kvs m"

definition set_value :: "json \<Rightarrow> runRequest \<Rightarrow> runRequest option" where
  "set_value j rq = (case j of
       JNull \<Rightarrow> Some (rq\<lparr>rq_Value := []\<rparr>)
     | JObj kvs \<Rightarrow> Some (rq\<lparr>rq_Value := go_map kvs (rq_Value rq)\<rparr>)
     | _ \<Rightarrow> None)"

definition set_request_field :: "string \<Rightarrow> json \<Rightarrow> runRequest \<Rightarrow> runRequest option" where
  "set_request_field key j rq =
     (let f = fold_key key in
      if f = ''activation_id'' then set_str (\<lambda>s. rq_ActivationID_update (\<lambda>_. s)) j rq
      else if f = ''value'' then set_value j rq
      else if f = ''action_name'' then set_str (\<lambda>s. rq_ActionName_update (\<lambda>_. s)) j rq
      else Some rq)"

fun decode_request :: "json \<Rightarrow> runRequest option" where
  "decode_request (JObj kvs) = fold (\<lambda>(k, j) acc. Option.bind acc (set_request_field k j)) kvs (Some zero_request)"
| "decode_request JNull = Some zero_request"
| "decode_request _ = None"

record ExecutionKilledEvent =
  ke_Event :: string
  ke_TraceID :: string
  ke_ReservationID :: string
  ke_PauseID :: string
  ke_ActionName :: string
  ke_ExecutionPhase :: string
  EnergyBudgetExceeded :: bool
  ke_EnergyConsumedJ :: f64
  EnergyOriginalArguments :: params
  ke_ActivationID :: string

definition killed_event_finite :: "ExecutionKilledEvent \<Rightarrow> bool" where
  "killed_event_finite e \<longleftrightarrow> f_finite (ke_EnergyConsumedJ e) \<and> json_finite (JObj (EnergyOriginalArguments e))"

section \<open>The proxy\<close>

record ActionProxy =
  ap_initialized :: bool
  ap_baseDir :: string
  ap_compiler :: string
  ap_currentDir :: int
  ap_theExecutor :: "Executor option"
  ap_env :: "(string \<times> string) list"
  ap_metrics :: metrics_ap

datatype response_body = ActionLine string | WithState json | OkBody

datatype http_out = HttpError int string | HttpBody response_body

text \<open>What the handler does to the outside: the line given to the action, what the monitor did,
  the recorded measurement, the kill event with its delivery, the answer.\<close>

datatype run_effect =
    ToAction act_input | Monitored "mon_effect list" | Metric metric_effect
  | KillReported ExecutionKilledEvent "send_effect list \<times> (int \<times> string) option"
  | Answer http_out

datatype write_io = WroteAll | WriteError string | WroteOnly int int

record run_io =
  rn_start :: int
  rn_start_h :: host
  rn_body :: "string + string"
  rn_json :: "json option"
  rn_cpu_h :: host
  rn_extract_ns :: int
  rn_interact :: interact_io
  rn_result :: "json option"
  rn_side_h :: host
  rn_inject_ns :: int
  rn_state_len :: "json \<Rightarrow> int"
  rn_end_h :: host
  rn_end :: int
  rn_sched :: "nat \<Rightarrow> attempt"
  rn_write :: write_io

section \<open>The parts of the handler\<close>

text \<open>What is known of the request when the action is run: the metadata, the energy state, the
  value (stripped when there is a state) and the line for the action.\<close>

record prepared =
  pr_meta :: RunMeta
  pr_energy :: "EnergyState option"
  pr_value :: params
  pr_input :: act_input

definition energy_trace_of :: "params \<Rightarrow> string" where
  "energy_trace_of params = (case map_of params ''energy_trace_id'' of Some (JStr s) \<Rightarrow> s | _ \<Rightarrow> [])"

definition encoded_request :: "runRequest \<Rightarrow> json" where
  "encoded_request rq = JObj [(''activation_id'', JStr (rq_ActivationID rq)), (''value'', JObj (rq_Value rq)),
     (''action_name'', JStr (rq_ActionName rq))]"

definition sidecar_lifecycle :: "int \<Rightarrow> Lifecycle" where
  "sidecar_lifecycle ns = zero_lifecycle\<lparr>SidecarExtractNs := ns\<rparr>"

definition prepare :: "host \<Rightarrow> string \<Rightarrow> json option \<Rightarrow> int \<Rightarrow> prepared" where
  "prepare h body parsed extractNs =
     (let meta = \<lparr>rm_TraceID = [], rm_PodName = getenv h ''HOSTNAME'', rm_ActivationID = [], rm_ExecutionPhase = [], rm_Lifecycle = None\<rparr>
      in case Option.bind parsed decode_request of
           None \<Rightarrow> \<lparr>pr_meta = meta, pr_energy = None, pr_value = [], pr_input = RawBody body\<rparr>
         | Some req \<Rightarrow>
             (let meta1 = meta\<lparr>rm_ActivationID := rq_ActivationID req, rm_TraceID := energy_trace_of (rq_Value req)\<rparr>
              in case ExtractEnergyState (rq_Value req) of
                   (None, _, _) \<Rightarrow> \<lparr>pr_meta = meta1, pr_energy = None, pr_value = rq_Value req, pr_input = RawBody body\<rparr>
                 | (Some st, cleaned, _) \<Rightarrow>
                     (let st1 = st\<lparr>ResolvedActionName := shortActionName (rq_ActionName req)\<rparr>;
                          encoded = encoded_request (req\<lparr>rq_Value := cleaned\<rparr>)
                      in \<lparr>pr_meta = meta1\<lparr>rm_Lifecycle := Some (sidecar_lifecycle extractNs),
                            rm_TraceID := (if rm_TraceID meta1 = [] then TraceID st1 else rm_TraceID meta1),
                            rm_ExecutionPhase := ExecutionPhase st1\<rparr>,
                          pr_energy = Some st1, pr_value = cleaned,
                          pr_input = (if json_finite encoded then Reencoded encoded else RawBody body)\<rparr>)))"

fun strip_newlines :: "act_input \<Rightarrow> act_input" where
  "strip_newlines (RawBody s) = RawBody (filter (\<lambda>c. c \<noteq> CHR 0x0A) s)"
| "strip_newlines (Reencoded j) = Reencoded j"

definition merge_lifecycle :: "Lifecycle option \<Rightarrow> RunMeta \<Rightarrow> RunMeta" where
  "merge_lifecycle lifecycle meta = (case lifecycle of
       None \<Rightarrow> meta
     | Some l \<Rightarrow> (case rm_Lifecycle meta of
           None \<Rightarrow> meta\<lparr>rm_Lifecycle := Some l\<rparr>
         | Some ml \<Rightarrow> meta\<lparr>rm_Lifecycle := Some (l\<lparr>SidecarExtractNs := SidecarExtractNs ml\<rparr>)\<rparr>))"

definition killed_event :: "EnergyState \<Rightarrow> EnergyKillInfo \<Rightarrow> params \<Rightarrow> RunMeta \<Rightarrow> ExecutionKilledEvent" where
  "killed_event st ki params meta =
     \<lparr>ke_Event = ''EXECUTION_KILLED'', ke_TraceID = TraceID st, ke_ReservationID = ReservationID st,
      ke_PauseID = ki_PauseID ki, ke_ActionName = ResolvedActionName st, ke_ExecutionPhase = ExecutionPhase st,
      EnergyBudgetExceeded = True, ke_EnergyConsumedJ = f_add (ki_EnergyConsumedJ ki) (ConsumedBeforeJ st),
      EnergyOriginalArguments = params, ke_ActivationID = rm_ActivationID meta\<rparr>"

definition exec_view_of :: "Executor \<Rightarrow> exec_view" where
  "exec_view_of proc = \<lparr>xv_CgroupPath = CgroupPath proc, xv_marks = ex_marks proc\<rparr>"

text \<open>The result of the action: an object (or null), an array, or neither.\<close>

datatype action_result = ResultObject "params option" | ResultArray | ResultBad

definition classify_result :: "json option \<Rightarrow> action_result" where
  "classify_result r = (case r of
       Some (JObj kvs) \<Rightarrow> ResultObject (Some (go_map kvs []))
     | Some JNull \<Rightarrow> ResultObject None
     | Some (JArr _) \<Rightarrow> ResultArray
     | _ \<Rightarrow> ResultBad)"

definition measured_step :: "rapl_cfg \<Rightarrow> host \<Rightarrow> int \<Rightarrow> CPUSnapshot \<Rightarrow> Executor \<Rightarrow> f64" where
  "measured_step c side_h energyStart cpuStart proc =
     joules (AttributedUJ (segmentedAttribution c energyStart (fst (readEnergy side_h)) cpuStart
       (readCPUSnapshot side_h (Executor_Pid proc)) (FreezeMarks (Some proc))))"

text \<open>Reinjecting the state: the answer and the metadata.\<close>

definition reinject :: "run_io \<Rightarrow> rapl_cfg \<Rightarrow> int \<Rightarrow> CPUSnapshot \<Rightarrow> Executor \<Rightarrow> EnergyState option \<Rightarrow> string \<Rightarrow> RunMeta
    \<Rightarrow> response_body \<times> RunMeta" where
  "reinject io c energyStart cpuStart proc energy out meta =
     (case (energy, classify_result (rn_result io)) of
        (Some st, ResultObject (Some objmap)) \<Rightarrow>
          (case ReinjectEnergyState objmap (Some st) (measured_step c (rn_side_h io) energyStart cpuStart proc) of
             (updated, failed) \<Rightarrow>
               (let meta1 = meta\<lparr>rm_Lifecycle := map_option (\<lambda>l. l\<lparr>SidecarInjectNs := rn_inject_ns io,
                      SidecarStateBytes := (if failed then SidecarStateBytes l
                        else case map_of updated energyStateKey of None \<Rightarrow> SidecarStateBytes l | Some s \<Rightarrow> rn_state_len io s)\<rparr>)
                      (rm_Lifecycle meta)\<rparr>
                in (if failed then ActionLine out else WithState (JObj updated), meta1)))
      | _ \<Rightarrow> (ActionLine out, meta))"

definition write_answer :: "write_io \<Rightarrow> response_body \<Rightarrow> run_effect list" where
  "write_answer w body = Answer (HttpBody body) # (case w of
       WroteAll \<Rightarrow> []
     | WriteError e \<Rightarrow> [Answer (HttpError 500 (''Error writing response: '' @ e))]
     | WroteOnly n len \<Rightarrow> [Answer (HttpError 500 (''Only wrote '' @ itoa n @ '' of '' @ itoa len @ '' bytes to response''))])"

section \<open>The handler\<close>

definition after_kill :: "host \<Rightarrow> rapl_cfg \<Rightarrow> run_io \<Rightarrow> int \<Rightarrow> CPUSnapshot \<Rightarrow> interaction \<Rightarrow> EnergyState \<Rightarrow> EnergyKillInfo
    \<Rightarrow> params \<Rightarrow> RunMeta \<Rightarrow> ActionProxy \<Rightarrow> run_effect list \<times> ActionProxy" where
  "after_kill h c io energyStart cpuStart ir st ki params meta ap =
     (let event = killed_event st ki params meta;
          (fx, m) = recordMetricsSyncWithFallback (rn_end_h io) c (rn_end io) (Some (exec_view_of (ir_exec ir))) ''/run''
             (rn_start io) energyStart cpuStart (Some meta) (ki_EnergyConsumedJ ki) (ap_metrics ap)
      in (map Metric fx @
          [KillReported event (postExecutionKilled h (rn_sched io) (killed_event_finite event)),
           Answer (HttpError 400 ''energy budget exceeded: action killed'')],
          ap\<lparr>ap_metrics := m, ap_theExecutor := None\<rparr>))"

definition after_answer :: "rapl_cfg \<Rightarrow> run_io \<Rightarrow> int \<Rightarrow> CPUSnapshot \<Rightarrow> interaction \<Rightarrow> RunMeta \<Rightarrow> ActionProxy
    \<Rightarrow> run_effect list \<times> ActionProxy" where
  "after_answer c io energyStart cpuStart ir meta ap =
     (if classify_result (rn_result io) = ResultBad
      then ([Answer (HttpError 502 ''The action did not return a dictionary or array.'')], ap)
      else (let (body, meta1) = reinject io c energyStart cpuStart (ir_exec ir) (ir_energy ir) (ir_out ir) meta;
                (fx, m) = recordMetricsSync (rn_end_h io) c (rn_end io) (Some (exec_view_of (ir_exec ir))) ''/run''
                  (rn_start io) energyStart cpuStart (Some meta1) (ap_metrics ap)
            in (map Metric fx @ write_answer (rn_write io) body, ap\<lparr>ap_metrics := m\<rparr>)))"

text \<open>What follows the interaction. A kill without an energy state would be a nil dereference.\<close>

definition after_interact :: "host \<Rightarrow> rapl_cfg \<Rightarrow> run_io \<Rightarrow> int \<Rightarrow> CPUSnapshot \<Rightarrow> prepared \<Rightarrow> interaction \<Rightarrow> ActionProxy
    \<Rightarrow> (run_effect list \<times> ActionProxy) option" where
  "after_interact h c io energyStart cpuStart pr ir ap =
     (let meta = merge_lifecycle (ir_lifecycle ir) (pr_meta pr) in
      case ir_kill ir of
        Some ki \<Rightarrow> map_option (\<lambda>st. after_kill h c io energyStart cpuStart ir st ki (pr_value pr) meta ap) (ir_energy ir)
      | None \<Rightarrow>
          Some (if ir_err ir \<noteq> None
                then ([Answer (HttpError 400 ''command exited'')], ap\<lparr>ap_theExecutor := None\<rparr>)
                else after_answer c io energyStart cpuStart ir meta ap))"

text \<open>The result is \<open>None\<close> when the handler does not return: the interaction blocks or panics.\<close>

definition runHandler :: "host \<Rightarrow> rapl_cfg \<Rightarrow> run_io \<Rightarrow> ActionProxy \<Rightarrow> (run_effect list \<times> ActionProxy) option" where
  "runHandler h c io ap =
     (let energyStart = fst (readEnergy (rn_start_h io)) in
      case rn_body io of
        Inl e \<Rightarrow> Some ([Answer (HttpError 400 (''Error reading request body: '' @ e))], ap)
      | Inr body \<Rightarrow>
          (case ap_theExecutor ap of
             None \<Rightarrow> Some ([Answer (HttpError 500 ''no action defined yet'')], ap)
           | Some proc \<Rightarrow>
               (let cpuStart = readCPUSnapshot (rn_cpu_h io) (Executor_Pid proc) in
                if Exited proc then Some ([Answer (HttpError 500 ''command exited'')], ap)
                else (let pr = prepare h body (rn_json io) (rn_extract_ns io) in
                  case Interact h c (rn_interact io) (strip_newlines (pr_input pr)) (pr_energy pr) proc of
                    None \<Rightarrow> None
                  | Some ir \<Rightarrow>
                      map_option (\<lambda>(fx, ap'). (ToAction (ir_input ir) # Monitored (ir_fx ir) # fx, ap'))
                        (after_interact h c io energyStart cpuStart pr ir (ap\<lparr>ap_theExecutor := Some (ir_exec ir)\<rparr>))))))"

section \<open>How a run goes\<close>

lemma Interact_facts:
  assumes "Interact h c io inp energy proc = Some ir"
  shows "ir_kill ir \<noteq> None \<Longrightarrow> ir_energy ir \<noteq> None" "ir_input ir = inp"
    "\<And>st. energy = Some st \<Longrightarrow> \<exists>x. ir_energy ir = Some (st\<lparr>ExecutionThresholdJ := x\<rparr>)"
    "energy = None \<Longrightarrow> ir_energy ir = None"
    "isNonInterruptibleForThisStep energy \<Longrightarrow> ir_kill ir = None \<and> kill_free (ir_fx ir)"
proof -
  obtain a kill life energy' fx proc' where
    m: "monitored h c io energy (proc\<lparr>ex_marks := marks_reset (ex_marks proc)\<rparr>) = Some (kill, life, energy', fx, proc')"
    and ir: "ir_kill ir = kill" "ir_energy ir = energy'" "ir_fx ir = fx" "ir_input ir = inp"
    using assms by (auto simp: Interact_def Let_def split: option.splits prod.splits if_splits)
  show "ir_kill ir \<noteq> None \<Longrightarrow> ir_energy ir \<noteq> None" "ir_input ir = inp"
    "\<And>st. energy = Some st \<Longrightarrow> \<exists>x. ir_energy ir = Some (st\<lparr>ExecutionThresholdJ := x\<rparr>)"
    "energy = None \<Longrightarrow> ir_energy ir = None"
    "isNonInterruptibleForThisStep energy \<Longrightarrow> ir_kill ir = None \<and> kill_free (ir_fx ir)"
    using monitored_energy[OF m] monitored_unkillable[OF m] ir by auto
qed

text \<open>A run that returns was answered at once, or ran the action.\<close>

lemma runHandler_cases:
  assumes "runHandler h c io ap = Some (fx, ap')"
  obtains (early) code msg where "fx = [Answer (HttpError code msg)]" "ap' = ap"
  | (ran) body proc pr ir fx' where "rn_body io = Inr body" "ap_theExecutor ap = Some proc"
      "pr = prepare h body (rn_json io) (rn_extract_ns io)"
      "Interact h c (rn_interact io) (strip_newlines (pr_input pr)) (pr_energy pr) proc = Some ir"
      "fx = ToAction (strip_newlines (pr_input pr)) # Monitored (ir_fx ir) # fx'"
      "after_interact h c io (fst (readEnergy (rn_start_h io))) (readCPUSnapshot (rn_cpu_h io) (Executor_Pid proc)) pr ir
         (ap\<lparr>ap_theExecutor := Some (ir_exec ir)\<rparr>) = Some (fx', ap')"
proof (cases "rn_body io")
  case (Inl e)
  with assms show thesis by (intro early) (auto simp: runHandler_def)
next
  case (Inr body)
  show thesis
  proof (cases "ap_theExecutor ap")
    case None
    with assms Inr show thesis by (intro early) (auto simp: runHandler_def)
  next
    case (Some proc)
    let ?pr = "prepare h body (rn_json io) (rn_extract_ns io)"
    show thesis
    proof (cases "Exited proc")
      case True
      with assms Inr Some show thesis by (intro early) (auto simp: runHandler_def)
    next
      case False
      then obtain ir where ir: "Interact h c (rn_interact io) (strip_newlines (pr_input ?pr)) (pr_energy ?pr) proc = Some ir"
        using assms Inr Some by (auto simp: runHandler_def Let_def split: option.splits)
      with assms Inr Some False obtain fx' where "fx = ToAction (ir_input ir) # Monitored (ir_fx ir) # fx'"
        "after_interact h c io (fst (readEnergy (rn_start_h io))) (readCPUSnapshot (rn_cpu_h io) (Executor_Pid proc)) ?pr ir
         (ap\<lparr>ap_theExecutor := Some (ir_exec ir)\<rparr>) = Some (fx', ap')"
        by (auto simp: runHandler_def Let_def)
      with ran[OF Inr Some refl ir] Interact_facts(2)[OF ir] show thesis by simp
    qed
  qed
qed

definition answers :: "run_effect list \<Rightarrow> http_out list" where
  "answers fx = List.map_filter (\<lambda>x. case x of Answer a \<Rightarrow> Some a | _ \<Rightarrow> None) fx"

lemma record_run_pushes:
  assumes "recordMetricsImpl h c e x ''/run'' st es cs meta True fb m = (fx, m')"
  shows "\<exists>pre en. fx = pre @ [Push True ''/run'' en] \<and>
     en_ActivationID en = (case meta of None \<Rightarrow> [] | Some r \<Rightarrow> rm_ActivationID r) \<and>
     en_TraceID en = (case meta of None \<Rightarrow> [] | Some r \<Rightarrow> rm_TraceID r) \<and>
     EnergyAttributed en = fst (with_fallback (AttributedUJ (run_detail h c e x ''/run'' es cs)) fb)"
  using assms by (auto simp: recordMetricsImpl_def record_entry_def new_entry_def Let_def split: prod.splits)

lemma answers_simps [simp]:
  "answers [] = []" "answers (Answer a # fx) = a # answers fx" "answers (ToAction i # fx) = answers fx"
  "answers (Monitored m # fx) = answers fx" "answers (KillReported e d # fx) = answers fx"
  "answers (map Metric ms @ fx) = answers fx"
  by (simp_all add: answers_def) (induction ms; simp)

lemma prepare_trace:
  assumes "pr_energy (prepare h body parsed ns) = Some st"
  shows "rm_TraceID (pr_meta (prepare h body parsed ns)) = TraceID st"
proof -
  obtain req st0 cleaned lg where d: "Option.bind parsed decode_request = Some req"
    and x: "ExtractEnergyState (rq_Value req) = (Some st0, cleaned, lg)"
    and st: "st = st0\<lparr>ResolvedActionName := shortActionName (rq_ActionName req)\<rparr>"
    using assms by (auto simp: prepare_def Let_def split: option.splits prod.splits)
  have "energy_trace_of (rq_Value req) = [] \<or> energy_trace_of (rq_Value req) = TraceID st0"
  proof (cases "map_of (rq_Value req) firstStepAnchorKey")
    case None
    then show ?thesis by (simp add: energy_trace_of_def firstStepAnchorKey_def)
  next
    case (Some j)
    then have "decodeEnergyStateMap (bare_params (rq_Value req)) = Some st0"
      using x Extract_first[of "rq_Value req"] by simp
    from first_step_trace[OF this] show ?thesis by (simp add: energy_trace_of_def str_or_def)
  qed
  then show ?thesis using d x st by (auto simp: prepare_def Let_def)
qed

lemma merge_lifecycle_meta [simp]:
  "rm_TraceID (merge_lifecycle l m) = rm_TraceID m" "rm_ActivationID (merge_lifecycle l m) = rm_ActivationID m"
  by (simp_all add: merge_lifecycle_def split: option.split)

lemma after_answer_no_kill:
  "after_answer c io es cs ir meta ap = (fx, ap') \<Longrightarrow> KillReported ev d \<notin> set fx"
  by (auto simp: after_answer_def Let_def write_answer_def split: if_splits prod.splits write_io.splits)

text \<open>The four ways a run of the action ends.\<close>

lemma after_interact_cases:
  assumes "after_interact h c io es cs pr ir ap = Some (fx, ap')"
  obtains (exited) "fx = [Answer (HttpError 400 ''command exited'')]"
  | (killed) mfx ev d where "ir_kill ir \<noteq> None" "\<exists>en. Push True ''/run'' en \<in> set mfx"
      "fx = map Metric mfx @ [KillReported ev d, Answer (HttpError 400 ''energy budget exceeded: action killed'')]"
  | (bad) "fx = [Answer (HttpError 502 ''The action did not return a dictionary or array.'')]"
  | (result) mfx body meta' where "ir_kill ir = None" "\<exists>en. Push True ''/run'' en \<in> set mfx"
      "reinject io c es cs (ir_exec ir) (ir_energy ir) (ir_out ir) (merge_lifecycle (ir_lifecycle ir) (pr_meta pr)) = (body, meta')"
      "fx = map Metric mfx @ write_answer (rn_write io) body"
proof (cases "ir_kill ir")
  case (Some ki)
  let ?meta = "merge_lifecycle (ir_lifecycle ir) (pr_meta pr)"
  obtain st where st: "ir_energy ir = Some st" using assms Some by (auto simp: after_interact_def)
  obtain mfx m where rec: "recordMetricsSyncWithFallback (rn_end_h io) c (rn_end io) (Some (exec_view_of (ir_exec ir))) ''/run''
     (rn_start io) es cs (Some ?meta) (ki_EnergyConsumedJ ki) (ap_metrics ap) = (mfx, m)" by fastforce
  then have "\<exists>en. Push True ''/run'' en \<in> set mfx"
    using record_run_pushes by (fastforce simp: recordMetricsSyncWithFallback_def)
  moreover have "fx = map Metric mfx @ [KillReported (killed_event st ki (pr_value pr) ?meta)
      (postExecutionKilled h (rn_sched io) (killed_event_finite (killed_event st ki (pr_value pr) ?meta))),
      Answer (HttpError 400 ''energy budget exceeded: action killed'')]"
    using assms Some st rec by (simp add: after_interact_def after_kill_def Let_def)
  ultimately show thesis using killed Some by blast
next
  case None
  show thesis
  proof (cases "ir_err ir = None \<and> classify_result (rn_result io) \<noteq> ResultBad")
    case False
    with assms None exited bad show thesis by (auto simp: after_interact_def after_answer_def split: if_splits)
  next
    case True
    obtain body meta' where r: "reinject io c es cs (ir_exec ir) (ir_energy ir) (ir_out ir) (merge_lifecycle (ir_lifecycle ir) (pr_meta pr)) = (body, meta')"
      by fastforce
    obtain mfx m where rec: "recordMetricsSync (rn_end_h io) c (rn_end io) (Some (exec_view_of (ir_exec ir))) ''/run''
      (rn_start io) es cs (Some meta') (ap_metrics ap) = (mfx, m)" by fastforce
    then have "\<exists>en. Push True ''/run'' en \<in> set mfx"
      using record_run_pushes by (fastforce simp: recordMetricsSync_def)
    moreover have "fx = map Metric mfx @ write_answer (rn_write io) body"
      using assms None True r rec by (simp add: after_interact_def after_answer_def Let_def)
    ultimately show thesis using result None r by blast
  qed
qed

lemma reinject_state:
  assumes "reinject io c es cs proc energy out meta = (WithState (JObj res), meta')" "energy = Some st" "state_ok st"
    and "firstStepAnchorKey \<notin> fst ` set res"
  shows "fst (ExtractEnergyState res) =
     Some (st\<lparr>ConsumedBeforeJ := f_add (ConsumedBeforeJ st) (measured_step c (rn_side_h io) es cs proc), ResolvedActionName := []\<rparr>)"
proof -
  let ?j = "measured_step c (rn_side_h io) es cs proc"
  obtain objmap where o: "classify_result (rn_result io) = ResultObject (Some objmap)"
    and r: "ReinjectEnergyState objmap (Some st) ?j = (res, False)"
    using assms(1,2) by (auto simp: reinject_def Let_def split: action_result.splits option.splits prod.splits if_splits)
  from r obtain raw where m: "marshal_state (st\<lparr>ConsumedBeforeJ := f_add (ConsumedBeforeJ st) ?j\<rparr>) = Some raw"
    and res: "res = AList.update energyStateKey raw objmap"
    by (auto simp: ReinjectEnergyState_def Let_def split: option.splits)
  have fin: "f_finite (ExecutionThresholdJ st)" "f_finite (f_add (ConsumedBeforeJ st) ?j)"
    using m by (auto simp: marshal_state_def split: if_splits)
  have "firstStepAnchorKey \<notin> fst ` set objmap"
    using assms(4) by (simp add: res dom_update)
  from Extract_Reinject[OF assms(3) fin this] r show ?thesis by simp
qed

lemma prepare_line:
  "pr_input (prepare h body parsed ns) = (case Option.bind parsed decode_request of
       None \<Rightarrow> RawBody body
     | Some req \<Rightarrow>
         (if fst (ExtractEnergyState (rq_Value req)) \<noteq> None \<and> json_finite (JObj (fst (snd (ExtractEnergyState (rq_Value req)))))
          then Reencoded (JObj [(''activation_id'', JStr (rq_ActivationID req)),
                 (''value'', JObj (fst (snd (ExtractEnergyState (rq_Value req))))), (''action_name'', JStr (rq_ActionName req))])
          else RawBody body))"
  by (auto simp: prepare_def encoded_request_def Let_def split: option.split prod.split)

section \<open>Properties\<close>

text \<open>C3: a kill is measured before it is reported, and reported before it is answered. When a run
  reports \<^verbatim>\<open>EXECUTION_KILLED\<close>, the push of its own \<^verbatim>\<open>/run\<close> measurement has completed just
  before, with the same activation and trace identifiers as the event; only the answer 400 follows,
  and the dead executor is forgotten.\<close>

theorem kill_measured_then_reported:
  assumes "runHandler h c io ap = Some (fx, ap')" "KillReported ev d \<in> set fx"
  shows "\<exists>inp m pre en. fx = ToAction inp # Monitored m # map Metric pre @
       [Metric (Push True ''/run'' en), KillReported ev d, Answer (HttpError 400 ''energy budget exceeded: action killed'')]
     \<and> en_ActivationID en = ke_ActivationID ev \<and> en_TraceID en = ke_TraceID ev \<and> ap_theExecutor ap' = None"
  using assms(1)
proof (cases rule: runHandler_cases)
  case early
  with assms(2) show ?thesis by simp
next
  case (ran body proc pr ir fx')
  have k: "KillReported ev d \<in> set fx'" using assms(2) ran(5) by simp
  show ?thesis
  proof (cases "ir_kill ir")
    case None
    then have "KillReported ev d \<notin> set fx'"
      using ran(6) after_answer_no_kill by (auto simp: after_interact_def Let_def split: if_splits)
    with k show ?thesis by simp
  next
    case (Some ki)
    obtain st where st: "ir_energy ir = Some st" using Interact_facts(1)[OF ran(4)] Some by blast
    obtain st0 x where st0: "pr_energy pr = Some st0" "st = st0\<lparr>ExecutionThresholdJ := x\<rparr>"
      using Interact_facts(3,4)[OF ran(4)] st by (cases "pr_energy pr") auto
    let ?meta = "merge_lifecycle (ir_lifecycle ir) (pr_meta pr)"
    obtain mfx m where rec: "recordMetricsSyncWithFallback (rn_end_h io) c (rn_end io) (Some (exec_view_of (ir_exec ir))) ''/run''
        (rn_start io) (fst (readEnergy (rn_start_h io))) (readCPUSnapshot (rn_cpu_h io) (Executor_Pid proc)) (Some ?meta)
        (ki_EnergyConsumedJ ki) (ap_metrics ap) = (mfx, m)" by fastforce
    obtain pre en where push: "mfx = pre @ [Push True ''/run'' en]" "en_ActivationID en = rm_ActivationID ?meta" "en_TraceID en = rm_TraceID ?meta"
      using record_run_pushes[OF rec[unfolded recordMetricsSyncWithFallback_def]] by auto
    have fx': "fx' = map Metric mfx @ [KillReported (killed_event st ki (pr_value pr) ?meta)
        (postExecutionKilled h (rn_sched io) (killed_event_finite (killed_event st ki (pr_value pr) ?meta))),
        Answer (HttpError 400 ''energy budget exceeded: action killed'')]" "ap_theExecutor ap' = None"
      using ran(6) Some st rec by (auto simp: after_interact_def after_kill_def Let_def)
    have "rm_TraceID ?meta = TraceID st0" using prepare_trace st0(1) ran(3) by simp
    with k fx' push st0(2) ran(5) show ?thesis by (auto simp: killed_event_def)
  qed
qed

text \<open>C10: a run whose step must not be killed is never killed: for a request whose energy state
  marks this very action UNKILLABLE (or whose action name is missing), no kill reaches the cgroup,
  none is reported, and the answer is never the one for an exceeded budget.\<close>

theorem unkillable_run_never_killed:
  assumes "runHandler h c io ap = Some (fx, ap')" "rn_body io = Inr body"
    and "isNonInterruptibleForThisStep (pr_energy (prepare h body (rn_json io) (rn_extract_ns io)))"
  shows "(\<forall>m. Monitored m \<in> set fx \<longrightarrow> kill_free m) \<and> (\<forall>ev d. KillReported ev d \<notin> set fx)
       \<and> HttpError 400 ''energy budget exceeded: action killed'' \<notin> set (answers fx)"
  using assms(1)
proof (cases rule: runHandler_cases)
  case early
  with assms(1,2) show ?thesis
    by (auto simp: runHandler_def Let_def split: option.splits if_splits sum.splits)
next
  case (ran body' proc pr ir fx')
  have pr: "isNonInterruptibleForThisStep (pr_energy pr)" using assms(2,3) ran(1,3) by simp
  note nk = Interact_facts(5)[OF ran(4) pr]
  show ?thesis
  proof (cases "ir_err ir")
    case (Some e)
    with ran(5,6) nk show ?thesis by (auto simp: after_interact_def)
  next
    case None
    obtain fx2 a2 where aa: "after_answer c io (fst (readEnergy (rn_start_h io))) (readCPUSnapshot (rn_cpu_h io) (Executor_Pid proc)) ir
        (merge_lifecycle (ir_lifecycle ir) (pr_meta pr)) (ap\<lparr>ap_theExecutor := Some (ir_exec ir)\<rparr>) = (fx2, a2)" by fastforce
    then have "fx' = fx2" using ran(6) None nk by (simp add: after_interact_def)
    moreover have "HttpError 400 ''energy budget exceeded: action killed'' \<notin> set (answers fx2)" "Monitored m \<notin> set fx2" for m
      using aa by (auto simp: after_answer_def Let_def write_answer_def split: if_splits prod.splits write_io.splits)
    ultimately show ?thesis using ran(5) nk after_answer_no_kill[OF aa] by auto
  qed
qed

text \<open>C8: the energy state is handed on. When a run answers with an object that carries the state,
  the next step of the sequence, whose parameters are that object, reads back this step's state
  with the threshold its monitor ended with and with the measured energy of the step added, and
  nothing else changed, provided the action's result does not itself contain
  \<^verbatim>\<open>energy_trace_id\<close>.\<close>

theorem state_handed_on:
  assumes "runHandler h c io ap = Some (fx, ap')" "Answer (HttpBody (WithState (JObj res))) \<in> set fx"
    and "rn_body io = Inr body" "pr_energy (prepare h body (rn_json io) (rn_extract_ns io)) = Some st"
    and "state_ok st" "firstStepAnchorKey \<notin> fst ` set res"
  shows "\<exists>proc ir thr. ap_theExecutor ap = Some proc \<and>
     Interact h c (rn_interact io) (strip_newlines (pr_input (prepare h body (rn_json io) (rn_extract_ns io)))) (Some st) proc = Some ir \<and>
     ir_energy ir = Some (st\<lparr>ExecutionThresholdJ := thr\<rparr>) \<and>
     fst (ExtractEnergyState res) = Some (st\<lparr>ExecutionThresholdJ := thr,
       ConsumedBeforeJ := f_add (ConsumedBeforeJ st) (measured_step c (rn_side_h io) (fst (readEnergy (rn_start_h io)))
         (readCPUSnapshot (rn_cpu_h io) (Executor_Pid proc)) (ir_exec ir)),
       ResolvedActionName := []\<rparr>)"
  using assms(1)
proof (cases rule: runHandler_cases)
  case early
  with assms(2) show ?thesis by simp
next
  case (ran body' proc pr ir fx')
  have pr: "pr = prepare h body (rn_json io) (rn_extract_ns io)" "pr_energy pr = Some st" using ran(1,3) assms(3,4) by simp_all
  obtain thr where thr: "ir_energy ir = Some (st\<lparr>ExecutionThresholdJ := thr\<rparr>)"
    using Interact_facts(3)[OF ran(4) pr(2)] by blast
  let ?es = "fst (readEnergy (rn_start_h io))" and ?cs = "readCPUSnapshot (rn_cpu_h io) (Executor_Pid proc)"
  let ?meta = "merge_lifecycle (ir_lifecycle ir) (pr_meta pr)"
  have w: "Answer (HttpBody (WithState (JObj res))) \<in> set fx'" using assms(2) ran(5) by simp
  from ran(6) w obtain meta' where "reinject io c ?es ?cs (ir_exec ir) (ir_energy ir) (ir_out ir) ?meta = (WithState (JObj res), meta')"
    by (cases rule: after_interact_cases) (auto simp: write_answer_def split: write_io.splits)
  from reinject_state[OF this thr] assms(5,6) have
    "fst (ExtractEnergyState res) = Some (st\<lparr>ExecutionThresholdJ := thr,
       ConsumedBeforeJ := f_add (ConsumedBeforeJ st) (measured_step c (rn_side_h io) ?es ?cs (ir_exec ir)), ResolvedActionName := []\<rparr>)"
    by (simp add: state_ok_def)
  with ran(2,4) pr thr show ?thesis by auto
qed

text \<open>C30: the line the action receives. When the request carries an energy state that decodes, the
  action gets a re-encoded request with exactly \<^verbatim>\<open>activation_id\<close>, the stripped
  \<^verbatim>\<open>value\<close> and \<^verbatim>\<open>action_name\<close>: every other field of the request is dropped. In every
  other case, also when the state is there but does not decode, it gets the request as it came,
  with only the newlines removed.\<close>

theorem action_line:
  assumes "runHandler h c io ap = Some (fx, ap')" "rn_body io = Inr body" "ToAction i \<in> set fx"
  shows "i = (case Option.bind (rn_json io) decode_request of
       None \<Rightarrow> RawBody (filter (\<lambda>ch. ch \<noteq> CHR 0x0A) body)
     | Some req \<Rightarrow>
         (if fst (ExtractEnergyState (rq_Value req)) \<noteq> None \<and> json_finite (JObj (fst (snd (ExtractEnergyState (rq_Value req)))))
          then Reencoded (JObj [(''activation_id'', JStr (rq_ActivationID req)),
                 (''value'', JObj (fst (snd (ExtractEnergyState (rq_Value req))))), (''action_name'', JStr (rq_ActionName req))])
          else RawBody (filter (\<lambda>ch. ch \<noteq> CHR 0x0A) body)))"
  using assms(1)
proof (cases rule: runHandler_cases)
  case early
  with assms(3) show ?thesis by simp
next
  case (ran body' proc pr ir fx')
  have "ToAction i \<notin> set fx'"
    using ran(6) by (cases rule: after_interact_cases) (auto simp: write_answer_def split: write_io.splits)
  then have "i = strip_newlines (pr_input (prepare h body (rn_json io) (rn_extract_ns io)))"
    using assms(2,3) ran(1,3,5) by simp
  then show ?thesis by (simp add: prepare_line split: option.split)
qed

text \<open>C31: every run that returns is answered, once unless writing the answer failed, and nothing
  follows the answer. A \<^verbatim>\<open>/run\<close> measurement is pushed exactly when the action's result is
  returned or a kill is reported: a run that ends because the action exited or returned something
  else is not measured at all.\<close>

theorem run_answered_and_measured:
  assumes "runHandler h c io ap = Some (fx, ap')"
  shows "(\<exists>a. last fx = Answer a \<and> fx \<noteq> [] \<and> (rn_write io = WroteAll \<longrightarrow> answers fx = [a]))
       \<and> ((\<exists>w en. Metric (Push w ''/run'' en) \<in> set fx) \<longleftrightarrow>
            (\<exists>b. Answer (HttpBody b) \<in> set fx) \<or> (\<exists>ev d. KillReported ev d \<in> set fx))"
  using assms
proof (cases rule: runHandler_cases)
  case early
  then show ?thesis by simp
next
  case (ran body proc pr ir fx')
  from ran(6) show ?thesis
  proof (cases rule: after_interact_cases)
    case (killed mfx ev d)
    then obtain en where "Metric (Push True ''/run'' en) \<in> set fx" using ran(5) by auto
    moreover have "KillReported ev d \<in> set fx" "last fx = Answer (HttpError 400 ''energy budget exceeded: action killed'')" "fx \<noteq> []"
      "answers fx = [HttpError 400 ''energy budget exceeded: action killed'']"
      using killed(3) ran(5) by simp_all
    ultimately show ?thesis by blast
  next
    case (result mfx b meta')
    then show ?thesis using ran(5) by (auto simp: write_answer_def split: write_io.splits)
  qed (use ran(5) in simp_all)
qed

section \<open>Concrete runs\<close>

text \<open>The process 42 of an action is sampled once, at 90 J.\<close>

definition warm_proxy :: ActionProxy where
  "warm_proxy = \<lparr>ap_initialized = True, ap_baseDir = ''./action'', ap_compiler = [], ap_currentDir = 1,
     ap_theExecutor = Some \<lparr>ex_cmd = Some (Some 42), ex_command = ''./action/1/bin/exec'', ex_args = [], ex_env = [], ex_exited = False, ex_controller = started_controller, ex_marks = []\<rparr>,
     ap_env = [], ap_metrics = \<lparr>am_metrics = None, pendingInitEntry = None\<rparr>\<rparr>"

definition run_value :: "string \<Rightarrow> params" where
  "run_value classes = [(''energy_trace_id'', JStr ''t-1''), (''energy_execution_threshold_j'', JNum (Fin 50)), (''x'', JStr ''hi''),
     (''energy_interruption_class'', JObj [(''tts'', JStr classes)])]"

definition run_example :: "json option \<Rightarrow> answer \<Rightarrow> run_io" where
  "run_example parsed ans = \<lparr>rn_start = 1, rn_start_h = act_host ''0'' ''0'' 0, rn_body = Inr ''{...}'', rn_json = parsed,
     rn_cpu_h = act_host ''0'' ''0'' 0, rn_extract_ns = 5,
     rn_interact = \<lparr>ix_answer = Some ans, ix_start = act_host ''0'' ''0'' 0, ix_events = [MonTick (act_tick []), MonStop]\<rparr>,
     rn_result = Some (JObj [(''y'', JStr ''done'')]), rn_side_h = act_host ''90000000'' ''1000'' 1000000, rn_inject_ns = 7,
     rn_state_len = (\<lambda>_. 0), rn_end_h = act_host ''90000000'' ''1000'' 1000000, rn_end = 1000000,
     rn_sched = (\<lambda>_. Status 200), rn_write = WroteAll\<rparr>"

definition run_request :: "params \<Rightarrow> json option" where
  "run_request v = Some (JObj [(''activation_id'', JStr ''a-1''), (''deadline'', JNum (Fin 9)), (''action_name'', JStr ''/guest/tts''), (''value'', JObj v)])"

fun reports_kill :: "run_effect \<Rightarrow> bool" where
  "reports_kill (KillReported _ _) = True" | "reports_kill _ = False"

lemma killed_run:
  "case runHandler bare_host cfg_example (run_example (run_request (run_value ''KILL_SAFE'')) ProcessExited) warm_proxy of
     Some (fx, _) \<Rightarrow> list_ex reports_kill fx | None \<Rightarrow> False"
  by code_simp

lemma reports_kill_iff: "list_ex reports_kill fx \<longleftrightarrow> (\<exists>ev d. KillReported ev d \<in> set fx)"
proof -
  have "reports_kill x \<longleftrightarrow> (\<exists>ev d. x = KillReported ev d)" for x by (cases x) auto
  then show ?thesis by (auto simp: list_ex_iff)
qed

theorem kill_measured_then_reported_witness:
  "\<exists>fx ap' ev d en. runHandler bare_host cfg_example (run_example (run_request (run_value ''KILL_SAFE'')) ProcessExited) warm_proxy = Some (fx, ap')
     \<and> Metric (Push True ''/run'' en) \<in> set fx \<and> KillReported ev d \<in> set fx \<and> en_TraceID en = ke_TraceID ev"
proof -
  obtain fx ap' where r: "runHandler bare_host cfg_example (run_example (run_request (run_value ''KILL_SAFE'')) ProcessExited) warm_proxy = Some (fx, ap')"
    and k: "list_ex reports_kill fx" using killed_run by (auto split: option.splits)
  obtain ev d where ev: "KillReported ev d \<in> set fx" using k reports_kill_iff by blast
  obtain inp m pre en where "fx = ToAction inp # Monitored m # map Metric pre @
      [Metric (Push True ''/run'' en), KillReported ev d, Answer (HttpError 400 ''energy budget exceeded: action killed'')]"
    and t: "en_TraceID en = ke_TraceID ev" using kill_measured_then_reported[OF r ev] by blast
  then have "Metric (Push True ''/run'' en) \<in> set fx" by simp
  with r ev t show ?thesis by blast
qed

lemma unkillable_run:
  "case runHandler bare_host cfg_example (run_example (run_request (run_value ''UNKILLABLE'')) (AnswerLine ''{}'')) warm_proxy of
     Some _ \<Rightarrow> True | None \<Rightarrow> False"
  by code_simp

lemma unkillable_request:
  "isNonInterruptibleForThisStep (pr_energy (prepare bare_host ''{...}'' (run_request (run_value ''UNKILLABLE'')) 5))"
  by code_simp

theorem unkillable_run_never_killed_witness:
  "\<exists>fx ap'. runHandler bare_host cfg_example (run_example (run_request (run_value ''UNKILLABLE'')) (AnswerLine ''{}'')) warm_proxy = Some (fx, ap')
     \<and> (\<forall>ev d. KillReported ev d \<notin> set fx)"
proof -
  let ?io = "run_example (run_request (run_value ''UNKILLABLE'')) (AnswerLine ''{}'')"
  obtain fx ap' where r: "runHandler bare_host cfg_example ?io warm_proxy = Some (fx, ap')"
    using unkillable_run by (auto split: option.splits)
  have b: "rn_body ?io = Inr ''{...}''" by (simp add: run_example_def)
  have "isNonInterruptibleForThisStep (pr_energy (prepare bare_host ''{...}'' (rn_json ?io) (rn_extract_ns ?io)))"
    using unkillable_request by (simp add: run_example_def)
  from unkillable_run_never_killed[OF r b this] r show ?thesis by blast
qed

text \<open>A step with a state and no threshold, whose result is an object.\<close>

definition plain_io :: run_io where
  "plain_io = run_example (run_request [(''energy_trace_id'', JStr ''t-1''), (''x'', JStr ''hi'')]) (AnswerLine ''{}'')"

fun hands_on :: "run_effect \<Rightarrow> bool" where
  "hands_on (Answer (HttpBody (WithState (JObj res)))) = list_all (\<lambda>kv. firstStepAnchorKey \<noteq> fst kv) res"
| "hands_on _ = False"

lemma plain_run:
  "case runHandler bare_host cfg_example plain_io warm_proxy of Some (fx, _) \<Rightarrow> list_ex hands_on fx | None \<Rightarrow> False"
  by code_simp

lemma plain_state:
  "case pr_energy (prepare bare_host ''{...}'' (rn_json plain_io) (rn_extract_ns plain_io)) of
     Some st \<Rightarrow> state_ok st \<and> TraceID st = ''t-1'' | None \<Rightarrow> False"
  by code_simp

lemma plain_run_obtain:
  obtains fx ap' res where "runHandler bare_host cfg_example plain_io warm_proxy = Some (fx, ap')"
    "Answer (HttpBody (WithState (JObj res))) \<in> set fx" "firstStepAnchorKey \<notin> fst ` set res"
proof -
  obtain fx ap' x where r: "runHandler bare_host cfg_example plain_io warm_proxy = Some (fx, ap')" "x \<in> set fx" "hands_on x"
    using plain_run by (auto simp: list_ex_iff split: option.splits)
  obtain res where "x = Answer (HttpBody (WithState (JObj res)))" "firstStepAnchorKey \<notin> fst ` set res"
    using r(3) by (cases x rule: hands_on.cases) (auto simp: list_all_iff image_iff)
  with r that show thesis by blast
qed

lemma plain_body: "rn_body plain_io = Inr ''{...}''"
  by (simp add: plain_io_def run_example_def)

theorem state_handed_on_witness:
  "\<exists>fx ap' res st. runHandler bare_host cfg_example plain_io warm_proxy = Some (fx, ap') \<and>
     Answer (HttpBody (WithState (JObj res))) \<in> set fx \<and> fst (ExtractEnergyState res) = Some st \<and> TraceID st = ''t-1''"
proof -
  obtain fx ap' res where r: "runHandler bare_host cfg_example plain_io warm_proxy = Some (fx, ap')"
    "Answer (HttpBody (WithState (JObj res))) \<in> set fx" "firstStepAnchorKey \<notin> fst ` set res" by (rule plain_run_obtain)
  obtain st where st: "pr_energy (prepare bare_host ''{...}'' (rn_json plain_io) (rn_extract_ns plain_io)) = Some st"
    "state_ok st" "TraceID st = ''t-1''" using plain_state by (auto split: option.splits)
  from state_handed_on[OF r(1,2) plain_body st(1,2) r(3)] st(3) obtain st' where
    "fst (ExtractEnergyState res) = Some st'" "TraceID st' = ''t-1''" by auto
  with r show ?thesis by blast
qed

theorem action_line_witness:
  "\<exists>fx ap' i. runHandler bare_host cfg_example plain_io warm_proxy = Some (fx, ap') \<and> ToAction i \<in> set fx \<and>
     i = Reencoded (JObj [(''activation_id'', JStr ''a-1''), (''value'', JObj [(''x'', JStr ''hi'')]), (''action_name'', JStr ''/guest/tts'')])"
proof -
  obtain fx ap' res where r: "runHandler bare_host cfg_example plain_io warm_proxy = Some (fx, ap')"
    "Answer (HttpBody (WithState (JObj res))) \<in> set fx" by (rule plain_run_obtain)
  obtain i where i: "ToAction i \<in> set fx"
    using r by (cases rule: runHandler_cases) auto
  have req: "Option.bind (rn_json plain_io) decode_request = Some \<lparr>rq_ActivationID = ''a-1'',
      rq_Value = [(''energy_trace_id'', JStr ''t-1''), (''x'', JStr ''hi'')], rq_ActionName = ''/guest/tts''\<rparr>" by code_simp
  have ex: "case ExtractEnergyState [(''energy_trace_id'', JStr ''t-1''), (''x'', JStr ''hi'')] of
      (Some _, v, _) \<Rightarrow> v = [(''x'', JStr ''hi'')] | _ \<Rightarrow> False" by code_simp
  then have "fst (ExtractEnergyState [(''energy_trace_id'', JStr ''t-1''), (''x'', JStr ''hi'')]) \<noteq> None"
    "fst (snd (ExtractEnergyState [(''energy_trace_id'', JStr ''t-1''), (''x'', JStr ''hi'')])) = [(''x'', JStr ''hi'')]"
    by (auto split: prod.splits option.splits)
  with action_line[OF r(1) plain_body i] req have
    "i = Reencoded (JObj [(''activation_id'', JStr ''a-1''), (''value'', JObj [(''x'', JStr ''hi'')]), (''action_name'', JStr ''/guest/tts'')])"
    by simp
  with r i show ?thesis by blast
qed

theorem run_answered_and_measured_witness:
  "\<exists>fx ap' a w en. runHandler bare_host cfg_example plain_io warm_proxy = Some (fx, ap') \<and> answers fx = [a] \<and>
     Metric (Push w ''/run'' en) \<in> set fx"
proof -
  obtain fx ap' res where r: "runHandler bare_host cfg_example plain_io warm_proxy = Some (fx, ap')"
    "Answer (HttpBody (WithState (JObj res))) \<in> set fx" by (rule plain_run_obtain)
  have "rn_write plain_io = WroteAll" by (simp add: plain_io_def run_example_def)
  with run_answered_and_measured[OF r(1)] r show ?thesis by blast
qed

end
