(* ===== verification/Paths.thy ===== *)
theory Paths
  imports Prelude
begin

text \<open>
  Lexical facts about paths, shared by the archives, the extraction of an action and the proxy:
  what \<^verbatim>\<open>filepath.Join\<close>, \<^verbatim>\<open>filepath.Clean\<close> and \<^verbatim>\<open>filepath.Dir\<close> give below a
  directory that is already clean. They are about the text of a path: what a symbolic link on
  the way does is the kernel's.
\<close>

definition path_Dir :: "string \<Rightarrow> string" where
  "path_Dir p = path_Clean (take (length p - length (after_last (CHR ''/'') p)) p)"

abbreviation parts :: "string \<Rightarrow> string list" where
  "parts s \<equiv> Split s (CHR ''/'')"

text \<open>A component that \<^verbatim>\<open>Clean\<close> keeps, a component that it keeps as it is, and the path of
  a list of components below a directory.\<close>

definition kept :: "string \<Rightarrow> bool" where
  "kept p \<longleftrightarrow> p \<noteq> [] \<and> p \<noteq> ''.''"

definition plain :: "string \<Rightarrow> bool" where
  "plain p \<longleftrightarrow> kept p \<and> p \<noteq> ''..'' \<and> CHR ''/'' \<notin> set p"

definition below :: "string \<Rightarrow> string list \<Rightarrow> string" where
  "below d ks = d @ concat (map (Cons (CHR ''/'')) ks)"

text \<open>A directory in the form \<^verbatim>\<open>Clean\<close> gives it, neither the root nor the working directory.\<close>

definition clean_dir :: "string \<Rightarrow> bool" where
  "clean_dir d \<longleftrightarrow> path_Clean d = d \<and> d \<noteq> ''/'' \<and> d \<noteq> ''.''"

definition inside :: "string \<Rightarrow> string \<Rightarrow> bool" where
  "inside d p \<longleftrightarrow> p = d \<or> HasPrefix p (d @ ''/'')"

section \<open>Components\<close>

lemma Split_append: "Split (s @ sep # t) sep = Split s sep @ Split t sep"
  by (induction s) (auto split: list.splits)

lemma plain_no_slash: "plain p \<Longrightarrow> CHR ''/'' \<notin> set p"
  by (simp add: plain_def)

lemma plain_kept: "plain p \<Longrightarrow> kept p"
  by (simp add: plain_def)

lemma plain_nonempty: "plain p \<Longrightarrow> p \<noteq> []"
  by (simp add: plain_def kept_def)

lemma below_Nil [simp]: "below d [] = d"
  by (simp add: below_def)

lemma below_below [simp]: "below (below d ks) ls = below d (ks @ ls)"
  by (simp add: below_def)

lemma below_snoc: "below d (ks @ [k]) = below d ks @ CHR ''/'' # k"
  by (simp add: below_def)

lemma below_inside [simp]: "inside d (below d ks)"
  by (cases ks) (simp_all add: inside_def below_def HasPrefix_def)

lemma parts_below: "\<forall>k \<in> set ks. CHR ''/'' \<notin> set k \<Longrightarrow> parts (below d ks) = parts d @ ks"
  by (induction ks rule: rev_induct) (simp_all add: below_snoc Split_append Split_no_sep)

lemma join_with_Cons: "join_with ''/'' (x # xs) = below x xs"
  by (induction xs arbitrary: x) (simp_all add: below_def)

lemma join_with_append:
  "xs \<noteq> [] \<Longrightarrow> join_with ''/'' (xs @ ys) = below (join_with ''/'' xs) ys"
  by (cases xs) (simp_all add: join_with_Cons)

lemma plain_list:
  assumes "\<forall>k \<in> set ks. plain k"
  shows "filter kept ks = ks" "''..'' \<notin> set ks" "\<forall>k \<in> set ks. CHR ''/'' \<notin> set k"
  using assms by (auto simp: filter_id_conv plain_def)

lemma fold_clean_kept:
  "''..'' \<notin> set ps \<Longrightarrow> fold (clean_part r) ps acc = rev (filter kept ps) @ acc"
  by (induction ps arbitrary: acc) (auto simp: clean_part_def kept_def)

section \<open>Joining below a clean directory\<close>

abbreviation cleaned :: "string \<Rightarrow> string \<Rightarrow> string list" where
  "cleaned d s \<equiv> fold (clean_part (HasPrefix d ''/'')) (parts s) []"

lemma clean_dir_facts:
  assumes "clean_dir d"
  shows "d \<noteq> []" "cleaned d d \<noteq> []"
    "d = (if HasPrefix d ''/'' then ''/'' else []) @ join_with ''/'' (rev (cleaned d d))"
proof -
  show ne: "d \<noteq> []"
    using assms by (auto simp: clean_dir_def path_Clean_def HasPrefix_def clean_part_def)
  have c: "(if HasPrefix d ''/'' then CHR ''/'' # join_with ''/'' (rev (cleaned d d))
      else if join_with ''/'' (rev (cleaned d d)) = [] then ''.'' else join_with ''/'' (rev (cleaned d d))) = d"
    "d \<noteq> ''/''" "d \<noteq> ''.''"
    using assms unfolding clean_dir_def path_Clean_def Let_def by simp_all
  show "cleaned d d \<noteq> []" using c by (auto split: if_splits)
  show "d = (if HasPrefix d ''/'' then ''/'' else []) @ join_with ''/'' (rev (cleaned d d))"
    using c by (auto split: if_splits)
qed

lemma rooted_append [simp]: "d \<noteq> [] \<Longrightarrow> HasPrefix (d @ s) ''/'' = HasPrefix d ''/''"
  by (cases d) (simp_all add: HasPrefix_def)

text \<open>The kept components of a cleaned path only matter through the fold.\<close>

lemma path_Clean_fold:
  assumes "clean_dir d" "HasPrefix s ''/'' = HasPrefix d ''/''"
    and "fold (clean_part (HasPrefix d ''/'')) (parts s) [] = rev ks @ cleaned d d"
  shows "path_Clean s = below d ks"
proof -
  let ?b = "join_with ''/'' (rev (cleaned d d))"
  note f = clean_dir_facts[OF assms(1)]
  have j: "join_with ''/'' (rev (rev ks @ cleaned d d)) = below ?b ks"
    using join_with_append[of "rev (cleaned d d)" ks] f(2) by simp
  show ?thesis
  proof (cases "HasPrefix d ''/''")
    case True
    with f(3) have "d = CHR ''/'' # ?b" by simp
    then have "below d ks = CHR ''/'' # below ?b ks" unfolding below_def by (metis append_Cons)
    then show ?thesis using assms(2,3) True j by (simp add: path_Clean_def)
  next
    case False
    with f(3) have b: "d = ?b" by simp
    then have "below ?b ks \<noteq> []" using f(1) by (simp add: below_def)
    then show ?thesis using assms(2,3) False j b by (simp add: path_Clean_def)
  qed
qed

lemma path_Join_below:
  assumes "clean_dir d" "''..'' \<notin> set (parts n)"
  shows "path_Join [d, n] = below d (filter kept (parts n))"
proof -
  note ne = clean_dir_facts(1)[OF assms(1)]
  have "path_Join [d, n] = path_Clean (d @ CHR ''/'' # n)" using ne by (simp add: path_Join_def)
  also have "\<dots> = below d (filter kept (parts n))"
    by (rule path_Clean_fold[OF assms(1)]) (simp_all add: ne Split_append fold_clean_kept assms(2))
  finally show ?thesis .
qed

lemma path_Join_plain:
  assumes "clean_dir d" "\<forall>k \<in> set ks. plain k" "ks \<noteq> []"
  shows "path_Join [d, join_with ''/'' ks] = below d ks"
    and "path_Join [d, join_with ''/'' ks @ ''/''] = below d ks"
proof -
  obtain k ls where k: "ks = k # ls" using assms(3) by (cases ks) auto
  note pl = plain_list[OF assms(2)]
  have 1: "parts (join_with ''/'' ks) = ks"
    using parts_below[of ls k] pl(3) by (simp add: k join_with_Cons Split_no_sep)
  then have 2: "parts (join_with ''/'' ks @ ''/'') = ks @ [[]]"
    using Split_append[of "join_with ''/'' ks" _ "[]"] by simp
  show "path_Join [d, join_with ''/'' ks] = below d ks"
    using path_Join_below[OF assms(1), of "join_with ''/'' ks"] pl unfolding 1 by simp
  show "path_Join [d, join_with ''/'' ks @ ''/''] = below d ks"
    using path_Join_below[OF assms(1), of "join_with ''/'' ks @ ''/''"] pl unfolding 2 by (simp add: kept_def)
qed

lemma clean_dir_below:
  assumes "clean_dir d" "\<forall>k \<in> set ks. plain k"
  shows "clean_dir (below d ks)"
proof -
  note ne = clean_dir_facts(1)[OF assms(1)]
  note pl = plain_list[OF assms(2)]
  have "path_Clean (below d ks) = below d ks"
  proof (rule path_Clean_fold[OF assms(1)])
    show "HasPrefix (below d ks) ''/'' = HasPrefix d ''/''" using ne by (simp add: below_def)
    show "fold (clean_part (HasPrefix d ''/'')) (parts (below d ks)) [] = rev ks @ cleaned d d"
      using pl by (simp add: parts_below fold_clean_kept)
  qed
  moreover have "length (below d ks) \<noteq> 1 \<or> below d ks = d"
    using ne by (cases ks rule: rev_cases) (simp_all add: below_snoc below_def)
  then have "below d ks \<noteq> ''/''" "below d ks \<noteq> ''.''" using assms(1) by (auto simp: clean_dir_def)
  ultimately show ?thesis by (simp add: clean_dir_def)
qed

lemma path_Dir_below:
  assumes "clean_dir d" "\<forall>k \<in> set ks. plain k" "plain k"
  shows "path_Dir (below d (ks @ [k])) = below d ks"
proof -
  have "take (length (below d (ks @ [k])) - length (after_last (CHR ''/'') (below d (ks @ [k])))) (below d (ks @ [k]))
      = below d ks @ ''/''"
    using assms(3) by (simp add: below_snoc after_last_append plain_no_slash)
  moreover have "path_Clean (below d ks @ ''/'') = below d ks"
    using path_Join_below[OF clean_dir_below[OF assms(1,2)], of "[]"] clean_dir_facts(1)[OF clean_dir_below[OF assms(1,2)]]
    by (simp add: path_Join_def kept_def)
  ultimately show ?thesis by (simp add: path_Dir_def)
qed

text \<open>A leading \<^verbatim>\<open>..\<close> leaves the directory.\<close>

lemma path_Join_parent:
  assumes "clean_dir d" "plain b"
  shows "path_Join [below d [b], ''../'' @ n] = path_Join [d, n]"
proof -
  have b: "b \<noteq> []" "b \<noteq> ''.''" "b \<noteq> ''..''" "CHR ''/'' \<notin> set b" using assms(2) by (auto simp: plain_def kept_def)
  note ne = clean_dir_facts(1)[OF assms(1)]
  have "parts (below d [b] @ ''/../'' @ n) = parts d @ [b, ''..''] @ parts n"
    using parts_below[of "[b]" d] b Split_append[of "below d [b]" _ "''../'' @ n"] Split_append[of "''..''" _ n] by simp
  then have "fold (clean_part r) (parts (below d [b] @ ''/../'' @ n)) [] = fold (clean_part r) (parts (d @ ''/'' @ n)) []" for r
    using b by (simp add: Split_append clean_part_def)
  then have "path_Clean (below d [b] @ ''/../'' @ n) = path_Clean (d @ ''/'' @ n)"
    using ne unfolding path_Clean_def by (simp add: below_def)
  then show ?thesis using ne by (simp add: path_Join_def below_def)
qed

section \<open>A base directory with a leading dot\<close>

text \<open>A base given clean, or as \<^verbatim>\<open>./\<close> followed by a clean relative path.\<close>

definition base_of :: "string \<Rightarrow> string \<Rightarrow> bool" where
  "base_of b d \<longleftrightarrow> clean_dir d \<and> (b = d \<or> (b = ''./'' @ d \<and> \<not> HasPrefix d ''/''))"

lemma path_Clean_dot:
  assumes "\<not> HasPrefix s ''/''"
  shows "path_Clean (''./'' @ s) = path_Clean s"
proof -
  have "parts (''./'' @ s) = ''.'' # parts s" using Split_append[of "''.''" _ s] by simp
  moreover have "\<not> HasPrefix (''./'' @ s) ''/''" by (simp add: HasPrefix_def)
  ultimately show ?thesis using assms unfolding path_Clean_def Let_def by (simp add: clean_part_def)
qed

lemma path_Clean_base:
  assumes "base_of b d" "\<forall>k \<in> set ks. plain k"
  shows "path_Clean (below b ks) = below d ks" "path_Clean (below b ks @ ''/'') = below d ks"
proof -
  have cd: "clean_dir d" and cb: "clean_dir (below d ks)"
    using assms by (auto simp: base_of_def intro: clean_dir_below)
  have 1: "path_Clean (below d ks) = below d ks" using cb by (simp add: clean_dir_def)
  have 2: "path_Clean (below d ks @ ''/'') = below d ks"
    using path_Join_below[OF cb, of "[]"] clean_dir_facts(1)[OF cb] by (simp add: path_Join_def kept_def)
  note ne = clean_dir_facts(1)[OF cd]
  have "path_Clean (below b ks) = below d ks \<and> path_Clean (below b ks @ ''/'') = below d ks"
  proof (cases "b = d")
    case False
    then have b: "b = ''./'' @ d" "\<not> HasPrefix d ''/''" using assms(1) by (auto simp: base_of_def)
    then have "\<not> HasPrefix (below d ks) ''/''" "\<not> HasPrefix (below d ks @ ''/'') ''/''"
      using ne by (simp_all add: below_def)
    then show ?thesis
      using path_Clean_dot[of "below d ks"] path_Clean_dot[of "below d ks @ ''/''"] 1 2 b(1) by (simp add: below_def)
  qed (use 1 2 in simp)
  then show "path_Clean (below b ks) = below d ks" "path_Clean (below b ks @ ''/'') = below d ks" by simp_all
qed

lemma path_Dir_base:
  assumes "base_of b d" "\<forall>k \<in> set ks. plain k" "plain k"
  shows "path_Dir (below b (ks @ [k])) = below d ks"
proof -
  have "take (length (below b (ks @ [k])) - length (after_last (CHR ''/'') (below b (ks @ [k])))) (below b (ks @ [k]))
      = below b ks @ ''/''"
    using assms(3) by (simp add: below_snoc after_last_append plain_no_slash)
  then show ?thesis using path_Clean_base(2)[OF assms(1,2)] by (simp add: path_Dir_def)
qed

lemma base_of_clean [simp]: "clean_dir d \<Longrightarrow> base_of d d"
  by (simp add: base_of_def)

lemma plain_itoa [simp]: "plain (itoa n)"
proof -
  have c: "x \<noteq> CHR ''/'' \<and> x \<noteq> CHR ''.''" if "x \<in> set (itoa n)" for x
  proof -
    have "x = CHR ''-'' \<or> is_digit x"
      using that digit_char_props(1) by (auto simp: itoa_def split: if_splits dest!: nat_digits_chars)
    then show ?thesis by (auto simp: is_digit_def)
  qed
  then have "CHR ''/'' \<notin> set (itoa n)" "CHR ''.'' \<notin> set (itoa n)" by blast+
  then show ?thesis by (auto simp: plain_def kept_def)
qed

end
