(* ===== verification/Archive.thy ===== *)
theory Archive
  imports Paths
begin

text \<open>
  Action archives: \<^verbatim>\<open>src/openwhisk/zip.go\<close> and \<^verbatim>\<open>tar.go\<close>.

  An archive is given with what the reader of the standard library finds in it: the list of its
  entries, or the failure to open it. The operating system is seen at its interface: an operation
  appends the calls it makes to a trace, and the outcome of a call (\<open>None\<close>, or the text of the
  error) is a function of the call and of the calls before it. Files are closed when they are no
  longer used, which leaves no trace. A path is a text; what a symbolic link on it does is decided by the kernel.

  \<^verbatim>\<open>Zip\<close> reads a tree of nodes, in the order of \<^verbatim>\<open>filepath.Walk\<close>.
\<close>

section \<open>The operating system's interface\<close>

datatype os_call =
    OsMkdirAll string int
  | OsSymlink string string
  | OsOpenFile string bool int
  | OsCopy string string
  | OsStat string
  | OsWriteFile string string int

text \<open>\<^verbatim>\<open>OsOpenFile\<close> carries the path, whether \<^verbatim>\<open>O_TRUNC\<close> is given, and the mode;
  \<^verbatim>\<open>OsSymlink\<close> the target, then the path of the link.\<close>

fun call_path :: "os_call \<Rightarrow> string" where
  "call_path (OsMkdirAll p _) = p"
| "call_path (OsSymlink _ p) = p"
| "call_path (OsOpenFile p _ _) = p"
| "call_path (OsCopy p _) = p"
| "call_path (OsStat p) = p"
| "call_path (OsWriteFile p _ _) = p"

type_synonym os = "os_call list \<Rightarrow> os_call \<Rightarrow> string option"
type_synonym os_result = "string option \<times> os_call list"

definition call :: "os \<Rightarrow> os_call \<Rightarrow> os_call list \<Rightarrow> os_result" where
  "call os c tr = (os tr c, tr @ [c])"

definition and_then :: "os_result \<Rightarrow> (os_call list \<Rightarrow> os_result) \<Rightarrow> os_result" where
  "and_then r k = (case r of (None, tr) \<Rightarrow> k tr | (Some e, tr) \<Rightarrow> (Some e, tr))"

section \<open>zip.go: unpacking\<close>

text \<open>An entry: its name, the symbolic link and directory bits of its attributes, its
  permissions, the error of opening it, the bytes read from it, and the error that ends the
  reading, if any.\<close>

record zip_file =
  zf_Name :: string
  zf_link :: bool
  zf_dirbit :: bool
  zf_perm :: int
  zf_open :: "string option"
  zf_content :: string
  zf_read :: "string option"

definition zf_IsDir :: "zip_file \<Rightarrow> bool" where
  "zf_IsDir f \<longleftrightarrow> zf_dirbit f \<or> (zf_Name f \<noteq> [] \<and> last (zf_Name f) = CHR ''/'')"

definition extractAndWriteFile :: "os \<Rightarrow> string \<Rightarrow> zip_file \<Rightarrow> os_call list \<Rightarrow> os_result" where
  "extractAndWriteFile os dest f tr =
     (let path = path_Join [dest, zf_Name f] in
      if zf_IsDir f \<and> \<not> zf_link f then call os (OsMkdirAll path (zf_perm f)) tr
      else case zf_open f of
        Some e \<Rightarrow> (Some e, tr)
      | None \<Rightarrow>
          if zf_link f then
            (case zf_read f of
               Some e \<Rightarrow> (Some e, tr)
             | None \<Rightarrow> call os (OsSymlink (zf_content f) path) tr)
          else and_then (call os (OsMkdirAll (path_Dir path) 493) tr) (\<lambda>tr1.
               and_then (call os (OsOpenFile path True (zf_perm f)) tr1) (\<lambda>tr2.
               and_then (call os (OsCopy path (zf_content f)) tr2) (\<lambda>tr3. (zf_read f, tr3)))))"

text \<open>The errors are logged, and the next entry is extracted.\<close>

fun unzip_loop :: "os \<Rightarrow> string \<Rightarrow> zip_file list \<Rightarrow> os_call list \<Rightarrow> string list \<times> os_call list" where
  "unzip_loop os dest [] tr = ([], tr)"
| "unzip_loop os dest (f # fs) tr =
     (case extractAndWriteFile os dest f tr of (e, tr1) \<Rightarrow>
      case unzip_loop os dest fs tr1 of (logged, tr2) \<Rightarrow>
        ((case e of None \<Rightarrow> logged | Some t \<Rightarrow> t # logged), tr2))"

text \<open>The result of an unpacking: its error, what it logged, and the trace; \<open>None\<close> is the nil
  reader of a malformed archive dereferenced.\<close>

type_synonym unzipped = "(string option \<times> string list \<times> os_call list) option"

definition Unzip :: "os \<Rightarrow> string \<Rightarrow> zip_file list option \<Rightarrow> os_call list \<Rightarrow> unzipped" where
  "Unzip os dest r tr = (case r of
       None \<Rightarrow> None
     | Some fs \<Rightarrow> Some (None, unzip_loop os dest fs (tr @ [OsMkdirAll dest 493])))"

definition UnzipOrSaveJar :: "os \<Rightarrow> string \<Rightarrow> zip_file list option \<Rightarrow> string \<Rightarrow> string \<Rightarrow> os_call list \<Rightarrow> unzipped" where
  "UnzipOrSaveJar os src r dest jarFile tr = (case r of
       None \<Rightarrow> Some (Some ''not a zip file'', [], tr)
     | Some fs \<Rightarrow>
         if \<exists>f \<in> set fs. zf_Name f = ''META-INF/MANIFEST.MF''
         then Some (None, [], tr @ [OsWriteFile jarFile src 420])
         else Unzip os dest r tr)"

section \<open>tar.go\<close>

datatype tar_type = TypeDir | TypeReg | TypeOther

record tar_header =
  th_Name :: string
  th_Typeflag :: tar_type
  th_Mode :: int
  th_content :: string
  th_read :: "string option"

text \<open>What \<^verbatim>\<open>Next\<close> returns; the end of the list is \<^verbatim>\<open>io.EOF\<close>.\<close>

datatype tar_next = NextHeader tar_header | NextNil | NextError string

definition untar_entry :: "os \<Rightarrow> string \<Rightarrow> tar_header \<Rightarrow> os_call list \<Rightarrow> os_result" where
  "untar_entry os dest hdr tr =
     (let target = path_Join [dest, th_Name hdr] in case th_Typeflag hdr of
        TypeDir \<Rightarrow>
          (case call os (OsStat target) tr of
             (None, tr1) \<Rightarrow> (None, tr1)
           | (Some _, tr1) \<Rightarrow> call os (OsMkdirAll target 493) tr1)
      | TypeReg \<Rightarrow>
          and_then (call os (OsOpenFile target False (th_Mode hdr)) tr) (\<lambda>tr1.
          and_then (call os (OsCopy target (th_content hdr)) tr1) (\<lambda>tr2. (th_read hdr, tr2)))
      | TypeOther \<Rightarrow> (None, tr))"

fun untar_loop :: "os \<Rightarrow> string \<Rightarrow> tar_next list \<Rightarrow> os_call list \<Rightarrow> os_result" where
  "untar_loop os dest [] tr = (None, tr)"
| "untar_loop os dest (NextError e # ns) tr = (Some e, tr)"
| "untar_loop os dest (NextNil # ns) tr = untar_loop os dest ns tr"
| "untar_loop os dest (NextHeader hdr # ns) tr =
     and_then (untar_entry os dest hdr tr) (untar_loop os dest ns)"

text \<open>The reader is the error of \<^verbatim>\<open>openTar\<close>, or the entries.\<close>

definition UnTar :: "os \<Rightarrow> string \<Rightarrow> string + tar_next list \<Rightarrow> os_call list \<Rightarrow> os_result" where
  "UnTar os dest r tr = (case r of
       Inl e \<Rightarrow> (Some e, tr)
     | Inr ns \<Rightarrow> untar_loop os dest ns (tr @ [OsMkdirAll dest 493]))"

section \<open>zip.go: packing\<close>

text \<open>What is found at a path: an error of \<^verbatim>\<open>Lstat\<close>; a regular file with its content or the
  error of reading it; a link; a directory whose names cannot be read; a directory; anything else.\<close>

datatype node =
    Missing string
  | Regular "string + string"
  | Link "string + string"
  | Unreadable string
  | Directory "(string \<times> node) list"
  | Special

text \<open>\<^verbatim>\<open>filepath.Walk\<close>: the calls of its callback, as long as the callback returns nil. The
  callback below returns nil on an error only at the root, where nothing follows.\<close>

fun walk :: "string \<Rightarrow> node \<Rightarrow> (string \<times> node) list" where
  "walk path (Directory kids) =
     (path, Directory kids) # concat (map (\<lambda>(name, n). walk (path_Join [path, name]) n) kids)"
| "walk path n = [(path, n)]"

fun node_error :: "node \<Rightarrow> string option" where
  "node_error (Missing e) = Some e"
| "node_error (Unreadable e) = Some e"
| "node_error _ = None"

definition zip_header :: "string \<Rightarrow> bool \<Rightarrow> string \<Rightarrow> zip_file" where
  "zip_header name link content = \<lparr>zf_Name = name, zf_link = link, zf_dirbit = False, zf_perm = 493,
     zf_open = None, zf_content = content, zf_read = None\<rparr>"

text \<open>\<^verbatim>\<open>CreateHeader\<close> refuses a name of more than 65535 bytes.\<close>

definition create_entry :: "string \<Rightarrow> bool \<Rightarrow> string + string \<Rightarrow> string + zip_file list" where
  "create_entry name link content =
     (if 65535 < int (length name) then Inl ''zip: FileHeader.Name too long''
      else case content of Inl e \<Rightarrow> Inl e | Inr c \<Rightarrow> Inr [zip_header name link c])"

definition zip_visit :: "string \<Rightarrow> string \<times> node \<Rightarrow> string + zip_file list" where
  "zip_visit dir ev = (case ev of (filePath, n) \<Rightarrow>
     let relPath = TrimPrefix filePath dir in
     if relPath = [] then Inr []
     else case node_error n of
       Some e \<Rightarrow> Inl e
     | None \<Rightarrow> (case n of
           Link t \<Rightarrow> create_entry (tl relPath) True t
         | Directory _ \<Rightarrow> create_entry (tl relPath @ ''/'') False (Inr [])
         | Regular c \<Rightarrow> create_entry (tl relPath) False c
         | _ \<Rightarrow> Inr []))"

fun zip_loop :: "string \<Rightarrow> (string \<times> node) list \<Rightarrow> string + zip_file list" where
  "zip_loop dir [] = Inr []"
| "zip_loop dir (ev # evs) = (case zip_visit dir ev of
       Inl e \<Rightarrow> Inl e
     | Inr fs \<Rightarrow> (case zip_loop dir evs of Inl e \<Rightarrow> Inl e | Inr gs \<Rightarrow> Inr (fs @ gs)))"

definition Zip :: "string \<Rightarrow> node \<Rightarrow> string + zip_file list" where
  "Zip dir tree = zip_loop (path_Clean dir) (walk (path_Clean dir) tree)"

section \<open>Specification\<close>

text \<open>The calls that rebuild a tree: the node named \<open>name\<close> in the directory \<open>d\<close>.\<close>

fun rebuild :: "string \<Rightarrow> string \<Rightarrow> node \<Rightarrow> os_call list" where
  "rebuild d name (Regular (Inr c)) =
     [OsMkdirAll d 493, OsOpenFile (below d [name]) True 493, OsCopy (below d [name]) c]"
| "rebuild d name (Link (Inr t)) = [OsSymlink t (below d [name])]"
| "rebuild d name (Directory kids) =
     OsMkdirAll (below d [name]) 493 # concat (map (\<lambda>(k, n). rebuild (below d [name]) k n) kids)"
| "rebuild d name _ = []"

text \<open>Every name in the tree is a file name.\<close>

fun named :: "node \<Rightarrow> bool" where
  "named (Directory kids) \<longleftrightarrow> (\<forall>(k, n) \<in> set kids. plain k \<and> named n)"
| "named _ \<longleftrightarrow> True"

text \<open>A name that stays below: no component \<^verbatim>\<open>..\<close>, and some component is kept.\<close>

definition safe_name :: "string \<Rightarrow> bool" where
  "safe_name n \<longleftrightarrow> ''..'' \<notin> set (parts n) \<and> filter kept (parts n) \<noteq> []"

section \<open>Traces\<close>

abbreviation works :: "os \<Rightarrow> bool" where
  "works os \<equiv> \<forall>tr c. os tr c = None"

lemma and_then_simps [simp]:
  "and_then (None, tr) k = k tr"
  "and_then (Some e, tr) k = (Some e, tr)"
  by (simp_all add: and_then_def)

text \<open>What the operations append to the trace stays within a set of calls closed under the
  steps: the induction behind every statement on where an archive writes.\<close>

definition adds :: "(os_call \<Rightarrow> bool) \<Rightarrow> os_call list \<Rightarrow> os_call list \<Rightarrow> bool" where
  "adds P tr tr' \<longleftrightarrow> (\<exists>new. tr' = tr @ new \<and> (\<forall>c \<in> set new. P c))"

lemma adds_refl [simp]: "adds P tr tr"
  by (simp add: adds_def)

lemma adds_trans: "adds P a b \<Longrightarrow> adds P b c \<Longrightarrow> adds P a c"
  by (auto simp: adds_def)

lemma adds_call [simp]: "adds P tr (snd (call os c tr)) \<longleftrightarrow> P c"
  by (auto simp: adds_def call_def)

lemma adds_and_then:
  "adds P tr (snd r) \<Longrightarrow> (\<And>tr'. adds P tr' (snd (k tr'))) \<Longrightarrow> adds P tr (snd (and_then r k))"
  by (cases r rule: prod.exhaust[case_product option.exhaust]) (auto simp: and_then_def intro: adds_trans split: option.splits)

abbreviation within :: "string \<Rightarrow> os_call \<Rightarrow> bool" where
  "within d c \<equiv> inside d (call_path c)"

lemma safe_path:
  assumes "clean_dir d" "safe_name n"
  shows "inside d (path_Join [d, n])" "inside d (path_Dir (path_Join [d, n]))"
proof -
  have j: "path_Join [d, n] = below d (filter kept (parts n))"
    using path_Join_below[OF assms(1)] assms(2) by (simp add: safe_name_def)
  then show "inside d (path_Join [d, n])" by simp
  obtain ks k where k: "filter kept (parts n) = ks @ [k]"
    using assms(2) by (metis safe_name_def rev_exhaust)
  have "plain x" if "x \<in> set (ks @ [k])" for x
    using that assms(2) Split_parts_no_sep unfolding k[symmetric]
    by (auto simp: plain_def safe_name_def)
  then have "path_Dir (path_Join [d, n]) = below d ks"
    unfolding j k by (intro path_Dir_below assms(1)) auto
  then show "inside d (path_Dir (path_Join [d, n]))" by simp
qed

lemma extract_within:
  assumes "clean_dir d" "safe_name (zf_Name f)"
  shows "adds (within d) tr (snd (extractAndWriteFile os d f tr))"
  using safe_path[OF assms]
  by (auto simp: extractAndWriteFile_def Let_def intro!: adds_and_then split: option.splits)

lemma unzip_loop_within:
  assumes "clean_dir d"
  shows "\<forall>f \<in> set fs. safe_name (zf_Name f) \<Longrightarrow> adds (within d) tr (snd (unzip_loop os d fs tr))"
proof (induction fs arbitrary: tr)
  case (Cons f fs)
  then have "adds (within d) tr (snd (extractAndWriteFile os d f tr))" by (simp add: extract_within assms)
  with Cons show ?case by (auto split: prod.splits intro: adds_trans dest: spec) (metis adds_trans snd_conv)
qed simp

lemma untar_loop_within:
  assumes "clean_dir d"
  shows "\<forall>hdr. NextHeader hdr \<in> set ns \<longrightarrow> safe_name (th_Name hdr) \<Longrightarrow> adds (within d) tr (snd (untar_loop os d ns tr))"
proof (induction ns arbitrary: tr rule: list.induct)
  case (Cons x ns)
  show ?case
  proof (cases x)
    case (NextHeader hdr)
    with Cons.prems have "inside d (path_Join [d, th_Name hdr])" by (auto intro: safe_path assms)
    then have "adds (within d) tr (snd (untar_entry os d hdr tr))"
      by (cases "th_Typeflag hdr")
        (auto simp: untar_entry_def Let_def call_def[of os "OsStat _"] intro: adds_trans[OF _ adds_call[THEN iffD2]]
           intro!: adds_and_then split: option.splits simp: adds_def[of _ _ "_ @ _"])
    with Cons NextHeader show ?thesis by (auto intro!: adds_and_then)
  qed (use Cons in auto)
qed simp

section \<open>Packing, then unpacking\<close>

lemma zip_loop_append:
  "zip_loop dir (xs @ ys) = (case zip_loop dir xs of
       Inl e \<Rightarrow> Inl e
     | Inr as \<Rightarrow> (case zip_loop dir ys of Inl e \<Rightarrow> Inl e | Inr bs \<Rightarrow> Inr (as @ bs)))"
  by (induction xs) (auto split: sum.splits)

lemma unzip_loop_append:
  "unzip_loop os dest as tr = ([], tr1) \<Longrightarrow> unzip_loop os dest bs tr1 = ([], tr2)
   \<Longrightarrow> unzip_loop os dest (as @ bs) tr = ([], tr2)"
  by (induction "as" arbitrary: tr) (auto split: prod.splits option.splits)

lemma relative_path:
  assumes "ks \<noteq> []"
  shows "TrimPrefix (below dir ks) dir \<noteq> []" "tl (TrimPrefix (below dir ks) dir) = join_with ''/'' ks"
  using assms by (cases ks; simp add: below_def join_with_Cons)+

lemma create_entry_Inr:
  "create_entry name link content = Inr es \<longleftrightarrow> int (length name) \<le> 65535 \<and> (\<exists>c. content = Inr c \<and> es = [zip_header name link c])"
  by (auto simp: create_entry_def split: sum.splits)

lemma last_join_plain:
  assumes "\<forall>k \<in> set ks. plain k" "ks \<noteq> []"
  shows "last (join_with ''/'' ks) \<noteq> CHR ''/''"
proof -
  obtain ls k where k: "ks = ls @ [k]" using assms(2) by (metis rev_exhaust)
  have "k \<noteq> []" "CHR ''/'' \<notin> set k" using assms(1) k by (auto simp: plain_def kept_def)
  then have "last k \<noteq> CHR ''/''" using last_in_set by metis
  moreover have "join_with ''/'' ks = k \<or> (\<exists>s. join_with ''/'' ks = s @ CHR ''/'' # k)"
    by (cases ls) (auto simp: k join_with_Cons below_snoc)
  ultimately show ?thesis using \<open>k \<noteq> []\<close> by auto
qed

text \<open>Extracting an entry the packing made, when no call fails.\<close>

lemma extract_zip_header:
  assumes "clean_dir dest" "\<forall>k \<in> set (ks @ [k]). plain k" "works os"
  shows "extractAndWriteFile os dest (zip_header (join_with ''/'' (ks @ [k])) True c) tr
      = (None, tr @ [OsSymlink c (below dest (ks @ [k]))])" (is ?link)
    "extractAndWriteFile os dest (zip_header (join_with ''/'' (ks @ [k])) False c) tr
      = (None, tr @ [OsMkdirAll (below dest ks) 493, OsOpenFile (below dest (ks @ [k])) True 493, OsCopy (below dest (ks @ [k])) c])" (is ?reg)
    "extractAndWriteFile os dest (zip_header (join_with ''/'' (ks @ [k]) @ ''/'') False c) tr
      = (None, tr @ [OsMkdirAll (below dest (ks @ [k])) 493])" (is ?dir)
proof -
  have j: "path_Join [dest, join_with ''/'' (ks @ [k])] = below dest (ks @ [k])"
    "path_Join [dest, join_with ''/'' (ks @ [k]) @ ''/''] = below dest (ks @ [k])"
    using path_Join_plain[OF assms(1,2)] by simp_all
  have d: "path_Dir (below dest (ks @ [k])) = below dest ks"
    using assms(2) by (intro path_Dir_below assms(1)) auto
  have l: "last (join_with ''/'' (ks @ [k])) \<noteq> CHR ''/''" using last_join_plain[OF assms(2)] by simp
  show ?link ?reg ?dir
    using assms(3) l by (simp_all add: extractAndWriteFile_def zip_header_def zf_IsDir_def call_def j d Let_def)
qed

lemma zip_node_roundtrip:
  assumes "clean_dir dir" "clean_dir dest" "works os"
  shows "zip_loop dir (walk (below dir (ks @ [k])) n) = Inr es \<Longrightarrow> named n \<Longrightarrow> \<forall>x \<in> set (ks @ [k]). plain x
    \<Longrightarrow> unzip_loop os dest es tr = ([], tr @ rebuild (below dest ks) k n)"
proof (induction n arbitrary: ks k es tr)
  case (Directory kids)
  let ?p = "ks @ [k]"
  have pd: "clean_dir (below dir ?p)" using clean_dir_below[OF assms(1) Directory.prems(3)] .
  have child: "unzip_loop os dest gs tr = ([], tr @ concat (map (\<lambda>(j, n). rebuild (below dest ?p) j n) ms))"
    if "zip_loop dir (concat (map (\<lambda>(j, n). walk (path_Join [below dir ?p, j]) n) ms)) = Inr gs" "set ms \<subseteq> set kids"
    for ms gs tr
    using that
  proof (induction ms arbitrary: gs tr)
    case (Cons m ms)
    obtain j n where m: "m = (j, n)" by (cases m)
    have pl: "plain j" "named n" using Cons.prems(2) Directory.prems(2) m by auto
    have pj: "path_Join [below dir ?p, j] = below dir (?p @ [j])"
      using path_Join_plain(1)[OF pd, of "[j]"] pl by simp
    obtain as bs where ab: "zip_loop dir (walk (below dir (?p @ [j])) n) = Inr as" "gs = as @ bs"
      "zip_loop dir (concat (map (\<lambda>(j, n). walk (path_Join [below dir ?p, j]) n) ms)) = Inr bs"
      using Cons.prems(1) by (auto simp: m pj zip_loop_append split: sum.splits)
    have "unzip_loop os dest as tr = ([], tr @ rebuild (below dest ?p) j n)"
      by (rule Directory.IH[of m n, OF _ _ ab(1)]) (use Cons.prems(2) m pl Directory.prems(3) in auto)
    from unzip_loop_append[OF this Cons.IH[OF ab(3)]] Cons.prems(2) show ?case by (simp add: m ab(2))
  qed simp
  obtain gs where gs: "es = zip_header (join_with ''/'' ?p @ ''/'') False [] # gs"
    "zip_loop dir (concat (map (\<lambda>(j, n). walk (path_Join [below dir ?p, j]) n) kids)) = Inr gs"
    using Directory.prems(1)
    by (auto simp: zip_visit_def relative_path[of ?p] create_entry_Inr split: sum.splits if_splits)
  show ?case
    using child[OF gs(2)] extract_zip_header(3)[OF assms(2) Directory.prems(3) assms(3)] by (simp add: gs(1))
qed (use extract_zip_header[OF assms(2) _ assms(3)] in
      \<open>auto simp: zip_visit_def relative_path create_entry_Inr split: sum.splits if_splits\<close>)

section \<open>Failures\<close>

text \<open>Every call of a continuation succeeded, probes left out.\<close>

fun is_stat :: "os_call \<Rightarrow> bool" where
  "is_stat (OsStat _) \<longleftrightarrow> True"
| "is_stat _ \<longleftrightarrow> False"

fun succeeded :: "os \<Rightarrow> os_call list \<Rightarrow> os_call list \<Rightarrow> bool" where
  "succeeded os tr [] \<longleftrightarrow> True"
| "succeeded os tr (c # cs) \<longleftrightarrow> (is_stat c \<or> os tr c = None) \<and> succeeded os (tr @ [c]) cs"

lemma succeeded_append: "succeeded os tr (as @ bs) \<longleftrightarrow> succeeded os tr as \<and> succeeded os (tr @ as) bs"
  by (induction "as" arbitrary: tr) auto

definition went_on :: "os \<Rightarrow> os_call list \<Rightarrow> os_call list \<Rightarrow> bool" where
  "went_on os tr tr' \<longleftrightarrow> (\<exists>new. tr' = tr @ new \<and> succeeded os tr new)"

lemma went_on_refl [simp]: "went_on os tr tr"
  by (simp add: went_on_def)

lemma went_on_append [simp]: "went_on os tr (tr @ new) \<longleftrightarrow> succeeded os tr new"
  by (simp add: went_on_def)

lemma went_on_trans: "went_on os a b \<Longrightarrow> went_on os b c \<Longrightarrow> went_on os a c"
  by (auto simp: went_on_def succeeded_append)

lemma and_then_None: "and_then r k = (None, tr') \<longleftrightarrow> (\<exists>tr. r = (None, tr) \<and> k tr = (None, tr'))"
  by (auto simp: and_then_def split: prod.splits option.splits)

lemma call_eq: "call os c tr = (None, tr') \<longleftrightarrow> os tr c = None \<and> tr' = tr @ [c]"
  by (auto simp: call_def)

lemma extract_went_on: "extractAndWriteFile os d f tr = (None, tr') \<Longrightarrow> went_on os tr tr'"
  by (auto simp: extractAndWriteFile_def Let_def and_then_None call_eq split: if_splits option.splits)

lemma unzip_loop_went_on: "unzip_loop os d fs tr = ([], tr') \<Longrightarrow> went_on os tr tr'"
  by (induction fs arbitrary: tr) (auto split: prod.splits option.splits dest!: extract_went_on intro: went_on_trans)

lemma untar_entry_went_on: "untar_entry os d hdr tr = (None, tr') \<Longrightarrow> went_on os tr tr'"
  by (auto simp: untar_entry_def Let_def and_then_None call_eq call_def[of os "OsStat _"] split: tar_type.splits option.splits)

lemma untar_loop_went_on: "untar_loop os d ns tr = (None, tr') \<Longrightarrow> went_on os tr tr'"
proof (induction os d ns tr rule: untar_loop.induct)
  case (4 os dest hdr ns tr)
  then show ?case by (auto simp: and_then_None dest!: untar_entry_went_on intro: went_on_trans)
qed auto

section \<open>Properties\<close>

text \<open>C27: unpacking writes below the destination as far as the texts of the paths go: when no name
  of the archive has a component \<^verbatim>\<open>..\<close> (and each has a component at all), every call that
  \<^verbatim>\<open>Unzip\<close> and \<^verbatim>\<open>UnTar\<close> make names the destination or a path below it, whatever the
  operating system answers; an absolute name is no exception.\<close>

theorem archives_stay_inside:
  assumes "clean_dir dest"
    and "\<forall>f \<in> set fs. safe_name (zf_Name f)"
    and "\<forall>hdr. NextHeader hdr \<in> set ns \<longrightarrow> safe_name (th_Name hdr)"
    and "Unzip os dest (Some fs) [] = Some (e, logged, tr)"
    and "UnTar os dest (Inr ns) [] = (e', tr')"
  shows "\<forall>c \<in> set tr \<union> set tr'. inside dest (call_path c)"
proof -
  have "adds (within dest) [] [OsMkdirAll dest 493]" by (simp add: adds_def inside_def)
  moreover have "adds (within dest) [OsMkdirAll dest 493] tr" "adds (within dest) [OsMkdirAll dest 493] tr'"
    using unzip_loop_within[OF assms(1,2), of "[OsMkdirAll dest 493]" os]
      untar_loop_within[OF assms(1,3), of "[OsMkdirAll dest 493]" os] assms(4,5)
    by (simp_all add: Unzip_def UnTar_def)
  ultimately have "adds (within dest) [] tr" "adds (within dest) [] tr'" by (blast intro: adds_trans)+
  then show ?thesis by (auto simp: adds_def)
qed

text \<open>Nothing but the archive keeps it there. A file entry named \<^verbatim>\<open>../n\<close>, unpacked into the
  directory \<open>b\<close> of \<open>d\<close>, creates and writes \<open>n\<close> in \<open>d\<close>, outside the destination, and no error
  is reported.\<close>

theorem zip_entry_escapes:
  assumes "clean_dir d" "plain b" "plain n" "n \<noteq> b" "\<forall>tr c. os tr c = None"
  shows "Unzip os (below d [b]) (Some [zip_header (''../'' @ n) False content]) [] =
       Some (None, [], [OsMkdirAll (below d [b]) 493, OsMkdirAll d 493,
         OsOpenFile (below d [n]) True 493, OsCopy (below d [n]) content])
     \<and> \<not> inside (below d [b]) (below d [n])"
proof -
  have j: "path_Join [below d [b], CHR ''.'' # CHR ''.'' # CHR ''/'' # n] = below d [n]"
    using path_Join_parent[OF assms(1,2), of n] path_Join_plain(1)[OF assms(1), of "[n]"] assms(3) by simp
  have dr: "path_Dir (below d [n]) = d"
    using path_Dir_below[OF assms(1), of "[]" n] assms(3) by simp
  have n: "n \<noteq> []" "CHR ''/'' \<notin> set n" using assms(3) by (auto simp: plain_def kept_def)
  then have "last n \<noteq> CHR ''/''" using last_in_set by metis
  moreover have "\<not> inside (below d [b]) (below d [n])"
  proof
    assume "inside (below d [b]) (below d [n])"
    then have "n = b \<or> (\<exists>s. n = b @ CHR ''/'' # s)"
      by (auto simp: inside_def below_def HasPrefix_iff prefix_def)
    with assms(4) n show False by auto
  qed
  ultimately show ?thesis
    using n assms(5) by (simp add: Unzip_def extractAndWriteFile_def zip_header_def zf_IsDir_def call_def j dr Let_def)
qed

text \<open>C24: packing a directory and unpacking the archive elsewhere rebuilds the tree, node by node: if
  \<^verbatim>\<open>Zip\<close> succeeds and no call fails, \<^verbatim>\<open>Unzip\<close> makes exactly the calls that create the
  directories, the files with their content and the links with their target, in the order of the
  walk, below the destination.\<close>

theorem zip_then_unzip_rebuilds:
  assumes "path_Clean dir = dir'" "clean_dir dir'" "clean_dir dest" "\<forall>tr c. os tr c = None"
    and "named (Directory kids)" "Zip dir (Directory kids) = Inr es"
  shows "Unzip os dest (Some es) tr = Some (None, [],
       tr @ OsMkdirAll dest 493 # concat (map (\<lambda>(k, n). rebuild dest k n) kids))"
proof -
  have "unzip_loop os dest gs tr = ([], tr @ concat (map (\<lambda>(k, n). rebuild dest k n) ms))"
    if "zip_loop dir' (concat (map (\<lambda>(k, n). walk (path_Join [dir', k]) n) ms)) = Inr gs" "set ms \<subseteq> set kids" for ms gs tr
    using that
  proof (induction ms arbitrary: gs tr)
    case (Cons m ms)
    obtain k n where m: "m = (k, n)" by (cases m)
    have pl: "plain k" "named n" using Cons.prems(2) assms(5) m by auto
    then have pj: "path_Join [dir', k] = below dir' ([] @ [k])"
      using path_Join_plain(1)[OF assms(2), of "[k]"] by simp
    obtain as bs where ab: "zip_loop dir' (walk (below dir' ([] @ [k])) n) = Inr as" "gs = as @ bs"
      "zip_loop dir' (concat (map (\<lambda>(j, n). walk (path_Join [dir', j]) n) ms)) = Inr bs"
      using Cons.prems(1) unfolding m pj by (auto simp: pj zip_loop_append split: sum.splits)
    have "unzip_loop os dest as tr = ([], tr @ rebuild dest k n)"
      using zip_node_roundtrip[OF assms(2,3,4) ab(1)] pl by simp
    from unzip_loop_append[OF this Cons.IH[OF ab(3)]] Cons.prems(2) show ?case by (simp add: m ab(2))
  qed simp
  moreover have "zip_loop dir' (concat (map (\<lambda>(k, n). walk (path_Join [dir', k]) n) kids)) = Inr es"
    using assms(6) by (auto simp: Zip_def assms(1) zip_visit_def TrimPrefix_def HasPrefix_def split: sum.splits)
  ultimately show ?thesis by (simp add: Unzip_def)
qed

text \<open>An unpacking that reports nothing did all it set out to do: when \<^verbatim>\<open>Unzip\<close> logs nothing,
  or \<^verbatim>\<open>UnTar\<close> returns nil, every call it made after the creation of the destination (whose
  outcome is ignored) succeeded, apart from the probes for an existing directory.\<close>

theorem silent_unpacking_succeeded:
  assumes "Unzip os dest (Some fs) [] = Some (e, [], tr)" "UnTar os dest (Inr ns) [] = (None, tr')"
  shows "succeeded os (take 1 tr) (drop 1 tr) \<and> succeeded os (take 1 tr') (drop 1 tr')"
proof -
  have "went_on os [OsMkdirAll dest 493] tr" "went_on os [OsMkdirAll dest 493] tr'"
    using assms unzip_loop_went_on untar_loop_went_on by (auto simp: Unzip_def UnTar_def)
  then show ?thesis by (auto simp: went_on_def)
qed

section \<open>Concrete archives\<close>

definition probed :: os where
  "probed tr c = (if is_stat c then Some ''no such file'' else None)"

definition agreeable :: os where
  "agreeable tr c = None"

definition action_tree :: node where
  "action_tree = Directory [(''bin'', Directory [(''exec'', Regular (Inr ''code''))]),
     (''lib'', Link (Inr ''/usr/lib'')), (''pipe'', Special)]"

definition tar_archive :: "tar_next list" where
  "tar_archive = [NextHeader \<lparr>th_Name = ''/bin/'', th_Typeflag = TypeDir, th_Mode = 493, th_content = [], th_read = None\<rparr>,
     NextNil, NextHeader \<lparr>th_Name = ''./bin//exec'', th_Typeflag = TypeReg, th_Mode = 493, th_content = ''code'', th_read = None\<rparr>]"

lemma source_dir: "clean_dir ''action/1/src''" "clean_dir ''action/1''" "plain ''src''" "plain ''exec''"
  by code_simp+

lemma tar_names: "NextHeader hdr \<in> set tar_archive \<Longrightarrow> safe_name (th_Name hdr)"
proof -
  have "safe_name ''/bin/''" "safe_name ''./bin//exec''" by code_simp+
  then show "NextHeader hdr \<in> set tar_archive \<Longrightarrow> safe_name (th_Name hdr)" by (auto simp: tar_archive_def)
qed

abbreviation zip_archive :: "zip_file list" where
  "zip_archive \<equiv> [zip_header ''a/b'' False ''x'', zip_header ''/etc/c'' False ''y'']"

theorem archives_stay_inside_witness:
  "length (snd (snd (the (Unzip probed ''action/1/src'' (Some zip_archive) [])))) = 7
   \<and> length (snd (UnTar probed ''action/1/src'' (Inr tar_archive) [])) = 5
   \<and> list_all (\<lambda>c. inside ''action/1/src'' (call_path c))
       (snd (snd (the (Unzip probed ''action/1/src'' (Some zip_archive) []))) @
        snd (UnTar probed ''action/1/src'' (Inr tar_archive) []))"
proof -
  have n: "\<forall>f \<in> set zip_archive. safe_name (zf_Name f)" by code_simp
  obtain e l tr where z: "Unzip probed ''action/1/src'' (Some zip_archive) [] = Some (e, l, tr)"
    by (cases "unzip_loop probed ''action/1/src'' zip_archive [OsMkdirAll ''action/1/src'' 493]") (simp add: Unzip_def del: unzip_loop.simps)
  obtain e' tr' where t: "UnTar probed ''action/1/src'' (Inr tar_archive) [] = (e', tr')" by (cases "UnTar probed ''action/1/src'' (Inr tar_archive) []")
  have "length (snd (snd (the (Unzip probed ''action/1/src'' (Some zip_archive) [])))) = 7"
    "length (snd (UnTar probed ''action/1/src'' (Inr tar_archive) [])) = 5" by code_simp+
  with archives_stay_inside[OF source_dir(1) n _ z t] tar_names show ?thesis
    unfolding z t by (auto simp: list_all_iff)
qed

theorem zip_entry_escapes_witness:
  "Unzip agreeable ''action/1/src'' (Some [zip_header ''../exec'' False ''x'']) [] =
     Some (None, [], [OsMkdirAll ''action/1/src'' 493, OsMkdirAll ''action/1'' 493,
       OsOpenFile ''action/1/exec'' True 493, OsCopy ''action/1/exec'' ''x''])"
  using zip_entry_escapes[OF source_dir(2,3,4), of agreeable "''x''"]
  by (simp add: agreeable_def below_def)

theorem zip_then_unzip_rebuilds_witness:
  "\<exists>es. Zip ''action/1/bin/../src/'' action_tree = Inr es \<and> length es = 3
    \<and> Unzip agreeable ''out/x'' (Some es) [] = Some (None, [],
        [OsMkdirAll ''out/x'' 493, OsMkdirAll ''out/x/bin'' 493, OsMkdirAll ''out/x/bin'' 493,
         OsOpenFile ''out/x/bin/exec'' True 493, OsCopy ''out/x/bin/exec'' ''code'', OsSymlink ''/usr/lib'' ''out/x/lib''])"
proof -
  let ?es = "[zip_header ''bin/'' False [], zip_header ''bin/exec'' False ''code'', zip_header ''lib'' True ''/usr/lib'']"
  have z: "Zip ''action/1/bin/../src/'' action_tree = Inr ?es" by code_simp
  have c: "path_Clean ''action/1/bin/../src/'' = ''action/1/src''" "clean_dir ''out/x''" by code_simp+
  have "named action_tree" by code_simp
  then have "Unzip agreeable ''out/x'' (Some ?es) [] = Some (None, [],
      [] @ OsMkdirAll ''out/x'' 493 # concat (map (\<lambda>(k, n). rebuild ''out/x'' k n)
        [(''bin'', Directory [(''exec'', Regular (Inr ''code''))]), (''lib'', Link (Inr ''/usr/lib'')), (''pipe'', Special)]))"
    using z unfolding action_tree_def
    by (intro zip_then_unzip_rebuilds[OF c(1) source_dir(1) c(2)]) (simp_all add: agreeable_def)
  with z show ?thesis by (simp add: below_def)
qed

theorem silent_unpacking_succeeded_witness:
  "succeeded probed [OsMkdirAll ''action/1/src'' 493] (drop 1 (snd (UnTar probed ''action/1/src'' (Inr tar_archive) [])))"
proof -
  have z: "Unzip probed ''action/1/src'' (Some []) [] = Some (None, [], [OsMkdirAll ''action/1/src'' 493])" by code_simp
  have "fst (UnTar probed ''action/1/src'' (Inr tar_archive) []) = None" by code_simp
  then obtain tr' where t: "UnTar probed ''action/1/src'' (Inr tar_archive) [] = (None, tr')" by (metis prod.collapse)
  have "take 1 (snd (UnTar probed ''action/1/src'' (Inr tar_archive) [])) = [OsMkdirAll ''action/1/src'' 493]" by code_simp
  then have "take 1 tr' = [OsMkdirAll ''action/1/src'' 493]" by (simp only: t snd_conv)
  with silent_unpacking_succeeded[OF z t] show ?thesis by (simp add: t)
qed

end
