(* ===== verification/ActionFiles.thy ===== *)
theory ActionFiles
  imports Archive RunHandler
begin

text \<open>
  From the bytes of an action to an executable: \<^verbatim>\<open>src/openwhisk/filetype.go\<close>,
  \<^verbatim>\<open>extractor.go\<close>, \<^verbatim>\<open>compiler.go\<close>, and \<^verbatim>\<open>ExtractAndCompile\<close> of
  \<^verbatim>\<open>initHandler.go\<close>.

  The bytes of an archive come with what the readers of the standard library find in them, the
  operating system answers the calls as in \<^verbatim>\<open>Archive\<close>; what is read back from the disk (the names
  in the action directory, the content of the file, whether the binary exists) is given. \<open>None\<close>
  is a panic.
\<close>

section \<open>filetype.go\<close>

definition starts_with :: "char list \<Rightarrow> string \<Rightarrow> bool" where
  "starts_with magic buf \<longleftrightarrow> take (length magic) buf = magic"

definition IsElf :: "string \<Rightarrow> bool" where
  "IsElf buf \<longleftrightarrow> 52 < length buf \<and> starts_with [CHR 0x7F, CHR 0x45, CHR 0x4C, CHR 0x46] buf"

definition IsExe :: "string \<Rightarrow> bool" where
  "IsExe buf \<longleftrightarrow> 1 < length buf \<and> starts_with [CHR 0x4D, CHR 0x5A] buf"

definition IsMach64 :: "string \<Rightarrow> bool" where
  "IsMach64 buf \<longleftrightarrow> 4 < length buf \<and> starts_with [CHR 0xCF, CHR 0xFA, CHR 0xED, CHR 0xFE] buf"

definition IsBangPath :: "string \<Rightarrow> bool" where
  "IsBangPath buf \<longleftrightarrow> 2 < length buf \<and> starts_with [CHR ''#'', CHR ''!''] buf"

definition IsExecutable :: "string \<Rightarrow> string \<Rightarrow> bool" where
  "IsExecutable buf runtime =
     (if runtime = ''darwin'' then IsMach64 buf \<or> IsBangPath buf
      else if runtime = ''linux'' then IsElf buf \<or> IsBangPath buf
      else if runtime = ''windows'' then IsExe buf
      else False)"

definition IsZip :: "string \<Rightarrow> bool" where
  "IsZip buf \<longleftrightarrow> 3 < length buf \<and> starts_with [CHR 0x50, CHR 0x4B] buf \<and>
     buf ! 2 \<in> {CHR 0x03, CHR 0x05, CHR 0x07} \<and> buf ! 3 \<in> {CHR 0x04, CHR 0x06, CHR 0x08}"

definition IsGz :: "string \<Rightarrow> bool" where
  "IsGz buf \<longleftrightarrow> 3 < length buf \<and> starts_with [CHR 0x1F, CHR 0x8B, CHR 0x08] buf"

section \<open>extractor.go\<close>

text \<open>The names in the directory, or \<open>None\<close> when it cannot be read.\<close>

definition highestDir :: "string list option \<Rightarrow> int" where
  "highestDir listing = (case listing of
       None \<Rightarrow> 0
     | Some names \<Rightarrow> fold (\<lambda>name m. case ParseInt name of (n, None) \<Rightarrow> if m < n then n else m | _ \<Rightarrow> m) names 0)"

record archive_io =
  ar_os :: os
  ar_zip :: "zip_file list option"
  ar_tar :: "string + tar_next list"

definition action_dir :: "ActionProxy \<Rightarrow> int \<Rightarrow> string \<Rightarrow> string" where
  "action_dir ap n sub = ap_baseDir ap @ ''/'' @ itoa n @ ''/'' @ sub"

definition ExtractAction :: "host \<Rightarrow> archive_io \<Rightarrow> string \<Rightarrow> string \<Rightarrow> ActionProxy
    \<Rightarrow> ((string \<times> string option) \<times> os_call list \<times> ActionProxy) option" where
  "ExtractAction h ar buf sub ap =
     (if buf = [] then Some (([], Some ''no file''), [], ap)
      else let ap' = ap\<lparr>ap_currentDir := i64 (ap_currentDir ap + 1)\<rparr>;
               newDir = action_dir ap (ap_currentDir ap') sub;
               tr = [OsMkdirAll newDir 493];
               file = newDir @ ''/exec'';
               jar = getenv h ''OW_SAVE_JAR''
           in if IsZip buf then
                (if jar \<noteq> []
                 then map_option (\<lambda>(e, _, tr'). ((newDir @ ''/'' @ jar, e), tr', ap'))
                        (UnzipOrSaveJar (ar_os ar) buf (ar_zip ar) newDir (newDir @ ''/'' @ jar) tr)
                 else map_option (\<lambda>(e, _, tr'). ((file, e), tr', ap')) (Unzip (ar_os ar) newDir (ar_zip ar) tr))
              else if IsGz buf
              then (case UnTar (ar_os ar) newDir (ar_tar ar) tr of (e, tr') \<Rightarrow> Some ((file, e), tr', ap'))
              else (case call (ar_os ar) (OsWriteFile file buf 493) tr of (e, tr') \<Rightarrow> Some ((file, e), tr', ap')))"

section \<open>compiler.go\<close>

text \<open>The content of the file, \<open>None\<close> when it is missing or cannot be read.\<close>

definition isCompiled :: "string \<Rightarrow> string option \<Rightarrow> bool" where
  "isCompiled goos content = (case content of None \<Rightarrow> False | Some buf \<Rightarrow> IsExecutable buf goos)"

datatype disk_effect =
    Os os_call | OsRename string string | OsMkdir string
  | RunCompiler "string list" "string list"

text \<open>The outcome of the compiler: its combined output and its own error.\<close>

definition CompileAction :: "host \<Rightarrow> string \<times> string option \<Rightarrow> string \<Rightarrow> string \<Rightarrow> string \<Rightarrow> ActionProxy
    \<Rightarrow> string option \<times> disk_effect list" where
  "CompileAction h outcome main_name srcDir binDir ap =
     (if ap_compiler ap = [] then (Some ''No compiler defined'', [])
      else let fx = [RunCompiler [ap_compiler ap, main_name, srcDir, binDir]
             ((''PATH='' @ getenv h ''PATH'') # map (\<lambda>(k, v). k @ ''='' @ v) (ap_env ap))]
           in if fst outcome \<noteq> [] then (Some (fst outcome), fx) else (snd outcome, fx))"

section \<open>Extracting and compiling\<close>

record compile_io =
  co_archive :: archive_io
  co_goos :: string
  co_content :: "string option"
  co_compiler :: "string \<times> string option"
  co_exists :: bool

definition ExtractAndCompile :: "host \<Rightarrow> compile_io \<Rightarrow> string \<Rightarrow> string \<Rightarrow> ActionProxy
    \<Rightarrow> ((string + string) \<times> disk_effect list \<times> ActionProxy) option" where
  "ExtractAndCompile h io buf main_name ap =
     map_option (\<lambda>((file, failure), tr, ap'). case failure of
        Some err \<Rightarrow> (Inl err, map Os tr, ap')
      | None \<Rightarrow>
          if file = [] then (Inl ''empty filename'', map Os tr, ap')
          else let parent = path_Dir (path_Dir file);
                   srcDir = path_Join [parent, ''src'']; binDir = path_Join [parent, ''bin''];
                   binFile = path_Join [binDir, ''exec'']
               in if ap_compiler ap' = [] \<or> isCompiled (co_goos io) (co_content io)
                  then (Inr binFile, map Os tr @ [OsRename srcDir binDir], ap')
                  else (case CompileAction h (co_compiler io) main_name srcDir binDir ap' of
                      (Some err, cfx) \<Rightarrow> (Inl err, map Os tr @ OsMkdir binDir # cfx, ap')
                    | (None, cfx) \<Rightarrow>
                        (if co_exists io then Inr binFile else Inl ''cannot compile'', map Os tr @ OsMkdir binDir # cfx, ap')))
       (ExtractAction h (co_archive io) buf ''src'' ap)"

section \<open>Laws\<close>

text \<open>The kinds of a file exclude each other: an archive is never taken for an executable.\<close>

lemma file_kinds_exclusive:
  "IsZip buf \<Longrightarrow> \<not> IsGz buf \<and> \<not> IsElf buf \<and> \<not> IsBangPath buf"
  "IsGz buf \<Longrightarrow> \<not> IsElf buf \<and> \<not> IsBangPath buf"
  by (cases buf; auto simp: IsZip_def IsGz_def IsElf_def IsBangPath_def starts_with_def)+

text \<open>The highest number: a bound of the numbers among the names, and one of them unless it is 0.\<close>

lemma highestDir_bound:
  assumes "name \<in> set names" "ParseInt name = (n, None)"
  shows "n \<le> highestDir (Some names)"
proof -
  let ?f = "\<lambda>name m. case ParseInt name of (n, None) \<Rightarrow> if m < n then n else m | _ \<Rightarrow> m"
  have up: "m \<le> fold ?f ns m" for ns m
  proof (induction ns arbitrary: m)
    case (Cons x ns)
    have "m \<le> ?f x m" by (auto split: prod.splits option.splits)
    with Cons[of "?f x m"] show ?case by simp
  qed simp
  have "n \<le> fold ?f names m" for m
    using assms
  proof (induction names arbitrary: m)
    case (Cons x ns)
    then show ?case using up[of "?f x m" ns] by (cases "x = name") auto
  qed simp
  then show ?thesis by (simp add: highestDir_def)
qed

lemma highestDir_least:
  assumes "\<And>name n. name \<in> set names \<Longrightarrow> ParseInt name = (n, None) \<Longrightarrow> n \<le> b" "0 \<le> b"
  shows "highestDir (Some names) \<le> b"
proof -
  let ?f = "\<lambda>name m. case ParseInt name of (n, None) \<Rightarrow> if m < n then n else m | _ \<Rightarrow> m"
  have "m \<le> b \<Longrightarrow> fold ?f names m \<le> b" for m
    using assms(1)
  proof (induction names arbitrary: m)
    case (Cons x ns)
    have "?f x m \<le> b" using Cons.prems by (auto split: prod.splits option.splits)
    moreover have "name \<in> set ns \<Longrightarrow> ParseInt name = (n, None) \<Longrightarrow> n \<le> b" for name n using Cons.prems(2) by auto
    ultimately show ?case using Cons.IH by simp
  qed simp
  with assms(2) show ?thesis by (simp add: highestDir_def)
qed

text \<open>Where an action is extracted, and what \<^verbatim>\<open>ExtractAndCompile\<close> returns.\<close>

lemma action_dir_below: "action_dir ap n sub @ ''/'' @ f = below (ap_baseDir ap) [itoa n, sub, f]"
  by (simp add: action_dir_def below_def)

lemma ExtractAction_file:
  assumes "ExtractAction h ar buf sub ap = Some ((file, None), tr, ap')"
  shows "ap' = ap\<lparr>ap_currentDir := i64 (ap_currentDir ap + 1)\<rparr>"
    "\<exists>f. (f = ''exec'' \<or> f = getenv h ''OW_SAVE_JAR'' \<and> f \<noteq> []) \<and> file = below (ap_baseDir ap) [itoa (ap_currentDir ap'), sub, f]"
proof -
  note [simp] = action_dir_below
  show "ap' = ap\<lparr>ap_currentDir := i64 (ap_currentDir ap + 1)\<rparr>"
    using assms by (auto simp: ExtractAction_def Let_def split: if_splits prod.splits)
  show "\<exists>f. (f = ''exec'' \<or> f = getenv h ''OW_SAVE_JAR'' \<and> f \<noteq> []) \<and> file = below (ap_baseDir ap) [itoa (ap_currentDir ap'), sub, f]"
    using assms action_dir_below[of ap _ sub]
    by (auto simp: ExtractAction_def Let_def split: if_splits prod.splits)
qed

lemma ExtractAndCompile_file:
  assumes "ExtractAndCompile h io buf main_name ap = Some (Inr file, fx, ap')" "base_of (ap_baseDir ap) d"
    and "getenv h ''OW_SAVE_JAR'' = [] \<or> plain (getenv h ''OW_SAVE_JAR'')"
  shows "file = below d [itoa (ap_currentDir ap'), ''bin'', ''exec'']"
    "ap' = ap\<lparr>ap_currentDir := i64 (ap_currentDir ap + 1)\<rparr>"
proof -
  obtain src tr where e: "ExtractAction h (co_archive io) buf ''src'' ap = Some ((src, None), tr, ap')" "src \<noteq> []"
    and f: "file = path_Join [path_Join [path_Dir (path_Dir src), ''bin''], ''exec'']"
    using assms(1) by (auto simp: ExtractAndCompile_def Let_def split: option.splits if_splits prod.splits)
  show "ap' = ap\<lparr>ap_currentDir := i64 (ap_currentDir ap + 1)\<rparr>" using ExtractAction_file(1)[OF e(1)] .
  let ?n = "itoa (ap_currentDir ap')"
  have p: "plain ''src''" "plain ''bin''" "plain ''exec''" by code_simp+
  obtain x where x: "x = ''exec'' \<or> x = getenv h ''OW_SAVE_JAR'' \<and> x \<noteq> []" "src = below (ap_baseDir ap) ([?n, ''src''] @ [x])"
    using ExtractAction_file(2)[OF e(1)] by auto
  have px: "plain x" using x(1) p(3) assms(3) by auto
  have cd: "clean_dir d" using assms(2) by (simp add: base_of_def)
  then have cn: "clean_dir (below d [?n])" by (intro clean_dir_below) auto
  have "path_Dir src = below d ([?n] @ [''src''])" unfolding x(2) using path_Dir_base[OF assms(2), of "[?n, ''src'']" x] p px by simp
  moreover have "path_Dir (below d ([?n] @ [''src''])) = below d [?n]" using path_Dir_below[OF cd, of "[?n]" "''src''"] p by simp
  moreover have "path_Join [below d [?n], ''bin''] = below d [?n, ''bin'']"
    using path_Join_plain(1)[OF cn, of "[''bin'']"] p by simp
  moreover have "path_Join [below d [?n, ''bin''], ''exec''] = below d [?n, ''bin'', ''exec'']"
    using path_Join_plain(1)[OF clean_dir_below[OF cd, of "[?n, ''bin'']"], of "[''exec'']"] p by simp
  ultimately show "file = below d [?n, ''bin'', ''exec'']" using f by simp
qed

end
