(* ===== verification/InitHandler.thy ===== *)
theory InitHandler
  imports ActionFiles
begin

text \<open>
  The proxy as a server: \<^verbatim>\<open>src/openwhisk/actionProxy.go\<close> (creation, environment, start of the
  latest action, dispatch, use as a compiler) and \<^verbatim>\<open>initHandler.go\<close>.

  The effects of a request are listed in the order in which they complete. \<open>None\<close> is a request
  that panics (a nil executor, a malformed archive, an environment entry without an equals sign)
  or never returns. One request is served at a time, as the invoker sends them.
\<close>

section \<open>Effects\<close>

datatype init_effect =
    Disk disk_effect | Chmod string | RemoveAll string | StoppedOld "cg_effect list"
  | LoggedError string | InitAnswer http_out | InitMetric metric_effect

text \<open>\<^verbatim>\<open>LoggedError\<close> is the error on the error file, followed by the guard on both files.\<close>

section \<open>The environment\<close>

definition propagate :: "string \<Rightarrow> (string \<times> string) list option \<Rightarrow> (string \<times> string) list option" where
  "propagate v acc =
     (if HasPrefix v ''__OW_'' then (case Split v (CHR ''='') of
         k # x # _ \<Rightarrow> map_option (AList.update k x) acc
       | _ \<Rightarrow> None)
      else acc)"

definition payload_var :: "(json \<Rightarrow> string option) \<Rightarrow> string \<times> json \<Rightarrow> (string \<times> string) list \<Rightarrow> (string \<times> string) list" where
  "payload_var jsonText kv env = (case snd kv of
       JStr s \<Rightarrow> AList.update (fst kv) s env
     | j \<Rightarrow> (case jsonText j of Some t \<Rightarrow> AList.update (fst kv) t env | None \<Rightarrow> env))"

text \<open>The arguments: the process environment as a list, and the text \<^verbatim>\<open>json.Marshal\<close> gives a
  value.\<close>

definition SetEnv :: "host \<Rightarrow> string list \<Rightarrow> (json \<Rightarrow> string option) \<Rightarrow> params \<Rightarrow> ActionProxy \<Rightarrow> ActionProxy option" where
  "SetEnv h environ jsonText env ap =
     (let e1 = AList.update ''__OW_PROXY_VERSION'' ''1.17.1'' (ap_env ap);
          ee = getenv h ''OW_EXECUTION_ENV''; wa = getenv h ''OW_WAIT_FOR_ACK'';
          e2 = (if ee \<noteq> [] then AList.update ''__OW_EXECUTION_ENV'' ee e1 else e1);
          e3 = (if wa \<noteq> [] then AList.update ''__OW_WAIT_FOR_ACK'' wa e2 else e2)
      in map_option (\<lambda>e4. ap\<lparr>ap_env := fold (payload_var jsonText) env e4\<rparr>) (fold propagate environ (Some e3)))"

section \<open>Starting the latest action\<close>

record start_io =
  so_names :: "string list option"
  so_execEnv :: "string + string"
  so_pipes :: bool
  so_mkdirAll :: bool
  so_mkdir :: bool
  so_pid :: int
  so_opened :: bool
  so_started :: "int option"
  so_seen :: start_seen
  so_stop :: "cg_io \<times> reap"

definition exec_env_error :: "host \<Rightarrow> start_io \<Rightarrow> string option" where
  "exec_env_error h io =
     (let execEnv = getenv h ''OW_EXECUTION_ENV'' in
      if execEnv = [] then None
      else (case so_execEnv io of
          Inl err \<Rightarrow> Some err
        | Inr content \<Rightarrow> if TrimSpace content \<noteq> execEnv
            then Some ''Execution environment version mismatch. See logs for details.'' else None))"

text \<open>\<open>None\<close>: the new executor is nil and is dereferenced, or a call blocks. The counter of the
  cgroup names is a variable of the process.\<close>

definition StartLatestAction :: "host \<Rightarrow> bool \<Rightarrow> start_io \<Rightarrow> int \<Rightarrow> ActionProxy
    \<Rightarrow> (string option \<times> init_effect list \<times> ActionProxy) option" where
  "StartLatestAction h debugging io counter ap =
     (let n = highestDir (so_names io) in
      if n = 0 then Some (Some ''no valid actions available'', [], ap\<lparr>ap_theExecutor := None\<rparr>)
      else (case exec_env_error h io of
          Some err \<Rightarrow> Some (Some err, [], ap)
        | None \<Rightarrow>
            (let executable = ap_baseDir ap @ ''/'' @ itoa n @ ''/bin/exec'' in
             case fst (NewExecutor h debugging (so_pipes io) (so_mkdirAll io) (so_mkdir io) (so_pid io) executable (ap_env ap) [] counter) of
               None \<Rightarrow> None
             | Some new \<Rightarrow>
                 (case Executor_Start (so_opened io) (so_started io) (so_seen io) (getenv h ''OW_WAIT_FOR_ACK'' \<noteq> []) new of
                    None \<Rightarrow> None
                  | Some (None, started) \<Rightarrow>
                      (case ap_theExecutor ap of
                         None \<Rightarrow> Some (None, [Chmod executable], ap\<lparr>ap_theExecutor := Some started\<rparr>)
                       | Some cur \<Rightarrow> map_option
                           (\<lambda>(fx, _). (None, [Chmod executable, StoppedOld fx], ap\<lparr>ap_theExecutor := Some started\<rparr>))
                           (Stop h (so_stop io) cur))
                  | Some (Some err, _) \<Rightarrow>
                      Some (Some err, Chmod executable #
                        (if debugging then [] else [RemoveAll (''./action/'' @ itoa n @ ''/'')]), ap)))))"

section \<open>The request of /init\<close>

record initBodyRequest =
  ib_Code :: string
  ib_Binary :: bool
  ib_Main :: string
  ib_Env :: params

definition zero_init :: initBodyRequest where
  "zero_init = \<lparr>ib_Code = [], ib_Binary = False, ib_Main = [], ib_Env = []\<rparr>"

definition set_env :: "json \<Rightarrow> initBodyRequest \<Rightarrow> initBodyRequest option" where
  "set_env j rq = (case j of
       JNull \<Rightarrow> Some (rq\<lparr>ib_Env := []\<rparr>)
     | JObj kvs \<Rightarrow> Some (rq\<lparr>ib_Env := go_map kvs (ib_Env rq)\<rparr>)
     | _ \<Rightarrow> None)"

definition set_init_field :: "string \<Rightarrow> json \<Rightarrow> initBodyRequest \<Rightarrow> initBodyRequest option" where
  "set_init_field key j rq =
     (let f = fold_key key in
      if f = ''code'' then set_str (\<lambda>s. ib_Code_update (\<lambda>_. s)) j rq
      else if f = ''binary'' then set_bool (\<lambda>b. ib_Binary_update (\<lambda>_. b)) j rq
      else if f = ''main'' then set_str (\<lambda>s. ib_Main_update (\<lambda>_. s)) j rq
      else if f = ''env'' then set_env j rq
      else Some rq)"

definition set_init_value :: "json \<Rightarrow> initBodyRequest \<Rightarrow> initBodyRequest option" where
  "set_init_value j rq = (case j of
       JNull \<Rightarrow> Some rq
     | JObj kvs \<Rightarrow> fold (\<lambda>(k, j) acc. Option.bind acc (set_init_field k j)) kvs (Some rq)
     | _ \<Rightarrow> None)"

fun decode_init :: "json \<Rightarrow> initBodyRequest option" where
  "decode_init (JObj kvs) = fold (\<lambda>(k, j) acc. Option.bind acc
     (\<lambda>rq. if fold_key k = ''value'' then set_init_value j rq else Some rq)) kvs (Some zero_init)"
| "decode_init JNull = Some zero_init"
| "decode_init _ = None"

section \<open>The handler of /init\<close>

record init_io =
  ni_start :: int
  ni_start_h :: host
  ni_body :: "string + json option"
  ni_json_error :: string
  ni_environ :: "string list"
  ni_jsonText :: "json \<Rightarrow> string option"
  ni_base64 :: "string \<Rightarrow> string + string"
  ni_compile :: compile_io
  ni_startio :: start_io
  ni_counter :: int
  ni_end_h :: host
  ni_end :: int

text \<open>A failure is answered 502 with its text, or logged and answered with a fixed text.\<close>

definition init_failure :: "host \<Rightarrow> string \<Rightarrow> string \<Rightarrow> string \<Rightarrow> init_effect list" where
  "init_failure h lead err logged_text =
     (if getenv h ''OW_LOG_INIT_ERROR'' = [] then [InitAnswer (HttpError 502 (lead @ err))]
      else [LoggedError err, InitAnswer (HttpError 502 logged_text)])"

definition init_code :: "init_io \<Rightarrow> initBodyRequest \<Rightarrow> string + string" where
  "init_code io rq = (if ib_Binary rq then ni_base64 io (ib_Code rq) else Inr (ib_Code rq))"

text \<open>The measurement of \<^verbatim>\<open>/init\<close>: nothing was running when the CPU was read first.\<close>

definition record_init :: "host \<Rightarrow> rapl_cfg \<Rightarrow> init_io \<Rightarrow> ActionProxy \<Rightarrow> metric_effect list \<times> metrics_ap" where
  "record_init h c io ap = recordMetrics (ni_end_h io) c (ni_end io) (map_option exec_view_of (ap_theExecutor ap)) ''/init''
     (ni_start io) (fst (readEnergy (ni_start_h io))) (readCPUSnapshot (ni_start_h io) 0)
     (Some \<lparr>rm_TraceID = [], rm_PodName = getenv h ''HOSTNAME'', rm_ActivationID = [], rm_ExecutionPhase = [], rm_Lifecycle = None\<rparr>)
     (ap_metrics ap)"

text \<open>The part of the handler that follows the decoding of the code.\<close>

definition init_action :: "host \<Rightarrow> bool \<Rightarrow> rapl_cfg \<Rightarrow> init_io \<Rightarrow> string \<Rightarrow> string \<Rightarrow> ActionProxy
    \<Rightarrow> (init_effect list \<times> ActionProxy) option" where
  "init_action h debugging c io buf main_name ap1 =
     (case ExtractAndCompile h (ni_compile io) buf main_name ap1 of
        None \<Rightarrow> None
      | Some (Inl err, fx, ap2) \<Rightarrow>
          Some (map Disk fx @ init_failure h [] err ''The action failed to generate or locate a binary. See logs for details.'', ap2)
      | Some (Inr _, fx, ap2) \<Rightarrow>
          (case StartLatestAction h debugging (ni_startio io) (ni_counter io) ap2 of
             None \<Rightarrow> None
           | Some (Some err, sfx, ap3) \<Rightarrow>
               Some (map Disk fx @ sfx @ init_failure h ''cannot start action: '' err ''Cannot start action. Check logs for details.'', ap3)
           | Some (None, sfx, ap3) \<Rightarrow>
               (let ap4 = ap3\<lparr>ap_initialized := True\<rparr>; (mfx, m) = record_init h c io ap4 in
                Some (map Disk fx @ sfx @ InitAnswer (HttpBody OkBody) # map InitMetric mfx, ap4\<lparr>ap_metrics := m\<rparr>))))"

definition initHandler :: "host \<Rightarrow> bool \<Rightarrow> rapl_cfg \<Rightarrow> init_io \<Rightarrow> ActionProxy \<Rightarrow> (init_effect list \<times> ActionProxy) option" where
  "initHandler h debugging c io ap =
     (if ap_initialized ap \<and> \<not> debugging
      then Some ([InitAnswer (HttpError 403 ''Cannot initialize the action more than once.'')], ap)
      else case ni_body io of
        Inl err \<Rightarrow> Some ([InitAnswer (HttpError 400 err)], ap)
      | Inr parsed \<Rightarrow>
      (case Option.bind parsed decode_init of
        None \<Rightarrow> Some ([InitAnswer (HttpError 400 (''Error unmarshaling request: '' @ ni_json_error io))], ap)
      | Some rq \<Rightarrow>
      (if ib_Code rq = [] then Some ([InitAnswer (HttpError 403 ''Missing main/no code to execute.'')], ap)
       else case SetEnv h (ni_environ io) (ni_jsonText io) (ib_Env rq) ap of
        None \<Rightarrow> None
      | Some ap1 \<Rightarrow>
      (case init_code io rq of
        Inl err \<Rightarrow> Some ([InitAnswer (HttpError 400 (''cannot decode the request: '' @ err))], ap1)
      | Inr buf \<Rightarrow> init_action h debugging c io buf (if ib_Main rq = [] then ''main'' else ib_Main rq) ap1))))"

section \<open>The proxy\<close>

text \<open>The proxy starts uninitialised; the resolution of the scheduler's address is started in the
  background, which gives the new cache and whether a goroutine was started.\<close>

definition NewActionProxy :: "(string \<Rightarrow> (string \<times> string \<times> string) option) \<Rightarrow> host \<Rightarrow> string list option \<Rightarrow> string \<Rightarrow> string
    \<Rightarrow> addrCache \<Rightarrow> ActionProxy \<times> bool \<times> addrCache" where
  "NewActionProxy parseURL h listing baseDir compiler cache =
     (\<lparr>ap_initialized = False, ap_baseDir = baseDir, ap_compiler = compiler, ap_currentDir = highestDir listing,
       ap_theExecutor = None, ap_env = [], ap_metrics = \<lparr>am_metrics = Some (NewMetrics 1000), pendingInitEntry = None\<rparr>\<rparr>,
      warmSchedulerAddress parseURL h cache)"

datatype http_request = InitRequest init_io | RunRequest run_io | MetricRequest | OtherRequest string

datatype proxy_effect = ByInit init_effect | ByRun run_effect | ByMetric metric_reply

definition ServeHTTP :: "host \<Rightarrow> bool \<Rightarrow> rapl_cfg \<Rightarrow> http_request \<Rightarrow> ActionProxy \<Rightarrow> (proxy_effect list \<times> ActionProxy) option" where
  "ServeHTTP h debugging c rq ap = (case rq of
       InitRequest io \<Rightarrow> map_option (\<lambda>(fx, ap'). (map ByInit fx, ap')) (initHandler h debugging c io ap)
     | RunRequest io \<Rightarrow> map_option (\<lambda>(fx, ap'). (map ByRun fx, ap')) (runHandler h c io ap)
     | MetricRequest \<Rightarrow> Some ([ByMetric (metricHandler (am_metrics (ap_metrics ap)))], ap)
     | OtherRequest _ \<Rightarrow> Some ([], ap))"

text \<open>The requests of a container's life, one after the other.\<close>

fun serve_with :: "('rq \<Rightarrow> 's \<Rightarrow> ('fx list \<times> 's) option) \<Rightarrow> 'rq list \<Rightarrow> 's \<Rightarrow> ('fx list list \<times> 's) option" where
  "serve_with handle [] s = Some ([], s)"
| "serve_with handle (rq # rqs) s = (case handle rq s of
       None \<Rightarrow> None
     | Some (fx, s') \<Rightarrow> map_option (\<lambda>(fxs, s''). (fx # fxs, s'')) (serve_with handle rqs s'))"

definition serve :: "host \<Rightarrow> bool \<Rightarrow> rapl_cfg \<Rightarrow> http_request list \<Rightarrow> ActionProxy \<Rightarrow> (proxy_effect list list \<times> ActionProxy) option" where
  "serve h debugging c = serve_with (ServeHTTP h debugging c)"

text \<open>The proxy used as a compiler: the archive of the directory of the binary, whose content is
  given, or the error it ends with; \<open>None\<close> is a panic.\<close>

definition ExtractAndCompileIO :: "host \<Rightarrow> string list \<Rightarrow> (json \<Rightarrow> string option) \<Rightarrow> compile_io \<Rightarrow> (string \<Rightarrow> node)
    \<Rightarrow> string + string \<Rightarrow> string option \<Rightarrow> string \<Rightarrow> string \<times> json option \<Rightarrow> ActionProxy
    \<Rightarrow> ((string + zip_file list) \<times> disk_effect list) option" where
  "ExtractAndCompileIO h environ jsonText io tree input write_error main_name env ap =
     (case input of
        Inl err \<Rightarrow> Some (Inl err, [])
      | Inr buf \<Rightarrow>
          (let envMap = (if fst env \<noteq> [] then (case snd env of Some (JObj kvs) \<Rightarrow> go_map kvs [] | _ \<Rightarrow> []) else []) in
           case SetEnv h environ jsonText envMap ap of
             None \<Rightarrow> None
           | Some ap1 \<Rightarrow>
               map_option (\<lambda>(file, fx, _). (case file of
                   Inl err \<Rightarrow> Inl err
                 | Inr f \<Rightarrow> (case Zip (path_Dir f) (tree (path_Dir f)) of
                       Inl err \<Rightarrow> Inl err
                     | Inr z \<Rightarrow> (case write_error of Some err \<Rightarrow> Inl err | None \<Rightarrow> Inr z)), fx))
                 (ExtractAndCompile h io buf main_name ap1)))"

section \<open>The program\<close>

record proxy_flags =
  fl_version :: bool
  fl_debug :: bool
  fl_compile :: string
  fl_env :: "string \<times> json option"

text \<open>What \<^verbatim>\<open>main\<close> comes to: it prints its version, it compiles its input, or it serves requests
  with the given proxy and debugging flag. The debug flag is also put into the process environment.\<close>

datatype proxy_program =
    PrintVersion
  | Compiled "((string + zip_file list) \<times> disk_effect list) option"
  | Serving ActionProxy bool host

definition proxy_main :: "(string \<Rightarrow> (string \<times> string \<times> string) option) \<Rightarrow> proxy_flags \<Rightarrow> host \<Rightarrow> string list option \<Rightarrow> addrCache
    \<Rightarrow> string list \<Rightarrow> (json \<Rightarrow> string option) \<Rightarrow> compile_io \<Rightarrow> (string \<Rightarrow> node) \<Rightarrow> string + string \<Rightarrow> string option \<Rightarrow> proxy_program" where
  "proxy_main parseURL fl h0 listing cache environ jsonText io tree input write_error =
     (if fl_version fl then PrintVersion
      else let h = (if fl_debug fl then h0\<lparr>getenv := (getenv h0)(''OW_DEBUG'' := ''1'')\<rparr> else h0);
               ap = fst (NewActionProxy parseURL h listing ''./action'' (getenv h ''OW_COMPILER'') cache)
           in if fl_compile fl \<noteq> []
              then Compiled (ExtractAndCompileIO h environ jsonText io tree input write_error (fl_compile fl) (fl_env fl) ap)
              else Serving ap (fl_debug fl) h)"

section \<open>Laws of the environment\<close>

lemma hd_Split: "hd (Split v sep) = takeWhile (\<lambda>c. c \<noteq> sep) v"
  by (induction v) (auto split: list.splits)

lemma propagate_other:
  "hd (Split v (CHR ''='')) \<noteq> k \<Longrightarrow> propagate v (Some env) = Some env' \<Longrightarrow> map_of env' k = map_of env k"
  by (auto simp: propagate_def update_conv' split: if_splits list.splits)

lemma propagate_None: "fold propagate vs None = None"
  by (induction vs) (auto simp: propagate_def split: list.splits)

lemma propagate_Some:
  "fold propagate vs (propagate v acc) = Some env \<Longrightarrow> \<exists>e. propagate v acc = Some e"
  using propagate_None by (cases "propagate v acc") auto

lemma fold_propagate_other:
  "\<forall>v \<in> set vs. hd (Split v (CHR ''='')) \<noteq> k \<Longrightarrow> fold propagate vs (Some env) = Some env' \<Longrightarrow> map_of env' k = map_of env k"
proof (induction vs arbitrary: env)
  case (Cons v vs)
  then obtain e where e: "propagate v (Some env) = Some e" using propagate_Some by fastforce
  with Cons have "map_of env' k = map_of e k" by simp
  with propagate_other[OF _ e, of k] Cons.prems(1) show ?case by simp
qed simp

lemma payload_var_other: "k \<noteq> fst kv \<Longrightarrow> map_of (payload_var jt kv env) k = map_of env k"
  by (auto simp: payload_var_def update_conv' split: json.splits option.splits)

lemma fold_payload_other: "k \<notin> fst ` set kvs \<Longrightarrow> map_of (fold (payload_var jt) kvs env) k = map_of env k"
  by (induction kvs arbitrary: env) (simp_all add: payload_var_other)

lemma fold_payload_string:
  "distinct (map fst kvs) \<Longrightarrow> (k, JStr s) \<in> set kvs \<Longrightarrow> map_of (fold (payload_var jt) kvs env) k = Some s"
proof (induction kvs arbitrary: env)
  case (Cons kv kvs)
  show ?case
  proof (cases "kv = (k, JStr s)")
    case True
    then have "k \<notin> fst ` set kvs" using Cons.prems(1) by auto
    moreover have "payload_var jt (k, JStr s) env = AList.update k s env" by (simp add: payload_var_def)
    ultimately show ?thesis using True fold_payload_other[of k kvs] by (simp add: update_conv')
  qed (use Cons in auto)
qed simp

section \<open>Laws of the start\<close>

definition init_answers :: "init_effect list \<Rightarrow> http_out list" where
  "init_answers fx = List.map_filter (\<lambda>x. case x of InitAnswer a \<Rightarrow> Some a | _ \<Rightarrow> None) fx"

lemma init_answers_simps [simp]:
  "init_answers [] = []"
  "init_answers (Disk e # fx) = init_answers fx"
  "init_answers (Chmod f # fx) = init_answers fx"
  "init_answers (RemoveAll f # fx) = init_answers fx"
  "init_answers (StoppedOld s # fx) = init_answers fx"
  "init_answers (LoggedError t # fx) = init_answers fx"
  "init_answers (InitMetric m # fx) = init_answers fx"
  "init_answers (InitAnswer a # fx) = a # init_answers fx"
  "init_answers (fx @ gx) = init_answers fx @ init_answers gx"
  "init_answers (map Disk ds) = []"
  "init_answers (map InitMetric ms) = []"
  by (simp_all add: init_answers_def List.map_filter_def)

lemma init_failure_answer [simp]: "\<exists>msg. init_answers (init_failure h lead err t) = [HttpError 502 msg]"
  by (simp add: init_failure_def)

text \<open>A start either installs a started executor, or leaves the proxy as it was, except that it
  forgets the executor when no action is found.\<close>

lemma StartLatestAction_cases:
  assumes "StartLatestAction h debugging io counter ap = Some (e, fx, ap')"
  obtains (started) proc rest where "e = None" "ap' = ap\<lparr>ap_theExecutor := Some proc\<rparr>" "init_answers fx = []"
      "highestDir (so_names io) \<noteq> 0"
      "fx = Chmod (below (ap_baseDir ap) [itoa (highestDir (so_names io)), ''bin'', ''exec'']) # rest"
      "ex_cmd proc = Some (so_started io)" "\<not> ex_exited proc"
      "ex_command proc = below (ap_baseDir ap) [itoa (highestDir (so_names io)), ''bin'', ''exec'']" "ex_args proc = []"
  | (none) t where "e = Some t" "highestDir (so_names io) = 0" "ap' = ap\<lparr>ap_theExecutor := None\<rparr>" "fx = []"
  | (kept) t where "e = Some t" "highestDir (so_names io) \<noteq> 0" "ap' = ap" "init_answers fx = []"
proof -
  let ?n = "highestDir (so_names io)"
  let ?exec = "ap_baseDir ap @ ''/'' @ itoa (highestDir (so_names io)) @ ''/bin/exec''"
  let ?new = "fst (NewExecutor h debugging (so_pipes io) (so_mkdirAll io) (so_mkdir io) (so_pid io) ?exec (ap_env ap) [] counter)"
  have path: "ap_baseDir ap @ ''/'' @ itoa ?n @ ''/bin/exec'' = below (ap_baseDir ap) [itoa ?n, ''bin'', ''exec'']"
    by (simp add: below_def)
  show thesis
  proof (cases "?n = 0 \<or> exec_env_error h io \<noteq> None")
    case True
    show thesis
    proof (cases "?n = 0")
      case True
      with assms show thesis by (intro none) (auto simp: StartLatestAction_def Let_def)
    next
      case False
      with True obtain t where "exec_env_error h io = Some t" by auto
      with assms False show thesis by (intro kept[of t]) (auto simp: StartLatestAction_def Let_def)
    qed
  next
    case False
    then obtain new where new: "?new = Some new" using assms by (auto simp: StartLatestAction_def Let_def split: option.splits)
    then have fresh: "\<not> ex_exited new" "ex_command new = ?exec" "ex_args new = []"
      by (auto simp: NewExecutor_def split: if_splits option.splits)
    obtain r started where st: "Executor_Start (so_opened io) (so_started io) (so_seen io) (getenv h ''OW_WAIT_FOR_ACK'' \<noteq> []) new = Some (r, started)"
      using assms False new by (auto simp: StartLatestAction_def Let_def split: option.splits)
    show thesis
    proof (cases r)
      case None
      then have "ex_cmd started = Some (so_started io)" "\<not> ex_exited started" "ex_command started = ?exec" "ex_args started = []"
        using st fresh by (auto simp: Executor_Start_def Let_def split: prod.splits bool.splits if_splits start_seen.splits option.splits)
      with assms False new st None path show thesis
        by (auto simp: StartLatestAction_def Let_def split: option.splits intro!: started)
    next
      case (Some t)
      with assms False new st show thesis
        by (auto simp: StartLatestAction_def Let_def split: if_splits intro!: kept)
    qed
  qed
qed

lemma ExtractAndCompile_frame:
  "ExtractAndCompile h io buf m ap = Some (r, fx, ap') \<Longrightarrow> \<exists>n. ap' = ap\<lparr>ap_currentDir := n\<rparr>"
  by (auto simp: ExtractAndCompile_def ExtractAction_def Let_def split: if_splits option.splits prod.splits)
    (metis ActionProxy.surjective ActionProxy.update_convs(4))+

lemma SetEnv_frame: "SetEnv h vs jt env ap = Some ap' \<Longrightarrow> \<exists>e. ap' = ap\<lparr>ap_env := e\<rparr>"
  by (auto simp: SetEnv_def Let_def)

text \<open>How \<^verbatim>\<open>/init\<close> ends.\<close>

lemma initHandler_cases:
  assumes "initHandler h debugging c io ap = Some (fx, ap')"
  obtains (refused) "\<exists>code msg. init_answers fx = [HttpError code msg]" "ap_initialized ap' = ap_initialized ap"
      "ap_metrics ap' = ap_metrics ap"
      "ap_theExecutor ap' = ap_theExecutor ap \<or> ap_theExecutor ap' = None \<and> highestDir (so_names (ni_startio io)) = 0"
  | (ok) proc where "init_answers fx = [HttpBody OkBody]" "ap_initialized ap'" "\<not> ap_initialized ap \<or> debugging"
      "ap_theExecutor ap' = Some proc" "ex_cmd proc = Some (so_started (ni_startio io))" "\<not> ex_exited proc"
      "pendingInitEntry (ap_metrics ap') \<noteq> None"
proof (cases "ap_initialized ap \<and> \<not> debugging")
  case True
  with assms show thesis by (intro refused) (auto simp: initHandler_def)
next
  case False
  show thesis
  proof (cases "\<exists>buf main_name env. init_action h debugging c io buf main_name (ap\<lparr>ap_env := env\<rparr>) = Some (fx, ap')")
    case True
    then obtain buf main_name env where a: "init_action h debugging c io buf main_name (ap\<lparr>ap_env := env\<rparr>) = Some (fx, ap')" by blast
    then obtain r dfx ap2 where x: "ExtractAndCompile h (ni_compile io) buf main_name (ap\<lparr>ap_env := env\<rparr>) = Some (r, dfx, ap2)"
      by (auto simp: init_action_def split: option.splits)
    then obtain n where ap2: "ap2 = ap\<lparr>ap_env := env, ap_currentDir := n\<rparr>" using ExtractAndCompile_frame by blast
    show thesis
    proof (cases r)
      case (Inl err)
      with a x ap2 show thesis by (intro refused) (auto simp: init_action_def init_failure_def)
    next
      case (Inr bin)
      obtain e sfx ap3 where s: "StartLatestAction h debugging (ni_startio io) (ni_counter io) ap2 = Some (e, sfx, ap3)"
        using a x Inr by (auto simp: init_action_def split: option.splits)
      then show thesis
      proof (cases rule: StartLatestAction_cases)
        case (started proc rest)
        with a x Inr s ap2 False show thesis
          by (intro ok[of proc]) (auto simp: init_action_def Let_def record_init_def recordMetrics_def recordMetricsImpl_def
              record_entry_def split: prod.splits)
      next
        case (none t)
        with a x Inr s ap2 show thesis by (intro refused) (auto simp: init_action_def init_failure_def)
      next
        case (kept t)
        with a x Inr s ap2 show thesis by (intro refused) (auto simp: init_action_def init_failure_def)
      qed
    qed
  next
    case no: False
    with assms False show thesis
      by (intro refused)
        (auto simp: initHandler_def split: sum.splits option.splits if_splits dest!: SetEnv_frame)
  qed
qed

lemma after_kill_ap:
  "after_kill h c io es cs ir st ki v meta a = (gx, a') \<Longrightarrow> ap_initialized a' = ap_initialized a \<and> ap_theExecutor a' = None"
  by (auto simp: after_kill_def Let_def split: prod.splits)

lemma after_answer_ap: "after_answer c io es cs ir meta a = (gx, a') \<Longrightarrow> ap_initialized a' = ap_initialized a"
  by (auto simp: after_answer_def Let_def split: prod.splits if_splits)

lemma runHandler_frame:
  assumes "runHandler h c io ap = Some (fx, ap')"
  shows "ap_initialized ap' = ap_initialized ap"
    "KillReported ev d \<in> set fx \<Longrightarrow> ap_theExecutor ap' = None"
proof -
  have f: "after_interact h c io es cs pr ir a = Some (gx, a') \<Longrightarrow>
      ap_initialized a' = ap_initialized a \<and> (KillReported ev d \<in> set gx \<longrightarrow> ap_theExecutor a' = None)" for es cs pr ir a gx a'
    by (auto simp: after_interact_def Let_def split: option.splits if_splits
        dest: after_kill_ap after_answer_ap after_answer_no_kill)
  from assms have "ap_initialized ap' = ap_initialized ap \<and> (KillReported ev d \<in> set fx \<longrightarrow> ap_theExecutor ap' = None)"
    by (cases rule: runHandler_cases) (auto dest: f)
  then show "ap_initialized ap' = ap_initialized ap" "KillReported ev d \<in> set fx \<Longrightarrow> ap_theExecutor ap' = None" by auto
qed

section \<open>Sequences of requests\<close>

text \<open>What a server promises about an event that can happen once: it happens only where the mark is
  not set, it sets the mark, and nothing else moves the mark.\<close>

locale once_server =
  fixes handle :: "'rq \<Rightarrow> 's \<Rightarrow> ('fx list \<times> 's) option" and happens :: "'fx list \<Rightarrow> bool" and mark :: "'s \<Rightarrow> bool"
  assumes once_step: "handle rq s = Some (fx, s') \<Longrightarrow> if happens fx then \<not> mark s \<and> mark s' else mark s' = mark s"
begin

lemma happens_once:
  "serve_with handle rqs s = Some (fxs, s') \<Longrightarrow>
     length (filter happens fxs) = (if mark s' \<and> \<not> mark s then 1 else 0) \<and> (mark s \<longrightarrow> mark s')"
proof (induction rqs arbitrary: s fxs)
  case (Cons rq rqs)
  then obtain fx s1 gxs where 1: "handle rq s = Some (fx, s1)" "serve_with handle rqs s1 = Some (gxs, s')" "fxs = fx # gxs"
    by (auto split: option.splits)
  from once_step[OF 1(1)] Cons.IH[OF 1(2)] show ?case by (auto simp: 1(3) split: if_splits)
qed simp

end

text \<open>A state a server does not leave: every request is served, changes nothing and has only effects of a kind.\<close>

locale stuck_server =
  fixes handle :: "'rq \<Rightarrow> 's \<Rightarrow> ('fx list \<times> 's) option" and stuck :: "'s \<Rightarrow> bool" and harmless :: "'fx \<Rightarrow> bool"
  assumes stuck_step: "stuck s \<Longrightarrow> \<exists>fx. handle rq s = Some (fx, s) \<and> list_all harmless fx"
begin

lemma stays_stuck: "stuck s \<Longrightarrow> \<exists>fxs. serve_with handle rqs s = Some (fxs, s) \<and> list_all (list_all harmless) fxs"
proof (induction rqs)
  case (Cons rq rqs)
  then obtain fx fxs where "handle rq s = Some (fx, s)" "list_all harmless fx"
    "serve_with handle rqs s = Some (fxs, s)" "list_all (list_all harmless) fxs"
    using stuck_step by blast
  then show ?case by simp
qed simp

end

abbreviation init_accepted :: "proxy_effect list \<Rightarrow> bool" where
  "init_accepted fx \<equiv> ByInit (InitAnswer (HttpBody OkBody)) \<in> set fx"

lemma init_answers_mem: "InitAnswer a \<in> set fx \<longleftrightarrow> a \<in> set (init_answers fx)"
  by (induction fx) (auto simp: init_answers_def List.map_filter_def split: init_effect.splits)

interpretation inits: once_server "ServeHTTP h False c" init_accepted ap_initialized for h c
proof unfold_locales
  fix rq ap fx ap'
  assume s: "ServeHTTP h False c rq ap = Some (fx, ap')"
  show "if init_accepted fx then \<not> ap_initialized ap \<and> ap_initialized ap' else ap_initialized ap' = ap_initialized ap"
  proof (cases rq)
    case (InitRequest io)
    then obtain ix where ix: "initHandler h False c io ap = Some (ix, ap')" "fx = map ByInit ix"
      using s by (auto simp: ServeHTTP_def)
    from ix(1) show ?thesis
      by (cases rule: initHandler_cases) (auto simp: ix(2) image_iff init_answers_mem)
  next
    case (RunRequest io)
    with s show ?thesis by (auto simp: ServeHTTP_def dest: runHandler_frame(1))
  qed (use s in \<open>auto simp: ServeHTTP_def\<close>)
qed

text \<open>A refusal, or the metrics.\<close>

fun refusal :: "proxy_effect \<Rightarrow> bool" where
  "refusal (ByInit (InitAnswer (HttpError code _))) \<longleftrightarrow> code = 403"
| "refusal (ByRun (Answer (HttpError code _))) \<longleftrightarrow> code = 400 \<or> code = 500"
| "refusal (ByMetric _) \<longleftrightarrow> True"
| "refusal _ \<longleftrightarrow> False"

interpretation ended: stuck_server "ServeHTTP h False c" "\<lambda>ap. ap_initialized ap \<and> ap_theExecutor ap = None" refusal for h c
proof unfold_locales
  fix rq and ap :: ActionProxy
  assume "ap_initialized ap \<and> ap_theExecutor ap = None"
  then show "\<exists>fx. ServeHTTP h False c rq ap = Some (fx, ap) \<and> list_all refusal fx"
    by (cases rq) (auto simp: ServeHTTP_def initHandler_def runHandler_def split: sum.split)
qed

section \<open>Properties\<close>

text \<open>C9: a container is initialised at most once. Whatever requests it serves (outside debugging), the
  number of \<^verbatim>\<open>/init\<close> requests that are answered \<^verbatim>\<open>{"ok":true}\<close> is 1 if it became initialised
  meanwhile and 0 otherwise; in particular an initialised container never accepts another action.\<close>

theorem initialized_once:
  assumes "serve h False c rqs ap = Some (fxs, ap')"
  shows "length (filter (\<lambda>fx. ByInit (InitAnswer (HttpBody OkBody)) \<in> set fx) fxs)
       = (if ap_initialized ap' \<and> \<not> ap_initialized ap then 1 else 0)
     \<and> (ap_initialized ap \<longrightarrow> ap_initialized ap')"
  using inits.happens_once assms by (simp add: serve_def)

text \<open>C26: how \<^verbatim>\<open>/init\<close> ends. A request that returns is answered exactly once. It is answered
  \<^verbatim>\<open>{"ok":true}\<close> only when the proxy has become initialised with a running, freshly started executor and the
  measurement of the initialisation is waiting for the first run; after any other answer the
  proxy is as much initialised as before, nothing was measured, and the executor it had is still
  its executor, unless there was no action to start.\<close>

theorem init_outcome:
  assumes "initHandler h debugging c io ap = Some (fx, ap')"
  shows "case init_answers fx of
       [HttpBody b] \<Rightarrow> b = OkBody \<and> ap_initialized ap' \<and> pendingInitEntry (ap_metrics ap') \<noteq> None \<and>
         (\<exists>proc. ap_theExecutor ap' = Some proc \<and> ex_cmd proc = Some (so_started (ni_startio io)) \<and> \<not> Exited proc)
     | [HttpError code msg] \<Rightarrow> ap_initialized ap' = ap_initialized ap \<and> ap_metrics ap' = ap_metrics ap \<and>
         (ap_theExecutor ap' = ap_theExecutor ap \<or> ap_theExecutor ap' = None \<and> highestDir (so_names (ni_startio io)) = 0)
     | _ \<Rightarrow> False"
  using assms by (cases rule: initHandler_cases) (auto simp: Exited_def)

text \<open>C25: the action that is started is the one that was just uploaded. When the directory of the
  upload is the only one with a number as high as its own, a \<^verbatim>\<open>StartLatestAction\<close> that succeeds makes the proxy's
  executor a process of the file \<^verbatim>\<open>ExtractAndCompile\<close> returned, without arguments, after having marked that very file
  executable, for a base directory given as a clean path or, as in \<^verbatim>\<open>main\<close>, with a leading \<^verbatim>\<open>./\<close>.\<close>

theorem uploaded_action_started:
  assumes "base_of (ap_baseDir ap) d" "getenv h ''OW_SAVE_JAR'' = [] \<or> plain (getenv h ''OW_SAVE_JAR'')"
    and "ExtractAndCompile h cio buf main_name ap = Some (Inr file, dfx, ap1)"
    and "so_names sio = Some names" "itoa (ap_currentDir ap1) \<in> set names" "0 < ap_currentDir ap1"
    and "\<forall>name \<in> set names. snd (ParseInt name) = None \<longrightarrow> fst (ParseInt name) \<le> ap_currentDir ap1"
    and "StartLatestAction h debugging sio counter ap1 = Some (None, sfx, ap2)"
  shows "\<exists>proc rest. ap_theExecutor ap2 = Some proc \<and> ex_cmd proc = Some (so_started sio)
     \<and> path_Clean (ex_command proc) = file \<and> ex_args proc = [] \<and> sfx = Chmod (ex_command proc) # rest"
proof -
  note f = ExtractAndCompile_file[OF assms(3,1,2)]
  have i: "ParseInt (itoa (ap_currentDir ap1)) = (ap_currentDir ap1, None)"
    using f(2) by (intro ParseInt_itoa) simp
  have n: "highestDir (Some names) = ap_currentDir ap1"
    using highestDir_bound[OF assms(5) i] highestDir_least[of names "ap_currentDir ap1"] assms(6,7) by fastforce
  have p: "plain ''bin''" "plain ''exec''" by code_simp+
  from assms(8) obtain proc rest where "ap_theExecutor ap2 = Some proc" "ex_cmd proc = Some (so_started sio)" "ex_args proc = []"
    "ex_command proc = below (ap_baseDir ap1) [itoa (ap_currentDir ap1), ''bin'', ''exec'']" "sfx = Chmod (ex_command proc) # rest"
    by (cases rule: StartLatestAction_cases) (auto simp: assms(4) n)
  moreover have "path_Clean (below (ap_baseDir ap1) [itoa (ap_currentDir ap1), ''bin'', ''exec'']) = file"
    using path_Clean_base(1)[of "ap_baseDir ap1" d "[itoa (ap_currentDir ap1), ''bin'', ''exec'']"] assms(1) f p by simp
  ultimately show ?thesis by auto
qed

text \<open>The environment of the action. A string of the \<^verbatim>\<open>/init\<close> payload is passed as it is and
  overrides everything else; a variable \<^verbatim>\<open>__OW_*\<close> of the proxy's own environment that the payload
  does not name is passed only up to the second equals sign of its entry.\<close>

theorem init_environment:
  assumes "SetEnv h environ jt env ap = Some ap'" "distinct (map fst env)"
    and "environ = before @ (k @ ''='' @ v) # later" "HasPrefix k ''__OW_''" "CHR ''='' \<notin> set k"
    and "\<forall>e \<in> set later. hd (Split e (CHR ''='')) \<noteq> k"
  shows "(\<forall>x s. (x, JStr s) \<in> set env \<longrightarrow> map_of (ap_env ap') x = Some s)
     \<and> (k \<in> fst ` set env \<or> map_of (ap_env ap') k = Some (takeWhile (\<lambda>c. c \<noteq> CHR ''='') v))"
proof -
  obtain e0 e4 where e4: "fold propagate environ (Some e0) = Some e4" and ap': "ap_env ap' = fold (payload_var jt) env e4"
    using assms(1) by (auto simp: SetEnv_def Let_def)
  obtain e1 where e1: "fold propagate before (Some e0) = Some e1"
    using e4 propagate_None[of "(k @ ''='' @ v) # later"] by (cases "fold propagate before (Some e0)") (auto simp: assms(3))
  have pre: "HasPrefix (k @ ''='' @ v) ''__OW_''" using assms(4) by (auto simp: HasPrefix_iff prefix_def)
  obtain w ws where w: "Split v (CHR ''='') = w # ws" by (cases "Split v (CHR ''='')") auto
  then have "w = takeWhile (\<lambda>c. c \<noteq> CHR ''='') v" using hd_Split[of v "CHR ''=''"] by simp
  moreover have "propagate (k @ ''='' @ v) (Some e1) = Some (AList.update k w e1)"
    using pre Split_append_sep[OF assms(5), of v] w by (simp add: propagate_def)
  then have "map_of e4 k = Some w"
    using fold_propagate_other[OF assms(6)] e4 e1 by (auto simp: assms(3) update_conv')
  ultimately show ?thesis
    using fold_payload_other[of k env jt e4] fold_payload_string[OF assms(2)] by (auto simp: ap')
qed

section \<open>Concrete requests\<close>

definition init_example :: "string list \<Rightarrow> string \<Rightarrow> init_io" where
  "init_example environ code = \<lparr>ni_start = 1, ni_start_h = act_host ''0'' ''0'' 0,
     ni_body = Inr (Some (JObj [(''value'', JObj [(''code'', JStr code), (''main'', JStr ''main'')])])), ni_json_error = [],
     ni_environ = environ, ni_jsonText = (\<lambda>_. None), ni_base64 = Inr,
     ni_compile = \<lparr>co_archive = \<lparr>ar_os = agreeable, ar_zip = None, ar_tar = Inl ''no''\<rparr>, co_goos = ''linux'', co_content = None,
        co_compiler = ([], None), co_exists = True\<rparr>,
     ni_startio = \<lparr>so_names = Some [''1'', ''x''], so_execEnv = Inl ''none'', so_pipes = True, so_mkdirAll = True, so_mkdir = True, so_pid = 7,
        so_opened = True, so_started = Some 42, so_seen = SawTimeout, so_stop = (quick_kill, None)\<rparr>,
     ni_counter = 0, ni_end_h = act_host ''10'' ''10'' 1000, ni_end = 1000\<rparr>"

definition cold_proxy :: ActionProxy where
  "cold_proxy = fst (NewActionProxy (\<lambda>_. None) bare_host (Some []) ''./action'' [] pool_cache)"

definition first_requests :: "http_request list" where
  "first_requests = [MetricRequest, InitRequest (init_example [''__OW_A=b''] ''code''), InitRequest (init_example [] ''code'')]"

lemma first_requests_served:
  "case serve bare_host False cfg_example first_requests cold_proxy of None \<Rightarrow> False | Some (fxs, ap) \<Rightarrow> ap_initialized ap"
  by code_simp

theorem initialized_once_witness:
  "\<exists>fxs ap'. serve bare_host False cfg_example first_requests cold_proxy = Some (fxs, ap') \<and>
     length (filter (\<lambda>fx. ByInit (InitAnswer (HttpBody OkBody)) \<in> set fx) fxs) = 1"
proof -
  obtain fxs ap' where s: "serve bare_host False cfg_example first_requests cold_proxy = Some (fxs, ap')" "ap_initialized ap'"
    using first_requests_served by (auto split: option.splits)
  have "\<not> ap_initialized cold_proxy" by (simp add: cold_proxy_def NewActionProxy_def)
  with initialized_once[OF s(1)] s show ?thesis by auto
qed

lemma first_init:
  "case initHandler bare_host False cfg_example (init_example [] ''code'') cold_proxy of None \<Rightarrow> False
   | Some (fx, _) \<Rightarrow> init_answers fx = [HttpBody OkBody]"
  by code_simp

theorem init_outcome_witness:
  "\<exists>fx ap'. initHandler bare_host False cfg_example (init_example [] ''code'') cold_proxy = Some (fx, ap')
     \<and> ap_initialized ap' \<and> ap_theExecutor ap' \<noteq> None"
proof -
  obtain fx ap' where i: "initHandler bare_host False cfg_example (init_example [] ''code'') cold_proxy = Some (fx, ap')"
    "init_answers fx = [HttpBody OkBody]" using first_init by (auto split: option.splits)
  from init_outcome[OF i(1)] i show ?thesis by auto
qed

lemma first_upload:
  "map_option (\<lambda>(bin, _, ap1). (bin, ap_currentDir ap1,
       map_option fst (StartLatestAction bare_host False (ni_startio (init_example [] [])) 0 ap1)))
     (ExtractAndCompile bare_host (ni_compile (init_example [] [])) ''code'' ''main'' cold_proxy)
   = Some (Inr ''action/1/bin/exec'', 1, Some None)"
  by code_simp

theorem uploaded_action_started_witness:
  "\<exists>dfx sfx ap1 ap2 proc rest.
     ExtractAndCompile bare_host (ni_compile (init_example [] [])) ''code'' ''main'' cold_proxy = Some (Inr ''action/1/bin/exec'', dfx, ap1)
   \<and> StartLatestAction bare_host False (ni_startio (init_example [] [])) 0 ap1 = Some (None, sfx, ap2)
   \<and> ap_theExecutor ap2 = Some proc \<and> path_Clean (ex_command proc) = ''action/1/bin/exec''
   \<and> sfx = Chmod (ex_command proc) # rest"
proof -
  obtain dfx ap1 sfx ap2 where
    x: "ExtractAndCompile bare_host (ni_compile (init_example [] [])) ''code'' ''main'' cold_proxy = Some (Inr ''action/1/bin/exec'', dfx, ap1)"
      "ap_currentDir ap1 = 1"
    and y: "StartLatestAction bare_host False (ni_startio (init_example [] [])) 0 ap1 = Some (None, sfx, ap2)"
    using first_upload by auto
  have b: "base_of (ap_baseDir cold_proxy) ''action''" "getenv bare_host ''OW_SAVE_JAR'' = []" by code_simp+
  have n: "so_names (ni_startio (init_example [] [])) = Some [''1'', ''x'']" by (simp add: init_example_def)
  have p: "itoa 1 = ''1''" "ParseInt ''1'' = (1, None)" "snd (ParseInt ''x'') = Some ErrSyntax" by code_simp+
  have "itoa (ap_currentDir ap1) \<in> set [''1'', ''x'']" "0 < ap_currentDir ap1"
    "\<forall>name \<in> set [''1'', ''x'']. snd (ParseInt name) = None \<longrightarrow> fst (ParseInt name) \<le> ap_currentDir ap1"
    using p by (simp_all add: x(2))
  from uploaded_action_started[OF b(1) disjI1[OF b(2)] x(1) n this y] x y show ?thesis by blast
qed

theorem init_environment_witness:
  "\<exists>ap'. SetEnv bare_host [''__OW_KEY=a=b''] (\<lambda>_. None) [(''x'', JStr ''y'')] cold_proxy = Some ap'
     \<and> map_of (ap_env ap') ''x'' = Some ''y'' \<and> map_of (ap_env ap') ''__OW_KEY'' = Some ''a''"
proof -
  have "case SetEnv bare_host [''__OW_KEY=a=b''] (\<lambda>_. None) [(''x'', JStr ''y'')] cold_proxy of None \<Rightarrow> False | Some _ \<Rightarrow> True" by code_simp
  then obtain ap' where s: "SetEnv bare_host [''__OW_KEY=a=b''] (\<lambda>_. None) [(''x'', JStr ''y'')] cold_proxy = Some ap'"
    by (auto split: option.splits)
  have "HasPrefix ''__OW_KEY'' ''__OW_''" by code_simp
  with init_environment[OF s, of "[]" "''__OW_KEY''" "''a=b''" "[]"] s show ?thesis by simp
qed

end
