(* ===== verification/Launcher.thy ===== *)
theory Launcher
  imports RunHandler
begin

text \<open>
  The other end of the pipes: the program that wraps the \<^verbatim>\<open>Main\<close> function of a Go action,
  \<^verbatim>\<open>src/golang1.22/lib/launcher.go\<close> (and its copies for 1.23 and 1.24) and
  \<^verbatim>\<open>src/common/gobuild.py.launcher.go\<close>, which neither checks the execution environment
  nor acknowledges the start.

  The action's own function is a parameter: from the payload and the variables it gives the variables it
  leaves and its result, or \<open>None\<close> when it panics or exits. A line of input comes with its JSON
  value and the text of the error the parser has for it. A decoded map is ranged over in the order of its list;
  names are ASCII.
\<close>

section \<open>Lines and variables\<close>

type_synonym vars = "(string \<times> string) list"

record in_line =
  ln_json :: "json option"
  ln_error :: string

text \<open>What the launcher writes: the acknowledgement, the result of the action as JSON, or an error.\<close>

datatype out_line = AckLine | ResultLine json | ErrorLine string

text \<open>The value a JSON parser gives the line. An error is written \<^verbatim>\<open>{ error: "..."}\<close>, whose key
  has no quotes: no parser accepts it.\<close>

fun line_json :: "out_line \<Rightarrow> json option" where
  "line_json AckLine = Some (JObj [(''ok'', JBool True)])"
| "line_json (ResultLine j) = Some j"
| "line_json (ErrorLine _) = None"

definition upper_char :: "char \<Rightarrow> char" where
  "upper_char c = (if 97 \<le> (of_char c :: nat) \<and> (of_char c :: nat) \<le> 122 then char_of ((of_char c :: nat) - 32) else c)"

definition ToUpper :: "string \<Rightarrow> string" where
  "ToUpper s = map upper_char s"

text \<open>\<^verbatim>\<open>os.Setenv\<close> refuses a name with an equals sign or a zero byte, and a value with a zero
  byte; the launcher ignores the error.\<close>

definition Setenv :: "string \<Rightarrow> string \<Rightarrow> vars \<Rightarrow> vars" where
  "Setenv k v env =
     (if k = [] \<or> CHR ''='' \<in> set k \<or> CHR 0x00 \<in> set k \<or> CHR 0x00 \<in> set v then env else AList.update k v env)"

section \<open>One request\<close>

datatype payload = ObjectPayload "params option" | ArrayPayload "json list"

datatype result_kind = KindMap | KindSlice | KindArray | KindOther

record action_main =
  mn_kind :: result_kind
  mn_call :: "payload \<Rightarrow> vars \<Rightarrow> (vars \<times> (string + json)) option"

definition unmarshal_input :: "in_line \<Rightarrow> string + params" where
  "unmarshal_input l = (case ln_json l of
       Some (JObj kvs) \<Rightarrow> Inr (go_map kvs [])
     | Some JNull \<Rightarrow> Inr []
     | _ \<Rightarrow> Inl (ln_error l))"

definition set_variable :: "string \<times> json \<Rightarrow> vars \<Rightarrow> vars" where
  "set_variable kv env = (if fst kv = ''value'' then env else case snd kv of
       JStr s \<Rightarrow> Setenv (''__OW_'' @ ToUpper (fst kv)) s env
     | _ \<Rightarrow> env)"

definition set_variables :: "params \<Rightarrow> vars \<Rightarrow> vars" where
  "set_variables input env = fold set_variable input env"

definition payload_value :: "params \<Rightarrow> payload" where
  "payload_value input = (case map_of input ''value'' of
       Some (JObj kvs) \<Rightarrow> ObjectPayload (Some (go_map kvs []))
     | Some (JArr js) \<Rightarrow> ArrayPayload js
     | _ \<Rightarrow> ObjectPayload None)"

definition launcher_step :: "action_main \<Rightarrow> in_line \<Rightarrow> vars \<Rightarrow> (out_line \<times> vars) option" where
  "launcher_step act l env = (case unmarshal_input l of
       Inl err \<Rightarrow> Some (ErrorLine err, env)
     | Inr input \<Rightarrow> map_option
         (\<lambda>(env', r). (case r of Inl err \<Rightarrow> ErrorLine err | Inr j \<Rightarrow> ResultLine j, env'))
         (mn_call act (payload_value input) (set_variables input env)))"

section \<open>The loop and the program\<close>

text \<open>The lines written, the variables at the end, and whether the loop ended at the end of its
  input (it did not when the action panicked).\<close>

fun repl :: "action_main \<Rightarrow> in_line list \<Rightarrow> vars \<Rightarrow> out_line list \<times> vars \<times> bool" where
  "repl act [] env = ([], env, True)"
| "repl act (l # ls) env = (case launcher_step act l env of
       None \<Rightarrow> ([], env, False)
     | Some (out, env') \<Rightarrow> (case repl act ls env' of (outs, r) \<Rightarrow> (out # outs, r)))"

datatype launcher_end = WrongEnvironment | WrongResultKind | EndOfInput | Crashed

definition run_launcher :: "bool \<Rightarrow> action_main \<Rightarrow> in_line list \<Rightarrow> vars \<Rightarrow> launcher_end \<times> out_line list" where
  "run_launcher acks act ls env =
     (if mn_kind act = KindOther then (WrongResultKind, [])
      else case repl act ls env of (outs, _, ok) \<Rightarrow>
        (if ok then EndOfInput else Crashed, (if acks then [AckLine] else []) @ outs))"

definition checked_launcher :: "string \<Rightarrow> action_main \<Rightarrow> in_line list \<Rightarrow> vars \<Rightarrow> launcher_end \<times> out_line list" where
  "checked_launcher owExecutionEnv act ls env =
     (if owExecutionEnv \<noteq> [] \<and> owExecutionEnv \<noteq> (case map_of env ''__OW_EXECUTION_ENV'' of Some v \<Rightarrow> v | None \<Rightarrow> [])
      then (WrongEnvironment, []) else run_launcher True act ls env)"

definition gobuild_main :: "action_main \<Rightarrow> in_line list \<Rightarrow> vars \<Rightarrow> launcher_end \<times> out_line list" where
  "gobuild_main act ls env = run_launcher False act ls env"

definition golang122_main :: "string \<Rightarrow> action_main \<Rightarrow> in_line list \<Rightarrow> vars \<Rightarrow> launcher_end \<times> out_line list" where
  "golang122_main owExecutionEnv = checked_launcher owExecutionEnv"

definition golang123_main :: "string \<Rightarrow> action_main \<Rightarrow> in_line list \<Rightarrow> vars \<Rightarrow> launcher_end \<times> out_line list" where
  "golang123_main owExecutionEnv = checked_launcher owExecutionEnv"

definition golang124_main :: "string \<Rightarrow> action_main \<Rightarrow> in_line list \<Rightarrow> vars \<Rightarrow> launcher_end \<times> out_line list" where
  "golang124_main owExecutionEnv = checked_launcher owExecutionEnv"

section \<open>The proxy's side of the pipe\<close>

text \<open>The lines left for the interactions: a start that waits for the acknowledgement has read one.\<close>

definition lines_for_runs :: "bool \<Rightarrow> out_line list \<Rightarrow> out_line list" where
  "lines_for_runs waitForAck outs = (if waitForAck then drop 1 outs else outs)"

text \<open>The line of the proxy as the launcher reads it.\<close>

definition reencoded_line :: "runRequest \<Rightarrow> in_line" where
  "reencoded_line rq = \<lparr>ln_json = Some (encoded_request rq), ln_error = []\<rparr>"

section \<open>Laws\<close>

text \<open>The variables before a request are those its predecessors left.\<close>

fun vars_after :: "action_main \<Rightarrow> in_line list \<Rightarrow> vars \<Rightarrow> vars" where
  "vars_after act [] env = env"
| "vars_after act (l # ls) env = (case launcher_step act l env of
       None \<Rightarrow> env
     | Some (_, env') \<Rightarrow> vars_after act ls env')"

lemma repl_answers:
  "repl act ls env = (outs, env', True) \<Longrightarrow>
     length outs = length ls \<and> env' = vars_after act ls env \<and>
     (\<forall>i < length ls. map_option fst (launcher_step act (ls ! i) (vars_after act (take i ls) env)) = Some (outs ! i))"
proof (induction ls arbitrary: env outs)
  case (Cons l ls)
  then obtain out env1 outs1 where 1: "launcher_step act l env = Some (out, env1)"
    "repl act ls env1 = (outs1, env', True)" "outs = out # outs1"
    by (auto split: option.splits prod.splits)
  from Cons.IH[OF 1(2)] 1(1,3) show ?case by (auto simp: nth_Cons split: nat.split)
qed simp

lemma Setenv_other: "k \<noteq> x \<Longrightarrow> map_of (Setenv k v env) x = map_of env x"
  by (simp add: Setenv_def update_conv')

lemma set_variables_other:
  "\<forall>(k, v) \<in> set input. k = ''value'' \<or> ''__OW_'' @ ToUpper k \<noteq> x \<Longrightarrow> map_of (set_variables input env) x = map_of env x"
  unfolding set_variables_def
proof (induction input arbitrary: env)
  case (Cons kv input)
  have "map_of (set_variable kv env) x = map_of env x"
    using Cons.prems by (auto simp: set_variable_def Setenv_other split: json.splits)
  with Cons show ?case by simp
qed simp

section \<open>Properties\<close>

text \<open>C28: request and answer stay in step. As long as the action does not crash, a launcher writes its
  acknowledgement and then exactly one line for each line it reads, in order, the answer of the
  action to that line with the variables left by the lines before it. So a proxy that waits for the
  acknowledgement reads, at each run, the answer to that run; one that does not wait reads the
  acknowledgement as the answer to the first run and is one answer behind from then on.\<close>

theorem launcher_lockstep:
  assumes "golang124_main owEnv act ls env = (EndOfInput, outs)"
  shows "length outs = Suc (length ls) \<and> decode_ack (the (line_json (hd outs))) = Some True
     \<and> (\<forall>i < length ls. map_option fst (launcher_step act (ls ! i) (vars_after act (take i ls) env))
            = Some (lines_for_runs True outs ! i))
     \<and> lines_for_runs False outs ! 0 = AckLine
     \<and> (\<forall>i < length ls. lines_for_runs False outs ! Suc i = lines_for_runs True outs ! i)"
proof -
  obtain rs env' where r: "repl act ls env = (rs, env', True)" "outs = AckLine # rs"
    using assms by (auto simp: golang124_main_def checked_launcher_def run_launcher_def split: if_splits prod.splits)
  have "fold_key ''ok'' = ''ok''" by code_simp
  then have "decode_ack (JObj [(''ok'', JBool True)]) = Some True" by (simp add: set_bool_def)
  with repl_answers[OF r(1)] r(2) show ?thesis by (simp add: lines_for_runs_def)
qed

text \<open>What a re-encoded request tells the action. Of the variables of the action's process a request
  that the proxy has re-encoded sets the activation identifier and the action name and no
  other: whatever the action finds under any other name (deadline, namespace, API key, transaction)
  is what was there before the request.\<close>

theorem reencoded_request_variables:
  assumes "launcher_step act (reencoded_line rq) env = Some (out, env')"
    and "CHR 0x00 \<notin> set (rq_ActivationID rq)" "CHR 0x00 \<notin> set (rq_ActionName rq)"
  shows "\<exists>before. mn_call act (ObjectPayload (Some (go_map (rq_Value rq) []))) before \<noteq> None
     \<and> map_of before ''__OW_ACTIVATION_ID'' = Some (rq_ActivationID rq)
     \<and> map_of before ''__OW_ACTION_NAME'' = Some (rq_ActionName rq)
     \<and> (\<forall>x. x \<noteq> ''__OW_ACTIVATION_ID'' \<and> x \<noteq> ''__OW_ACTION_NAME'' \<longrightarrow> map_of before x = map_of env x)"
proof -
  let ?in = "[(''activation_id'', JStr (rq_ActivationID rq)), (''value'', JObj (rq_Value rq)), (''action_name'', JStr (rq_ActionName rq))]"
  have u: "unmarshal_input (reencoded_line rq) = Inr ?in"
    by (simp add: unmarshal_input_def reencoded_line_def encoded_request_def go_map_def)
  have n: "''__OW_'' @ ToUpper ''activation_id'' = ''__OW_ACTIVATION_ID''" "''__OW_'' @ ToUpper ''action_name'' = ''__OW_ACTION_NAME''"
    by code_simp+
  have v: "set_variables ?in env = AList.update ''__OW_ACTION_NAME'' (rq_ActionName rq)
      (AList.update ''__OW_ACTIVATION_ID'' (rq_ActivationID rq) env)"
    using assms(2,3) n by (simp add: set_variables_def set_variable_def Setenv_def)
  have "mn_call act (ObjectPayload (Some (go_map (rq_Value rq) []))) (set_variables ?in env) \<noteq> None"
    using assms(1) u by (auto simp: launcher_step_def payload_value_def)
  then show ?thesis by (intro exI[of _ "set_variables ?in env"]) (simp add: v update_conv')
qed

section \<open>A concrete action\<close>

text \<open>An action that answers its payload.\<close>

definition echo :: action_main where
  "echo = \<lparr>mn_kind = KindMap, mn_call = (\<lambda>p env. Some (env, case p of
     ObjectPayload (Some kvs) \<Rightarrow> Inr (JObj kvs) | ObjectPayload None \<Rightarrow> Inr JNull | ArrayPayload _ \<Rightarrow> Inl ''unsupported''))\<rparr>"

definition echo_lines :: "in_line list" where
  "echo_lines = [\<lparr>ln_json = Some (JObj [(''namespace'', JStr ''guest''), (''value'', JObj [(''a'', JStr ''1'')])]), ln_error = []\<rparr>,
     \<lparr>ln_json = None, ln_error = ''bad''\<rparr>]"

theorem launcher_lockstep_witness:
  "golang124_main [] echo echo_lines [] = (EndOfInput, [AckLine, ResultLine (JObj [(''a'', JStr ''1'')]), ErrorLine ''bad''])
   \<and> lines_for_runs False [AckLine, ResultLine (JObj [(''a'', JStr ''1'')]), ErrorLine ''bad''] ! 1 = ResultLine (JObj [(''a'', JStr ''1'')])"
proof -
  have "golang124_main [] echo echo_lines [] = (EndOfInput, [AckLine, ResultLine (JObj [(''a'', JStr ''1'')]), ErrorLine ''bad''])"
    by code_simp
  from this launcher_lockstep[OF this] show ?thesis by (simp add: echo_lines_def lines_for_runs_def)
qed

definition echo_request :: runRequest where
  "echo_request = \<lparr>rq_ActivationID = ''a-2'', rq_Value = [(''a'', JStr ''2'')], rq_ActionName = ''/guest/echo''\<rparr>"

theorem reencoded_request_variables_witness:
  "\<exists>out before. map_option fst (launcher_step echo (reencoded_line echo_request) [(''__OW_DEADLINE'', ''100'')]) = Some out
     \<and> mn_call echo (ObjectPayload (Some [(''a'', JStr ''2'')])) before \<noteq> None
     \<and> map_of before ''__OW_ACTIVATION_ID'' = Some ''a-2'' \<and> map_of before ''__OW_DEADLINE'' = Some ''100''"
proof -
  have o: "map_option fst (launcher_step echo (reencoded_line echo_request) [(''__OW_DEADLINE'', ''100'')]) = Some (ResultLine (JObj [(''a'', JStr ''2'')]))"
    by code_simp
  then obtain env' where e: "launcher_step echo (reencoded_line echo_request) [(''__OW_DEADLINE'', ''100'')] = Some (ResultLine (JObj [(''a'', JStr ''2'')]), env')"
    by auto
  have f: "rq_ActivationID echo_request = ''a-2''" "go_map (rq_Value echo_request) [] = [(''a'', JStr ''2'')]"
    "CHR 0x00 \<notin> set (rq_ActivationID echo_request)" "CHR 0x00 \<notin> set (rq_ActionName echo_request)"
    by (simp_all add: echo_request_def go_map_def)
  obtain before where b: "mn_call echo (ObjectPayload (Some [(''a'', JStr ''2'')])) before \<noteq> None"
    "map_of before ''__OW_ACTIVATION_ID'' = Some ''a-2''"
    "\<forall>x. x \<noteq> ''__OW_ACTIVATION_ID'' \<and> x \<noteq> ''__OW_ACTION_NAME'' \<longrightarrow> map_of before x = map_of [(''__OW_DEADLINE'', ''100'')] x"
    using reencoded_request_variables[OF e f(3,4)] unfolding f(1,2) by blast
  from b(3)[rule_format, of "''__OW_DEADLINE''"] have "map_of before ''__OW_DEADLINE'' = Some ''100''" by simp
  with o b(1,2) show ?thesis by blast
qed

end
