(* ===== verification/SharedExecutor.thy ===== *)
theory SharedExecutor
  imports Executor Monitor_Laws
begin

text \<open>
  Several activations on one executor. The actions declare a concurrency of 5 (comment at
  \<^verbatim>\<open>executor.go\<close>, \<^verbatim>\<open>Start\<close>), so up to five handlers call \<^verbatim>\<open>Interact\<close> of the same
  executor at a time: they share the process, its two pipes, the buffered reader, the freeze marks and the channel
  \<^verbatim>\<open>exited\<close>.

  The interleaving is a step relation on the shared state, at the grain of the calls that touch it. A write puts
  its bytes on the pipe in one go; the two writes of \<^verbatim>\<open>Interact\<close> are two steps, so another activation can
  write between them. The process reads a line at a time and answers it with a line. Whoever waits in
  \<^verbatim>\<open>ReadBytes\<close> may get the next line.
  The handlers are numbered; the check of \<^verbatim>\<open>Exited\<close> in \<^verbatim>\<open>runHandler\<close> comes before each interaction.
\<close>

section \<open>State and steps\<close>

text \<open>Where a handler is: not come yet, past the check, marks reset, request written, newline written
  and waiting in the select, answered, woken by the exit, or back from \<^verbatim>\<open>Interact\<close> with its answer, if any, and
  the marks \<^verbatim>\<open>FreezeMarks\<close> gave it.\<close>

datatype phase = Absent | Checked | MarksReset | Wrote | InSelect | Answered string | ByExit
  | Gone "string option" freezeMarks

record shared =
  sh_pipe :: string
  sh_out :: "string list"
  sh_closed :: bool
  sh_marks :: freezeMarks
  sh_phase :: "nat \<Rightarrow> phase"

definition fresh :: shared where
  "fresh = \<lparr>sh_pipe = [], sh_out = [], sh_closed = False, sh_marks = [], sh_phase = (\<lambda>_. Absent)\<rparr>"

datatype label =
    Check nat | Enter nat | WriteBody nat | WriteNewline nat | Take nat | SeeExit nat | ReadMarks nat | Drop nat
  | Serve | ExitProcess | Mark nat seg_op

text \<open>The next line on the pipe, without its newline, and what follows it, if there is a newline.\<close>

definition next_line :: "string \<Rightarrow> (string \<times> string) option" where
  "next_line s = (if CHR 0x0A \<in> set s
     then Some (takeWhile (\<lambda>c. c \<noteq> CHR 0x0A) s, tl (dropWhile (\<lambda>c. c \<noteq> CHR 0x0A) s)) else None)"

definition at_phase :: "nat \<Rightarrow> phase \<Rightarrow> shared \<Rightarrow> shared" where
  "at_phase i p s = s\<lparr>sh_phase := (sh_phase s)(i := p)\<rparr>"

text \<open>A step, or \<open>None\<close> where it is not possible. \<open>Drop\<close> is the reading goroutine of an
  interaction that has left by the exit: it still takes a line, and nobody receives it. The marks are
  written by the monitor of an activation, from its select until \<^verbatim>\<open>Interact\<close> has waited for the monitor's end;
  the handler then reads them. The parent keeps its own copy of the answer pipe's writing end, so the readers never see an end of
  file.\<close>

fun has_monitor :: "phase \<Rightarrow> bool" where
  "has_monitor InSelect \<longleftrightarrow> True"
| "has_monitor (Answered _) \<longleftrightarrow> True"
| "has_monitor ByExit \<longleftrightarrow> True"
| "has_monitor _ \<longleftrightarrow> False"

fun abandoned :: "phase \<Rightarrow> bool" where
  "abandoned ByExit \<longleftrightarrow> True"
| "abandoned (Gone None _) \<longleftrightarrow> True"
| "abandoned _ \<longleftrightarrow> False"

fun act :: "(nat \<Rightarrow> string) \<Rightarrow> (string \<Rightarrow> string) \<Rightarrow> label \<Rightarrow> shared \<Rightarrow> shared option" where
  "act req ans (Check i) s = (if sh_phase s i = Absent \<and> \<not> sh_closed s then Some (at_phase i Checked s) else None)"
| "act req ans (Enter i) s =
     (if sh_phase s i = Checked then Some (at_phase i MarksReset (s\<lparr>sh_marks := marks_reset (sh_marks s)\<rparr>)) else None)"
| "act req ans (WriteBody i) s =
     (if sh_phase s i = MarksReset then Some (at_phase i Wrote (s\<lparr>sh_pipe := sh_pipe s @ req i\<rparr>)) else None)"
| "act req ans (WriteNewline i) s =
     (if sh_phase s i = Wrote then Some (at_phase i InSelect (s\<lparr>sh_pipe := sh_pipe s @ [CHR 0x0A]\<rparr>)) else None)"
| "act req ans (Take i) s = (case sh_out s of
       l # ls \<Rightarrow> if sh_phase s i = InSelect then Some (at_phase i (Answered l) (s\<lparr>sh_out := ls\<rparr>)) else None
     | [] \<Rightarrow> None)"
| "act req ans (SeeExit i) s = (if sh_phase s i = InSelect \<and> sh_closed s then Some (at_phase i ByExit s) else None)"
| "act req ans (ReadMarks i) s = (case sh_phase s i of
       Answered l \<Rightarrow> Some (at_phase i (Gone (Some l) (sh_marks s)) s)
     | ByExit \<Rightarrow> Some (at_phase i (Gone None (sh_marks s)) s)
     | _ \<Rightarrow> None)"
| "act req ans (Drop i) s = (case sh_out s of
       l # ls \<Rightarrow> if abandoned (sh_phase s i) then Some (s\<lparr>sh_out := ls\<rparr>) else None
     | [] \<Rightarrow> None)"
| "act req ans Serve s = (if sh_closed s then None else
     map_option (\<lambda>(l, rest). s\<lparr>sh_pipe := rest, sh_out := sh_out s @ [ans l]\<rparr>) (next_line (sh_pipe s)))"
| "act req ans ExitProcess s = (if sh_closed s then None else Some (s\<lparr>sh_closed := True\<rparr>))"
| "act req ans (Mark i u) s =
     (if has_monitor (sh_phase s i) then Some (s\<lparr>sh_marks := marks_op u (sh_marks s)\<rparr>) else None)"

text \<open>Runs of labels admitted by a policy \<open>g\<close>: any handler at any time, or one activation at a time, a
  handler passing its check only when every other one has not come or has left.\<close>

fun run_labels :: "(label \<Rightarrow> shared \<Rightarrow> bool) \<Rightarrow> (nat \<Rightarrow> string) \<Rightarrow> (string \<Rightarrow> string) \<Rightarrow> label list \<Rightarrow> shared \<Rightarrow> shared option" where
  "run_labels g req ans [] s = Some s"
| "run_labels g req ans (l # ls) s = (if g l s then Option.bind (act req ans l s) (run_labels g req ans ls) else None)"

inductive reach :: "(label \<Rightarrow> shared \<Rightarrow> bool) \<Rightarrow> (nat \<Rightarrow> string) \<Rightarrow> (string \<Rightarrow> string) \<Rightarrow> label list \<Rightarrow> shared \<Rightarrow> bool"
  for g req ans where
  start: "reach g req ans [] fresh"
| step: "reach g req ans ls s \<Longrightarrow> g l s \<Longrightarrow> act req ans l s = Some s' \<Longrightarrow> reach g req ans (ls @ [l]) s'"

definition anyone :: "label \<Rightarrow> shared \<Rightarrow> bool" where
  "anyone l s = True"

definition left :: "phase \<Rightarrow> bool" where
  "left p = (case p of Absent \<Rightarrow> True | Gone _ _ \<Rightarrow> True | _ \<Rightarrow> False)"

definition alone :: "nat \<Rightarrow> label \<Rightarrow> shared \<Rightarrow> bool" where
  "alone n l s = (case l of Check i \<Rightarrow> i < n \<and> list_all (\<lambda>j. left (sh_phase s j)) [0..<n] | _ \<Rightarrow> True)"

section \<open>Laws\<close>

lemma at_phase_sel [simp]:
  "sh_pipe (at_phase i p s) = sh_pipe s" "sh_out (at_phase i p s) = sh_out s" "sh_closed (at_phase i p s) = sh_closed s"
  "sh_marks (at_phase i p s) = sh_marks s" "sh_phase (at_phase i p s) = (sh_phase s)(i := p)"
  by (simp_all add: at_phase_def)

lemma anyone_simp [simp]: "anyone l s"
  by (simp add: anyone_def)

lemma left_simps [simp]:
  "left Absent" "left (Gone a m)" "\<not> left (Answered l)" "\<not> left ByExit" "\<not> left Checked" "\<not> left MarksReset" "\<not> left Wrote" "\<not> left InSelect"
  by (simp_all add: left_def)

lemma run_labels_append: "run_labels g req ans (ls @ ms) s = Option.bind (run_labels g req ans ls s) (run_labels g req ans ms)"
  by (induction ls arbitrary: s) (auto split: Option.bind_splits)

lemma reach_run: "reach g req ans ls s \<longleftrightarrow> run_labels g req ans ls fresh = Some s"
proof
  show "reach g req ans ls s \<Longrightarrow> run_labels g req ans ls fresh = Some s"
    by (induction rule: reach.induct) (simp_all add: run_labels_append)
  show "run_labels g req ans ls fresh = Some s \<Longrightarrow> reach g req ans ls s"
  proof (induction ls arbitrary: s rule: rev_induct)
    case Nil
    then show ?case by (simp add: reach.start)
  next
    case (snoc l ls)
    then obtain s0 where "run_labels g req ans ls fresh = Some s0" "g l s0" "act req ans l s0 = Some s"
      by (auto simp: run_labels_append split: Option.bind_splits if_splits)
    then show ?case using snoc.IH reach.step by blast
  qed
qed

text \<open>What is in the pipes at each phase of the one active handler.\<close>

fun pipes_at :: "(string \<Rightarrow> string) \<Rightarrow> string \<Rightarrow> phase \<Rightarrow> string \<Rightarrow> string list \<Rightarrow> bool" where
  "pipes_at ans r Wrote pin pout \<longleftrightarrow> pin = r \<and> pout = []"
| "pipes_at ans r InSelect pin pout \<longleftrightarrow> pin = r @ [CHR 0x0A] \<and> pout = [] \<or> pin = [] \<and> pout = [ans r]"
| "pipes_at ans r ByExit _ _ \<longleftrightarrow> True"
| "pipes_at ans r (Gone _ _) _ _ \<longleftrightarrow> True"
| "pipes_at ans r Absent _ _ \<longleftrightarrow> True"
| "pipes_at ans r _ pin pout \<longleftrightarrow> pin = [] \<and> pout = []"

fun answer_of :: "phase \<Rightarrow> string option" where
  "answer_of (Answered l) = Some l"
| "answer_of (Gone a _) = a"
| "answer_of _ = None"

definition serial_inv :: "nat \<Rightarrow> (nat \<Rightarrow> string) \<Rightarrow> (string \<Rightarrow> string) \<Rightarrow> shared \<Rightarrow> bool" where
  "serial_inv n req ans s \<longleftrightarrow>
     (\<forall>i. n \<le> i \<longrightarrow> sh_phase s i = Absent) \<and>
     (\<forall>i j. \<not> left (sh_phase s i) \<and> \<not> left (sh_phase s j) \<longrightarrow> i = j) \<and>
     (\<forall>i. abandoned (sh_phase s i) \<longrightarrow> sh_closed s \<and> (\<forall>j. j \<noteq> i \<longrightarrow> left (sh_phase s j))) \<and>
     (\<forall>i. pipes_at ans (req i) (sh_phase s i) (sh_pipe s) (sh_out s)) \<and>
     ((\<forall>i. left (sh_phase s i)) \<and> \<not> sh_closed s \<longrightarrow> sh_pipe s = [] \<and> sh_out s = []) \<and>
     (\<forall>i l. answer_of (sh_phase s i) = Some l \<longrightarrow> l = ans (req i))"

lemma serial_inv_fresh: "serial_inv n req ans fresh"
  by (simp add: serial_inv_def fresh_def)

lemma serial_invD:
  assumes "serial_inv n req ans s"
  shows "n \<le> i \<Longrightarrow> sh_phase s i = Absent"
    "\<not> left (sh_phase s i) \<Longrightarrow> \<not> left (sh_phase s j) \<Longrightarrow> i = j"
    "abandoned (sh_phase s i) \<Longrightarrow> sh_closed s"
    "abandoned (sh_phase s i) \<Longrightarrow> j \<noteq> i \<Longrightarrow> left (sh_phase s j)"
    "pipes_at ans (req i) (sh_phase s i) (sh_pipe s) (sh_out s)"
    "(\<And>i. left (sh_phase s i)) \<Longrightarrow> \<not> sh_closed s \<Longrightarrow> sh_pipe s = [] \<and> sh_out s = []"
    "answer_of (sh_phase s i) = Some l \<Longrightarrow> l = ans (req i)"
  using assms unfolding serial_inv_def by blast+

lemma pipes_at_left: "left p \<Longrightarrow> pipes_at ans r p pin pout"
  by (cases p) auto

text \<open>A step of the one active handler: the others have left, and only its own entry and the pipes
  change.\<close>

lemma serial_inv_own:
  assumes inv: "serial_inv n req ans s" and i: "\<not> left (sh_phase s i)"
    and s': "sh_phase s' = (sh_phase s)(i := p)" "sh_closed s' = sh_closed s"
    and p: "pipes_at ans (req i) p (sh_pipe s') (sh_out s')"
      "left p \<Longrightarrow> \<not> sh_closed s \<Longrightarrow> sh_pipe s' = [] \<and> sh_out s' = []"
      "\<And>l. answer_of p = Some l \<Longrightarrow> l = ans (req i)" "abandoned p \<Longrightarrow> sh_closed s"
  shows "serial_inv n req ans s'"
proof -
  note d = serial_invD[OF inv]
  have o: "j \<noteq> i \<Longrightarrow> left (sh_phase s j)" for j using d(2) i by blast
  have no_exit: "j \<noteq> i \<Longrightarrow> \<not> abandoned (sh_phase s j)" for j using d(4)[of j i] i by auto
  have n: "i < n" using d(1)[of i] i by (cases "i < n") auto
  show ?thesis
    unfolding serial_inv_def s'
    using d(1) o pipes_at_left no_exit n p d(7) by (auto split: if_splits)
qed

lemma next_line_own:
  assumes "CHR 0x0A \<notin> set r"
  shows "next_line (r @ CHR 0x0A # t) = Some (r, t)"
proof -
  have "\<forall>c\<in>set r. c \<noteq> CHR 0x0A" using assms by auto
  then show ?thesis by (simp add: next_line_def takeWhile_append dropWhile_append)
qed

lemma next_line_none: "CHR 0x0A \<notin> set r \<Longrightarrow> next_line r = None"
  by (simp add: next_line_def)

lemma serial_inv_step:
  assumes inv: "serial_inv n req ans s" and al: "alone n l s" and st: "act req ans l s = Some s'"
    and nl: "\<And>i. CHR 0x0A \<notin> set (req i)"
  shows "serial_inv n req ans s'"
proof (cases l)
  case (Check i)
  note d = serial_invD[OF inv]
  have i: "i < n" "sh_phase s i = Absent" "\<not> sh_closed s" "s' = at_phase i Checked s"
    using st al Check by (auto simp: alone_def split: if_splits)
  have o: "left (sh_phase s j)" for j
    using al Check d(1)[of j] by (cases "j < n") (auto simp: alone_def list_all_iff)
  have e: "sh_pipe s = []" "sh_out s = []" using d(6) o i(3) by auto
  have no_exit: "\<not> abandoned (sh_phase s j)" for j using d(3) i(3) by blast
  show ?thesis
    unfolding serial_inv_def i(4) using d(1,7) o pipes_at_left no_exit i e by auto
next
  case (Enter i)
  with st have i: "sh_phase s i = Checked" "s' = at_phase i MarksReset (s\<lparr>sh_marks := marks_reset (sh_marks s)\<rparr>)"
    by (auto split: if_splits)
  show ?thesis by (rule serial_inv_own[OF inv, of i _ MarksReset]) (use i serial_invD(5)[OF inv, of i] in auto)
next
  case (WriteBody i)
  with st have i: "sh_phase s i = MarksReset" "s' = at_phase i Wrote (s\<lparr>sh_pipe := sh_pipe s @ req i\<rparr>)"
    by (auto split: if_splits)
  show ?thesis by (rule serial_inv_own[OF inv, of i _ Wrote]) (use i serial_invD(5)[OF inv, of i] in auto)
next
  case (WriteNewline i)
  with st have i: "sh_phase s i = Wrote" "s' = at_phase i InSelect (s\<lparr>sh_pipe := sh_pipe s @ [CHR 0x0A]\<rparr>)"
    by (auto split: if_splits)
  show ?thesis by (rule serial_inv_own[OF inv, of i _ InSelect]) (use i serial_invD(5)[OF inv, of i] in auto)
next
  case (Take i)
  with st obtain x ls where i: "sh_out s = x # ls" "sh_phase s i = InSelect" "s' = at_phase i (Answered x) (s\<lparr>sh_out := ls\<rparr>)"
    by (auto split: if_splits list.splits)
  show ?thesis by (rule serial_inv_own[OF inv, of i _ "Answered x"]) (use i serial_invD(5)[OF inv, of i] in auto)
next
  case (SeeExit i)
  with st have i: "sh_phase s i = InSelect" "sh_closed s" "s' = at_phase i ByExit s" by (auto split: if_splits)
  show ?thesis by (rule serial_inv_own[OF inv, of i _ ByExit]) (use i in auto)
next
  case (ReadMarks i)
  note d = serial_invD[OF inv]
  from ReadMarks st consider l where "sh_phase s i = Answered l" "s' = at_phase i (Gone (Some l) (sh_marks s)) s"
    | "sh_phase s i = ByExit" "s' = at_phase i (Gone None (sh_marks s)) s"
    by (auto split: phase.splits)
  then show ?thesis
  proof cases
    case 1
    then show ?thesis
      by (intro serial_inv_own[OF inv, of i _ "Gone (Some l) (sh_marks s)"]) (use d(5,7)[of i] in auto)
  next
    case 2
    then show ?thesis
      by (intro serial_inv_own[OF inv, of i _ "Gone None (sh_marks s)"]) (use d(3)[of i] in auto)
  qed
next
  case (Drop i)
  with st obtain x ls where i: "abandoned (sh_phase s i)" "s' = s\<lparr>sh_out := ls\<rparr>" by (auto split: if_splits list.splits)
  note d = serial_invD[OF inv]
  have "sh_closed s" "\<And>j. j \<noteq> i \<Longrightarrow> left (sh_phase s j)" using d(3,4) i(1) by blast+
  moreover have "pipes_at ans (req i) (sh_phase s i) pin pout" for pin pout using i(1) by (cases "sh_phase s i") auto
  ultimately have "pipes_at ans (req j) (sh_phase s j) pin pout" for j pin pout using pipes_at_left by (cases "j = i") auto
  with inv show ?thesis by (auto simp: serial_inv_def i(2) \<open>sh_closed s\<close>)
next
  case Serve
  with st obtain x rest where x: "next_line (sh_pipe s) = Some (x, rest)" "\<not> sh_closed s"
    "s' = s\<lparr>sh_pipe := rest, sh_out := sh_out s @ [ans x]\<rparr>" by (auto split: if_splits)
  note d = serial_invD[OF inv]
  have "\<exists>i. \<not> left (sh_phase s i)" using d(6) x(1,2) next_line_none[of "[]"] by (cases "\<forall>i. left (sh_phase s i)") auto
  then obtain i where i: "\<not> left (sh_phase s i)" by blast
  have "sh_phase s i = InSelect \<and> sh_pipe s = req i @ [CHR 0x0A] \<and> sh_out s = []"
    using d(5)[of i] d(3)[of i] i x(1,2) next_line_none[OF nl[of i]] next_line_none[of "[]"] by (cases "sh_phase s i") auto
  moreover from this have "x = req i" "rest = []" using x(1) next_line_own[OF nl[of i], of "[]"] by auto
  ultimately show ?thesis
    by (intro serial_inv_own[OF inv i, of _ InSelect]) (auto simp: x(3))
next
  case ExitProcess
  with st have "s' = s\<lparr>sh_closed := True\<rparr>" by (auto split: if_splits)
  with inv show ?thesis by (auto simp: serial_inv_def)
next
  case (Mark i u)
  with st have "\<exists>m. s' = s\<lparr>sh_marks := m\<rparr>" by (auto split: if_splits)
  with inv show ?thesis by (auto simp: serial_inv_def)
qed

lemma serial_reaches_inv:
  "reach (alone n) req ans ls s \<Longrightarrow> (\<And>i. CHR 0x0A \<notin> set (req i)) \<Longrightarrow> serial_inv n req ans s"
  by (induction rule: reach.induct) (auto intro: serial_inv_fresh serial_inv_step)

text \<open>The marks an activation has written since its own reset.\<close>

fun own_mark :: "nat \<Rightarrow> label \<Rightarrow> freezeMarks \<Rightarrow> freezeMarks" where
  "own_mark i (Enter j) m = (if j = i then marks_reset m else m)"
| "own_mark i (Mark j u) m = (if j = i then marks_op u m else m)"
| "own_mark i _ m = m"

definition own_marks :: "nat \<Rightarrow> label list \<Rightarrow> freezeMarks" where
  "own_marks i ls = fold (own_mark i) ls []"

lemma own_marks_snoc: "own_marks i (ls @ [l]) = own_mark i l (own_marks i ls)"
  by (simp add: own_marks_def)

text \<open>The marks a handler sees: those of the executor while it is between its reset and its reading, those it read
  afterwards.\<close>

definition marks_seen :: "shared \<Rightarrow> nat \<Rightarrow> freezeMarks option" where
  "marks_seen s i = (case sh_phase s i of
     Absent \<Rightarrow> None | Checked \<Rightarrow> None | Gone _ m \<Rightarrow> Some m | _ \<Rightarrow> Some (sh_marks s))"

lemma serial_own_marks:
  assumes "reach (alone n) req ans ls s" "\<And>i. CHR 0x0A \<notin> set (req i)"
  shows "marks_seen s i = Some m \<Longrightarrow> m = own_marks i ls"
  using assms
proof (induction arbitrary: i m rule: reach.induct)
  case start
  then show ?case by (simp add: fresh_def marks_seen_def)
next
  case (step ls s l s')
  note uniq = serial_invD(2)[OF serial_reaches_inv[OF step.hyps(1) step.prems(2)]]
  have IH: "marks_seen s i = Some m \<Longrightarrow> m = own_marks i ls" for i m using step.IH step.prems(2) by blast
  note st = step.hyps(3) and seen = step.prems(1)
  show ?case
  proof (cases l)
    case (Enter j)
    then have j: "sh_phase s j = Checked" "s' = at_phase j MarksReset (s\<lparr>sh_marks := marks_reset (sh_marks s)\<rparr>)"
      using st by (auto split: if_splits)
    have "i = j \<or> (\<exists>a. sh_phase s i = Gone a m)" using seen j uniq[of i j]
      by (cases "i = j"; cases "sh_phase s i") (auto simp: marks_seen_def)
    then show ?thesis using j Enter seen IH[of i m]
      by (auto simp: own_marks_snoc marks_reset_def marks_seen_def)
  next
    case (Mark j u)
    then have j: "has_monitor (sh_phase s j)" "s' = s\<lparr>sh_marks := marks_op u (sh_marks s)\<rparr>" using st by (auto split: if_splits)
    then have "i = j \<or> (\<exists>a. sh_phase s i = Gone a m)" using seen uniq[of i j]
      by (cases "sh_phase s i"; cases "sh_phase s j") (auto simp: marks_seen_def)
    then show ?thesis using Mark j seen IH[of i]
      by (cases "sh_phase s i") (auto simp: own_marks_snoc marks_seen_def)
  qed (use st seen IH[of i m] in
        \<open>auto simp: own_marks_snoc marks_seen_def split: if_splits list.splits phase.splits\<close>)
qed

text \<open>Every answer is made once and delivered once: those delivered, those waiting and those taken by
  abandoned readers are as many as the process has written.\<close>

definition answered :: "shared \<Rightarrow> nat set" where
  "answered s = {i. answer_of (sh_phase s i) \<noteq> None}"

fun is_drop :: "label \<Rightarrow> bool" where
  "is_drop (Drop _) \<longleftrightarrow> True"
| "is_drop _ \<longleftrightarrow> False"

lemma answered_at_phase:
  "answered (at_phase i p s) = (if answer_of p = None then answered s - {i} else insert i (answered s))"
  by (auto simp: answered_def)

lemma answered_upd [simp]:
  "answered (s\<lparr>sh_marks := m\<rparr>) = answered s" "answered (s\<lparr>sh_pipe := q\<rparr>) = answered s" "answered (s\<lparr>sh_out := o'\<rparr>) = answered s"
  "answered (s\<lparr>sh_closed := b\<rparr>) = answered s" "answered (s\<lparr>sh_pipe := q, sh_out := o'\<rparr>) = answered s"
  by (simp_all add: answered_def)

lemma answers_counted:
  "reach g req ans ls s \<Longrightarrow> finite (answered s) \<and>
     card (answered s) + length (sh_out s) + length (filter is_drop ls) = length (filter (\<lambda>l. l = Serve) ls)"
proof (induction rule: reach.induct)
  case start
  then show ?case by (simp add: fresh_def answered_def)
next
  case (step ls s l s')
  have out: "i \<in> answered s \<longleftrightarrow> answer_of (sh_phase s i) \<noteq> None" for i by (simp add: answered_def)
  show ?case
    using step by (cases l) (auto simp: answered_at_phase out insert_absorb split: if_splits list.splits phase.splits)
qed

section \<open>Properties\<close>

text \<open>C11: one activation at a time, and requests without a newline in them, every handler leaves
  \<^verbatim>\<open>Interact\<close> with the answer to its own request, or without one and then the process has exited; the marks it reads are exactly
  those of its own pauses.\<close>

theorem one_at_a_time_own_answer:
  assumes "reach (alone n) req ans ls s" "\<And>i. CHR 0x0A \<notin> set (req i)" "sh_phase s i = Gone a m"
  shows "(a = Some (ans (req i)) \<or> a = None \<and> sh_closed s) \<and> m = own_marks i ls"
proof -
  note d = serial_invD[OF serial_reaches_inv[OF assms(1,2)]]
  have "m = own_marks i ls" using serial_own_marks[OF assms(1,2)] assms(3) by (simp add: marks_seen_def)
  with d(3,7)[of i] assms(3) show ?thesis by (cases a) auto
qed

definition two_requests :: "nat \<Rightarrow> string" where
  "two_requests i = (if i = 0 then ''first'' else ''second'')"

definition reply_to :: "string \<Rightarrow> string" where
  "reply_to l = ''re:'' @ l"

definition turn :: "nat \<Rightarrow> label list" where
  "turn i = [Check i, Enter i, WriteBody i, WriteNewline i, Mark i (OpClose 7 zero_snapshot), Mark i (OpOpen 9 zero_snapshot),
     Serve, Take i, ReadMarks i]"

lemma two_requests_plain: "CHR 0x0A \<notin> set (two_requests i)"
  by (simp add: two_requests_def)

lemmas shared_run =
  reach_run run_labels.simps fresh_def two_requests_def reply_to_def turn_def alone_def left_def at_phase_def next_line_def
  marks_reset_def

theorem one_at_a_time_own_answer_witness:
  "case run_labels (alone 2) two_requests reply_to (turn 0 @ turn 1) fresh of None \<Rightarrow> False
   | Some s \<Rightarrow> (case sh_phase s 1 of Gone a m \<Rightarrow> a = Some ''re:second'' \<and> m = own_marks 1 (turn 0 @ turn 1) \<and> length m = 1 | _ \<Rightarrow> False)"
proof -
  obtain s m where r: "run_labels (alone 2) two_requests reply_to (turn 0 @ turn 1) fresh = Some s"
    and p: "sh_phase s 1 = Gone (Some ''re:second'') m" and "length m = 1"
    by (simp add: shared_run upt_rec noteFreeze_def noteResume_def)
  from r have "reach (alone 2) two_requests reply_to (turn 0 @ turn 1) s" by (simp only: reach_run)
  from one_at_a_time_own_answer[OF this two_requests_plain p]
  show ?thesis using r p \<open>length m = 1\<close> by simp
qed

text \<open>C18: closing the channel frees every waiter. Once the process has exited, all the handlers in their
  select leave it, in any order and with none consuming the signal of another, and nobody else is touched.\<close>

theorem exit_frees_every_waiter:
  assumes "sh_closed s" "distinct ws" "\<forall>i\<in>set ws. sh_phase s i = InSelect"
  shows "run_labels anyone req ans (map SeeExit ws) s =
    Some (s\<lparr>sh_phase := \<lambda>i. if i \<in> set ws then ByExit else sh_phase s i\<rparr>)"
  using assms
proof (induction ws arbitrary: s)
  case (Cons w ws)
  have "run_labels anyone req ans (map SeeExit ws) (at_phase w ByExit s) =
      Some ((at_phase w ByExit s)\<lparr>sh_phase := \<lambda>i. if i \<in> set ws then ByExit else sh_phase (at_phase w ByExit s) i\<rparr>)"
    using Cons.prems by (intro Cons.IH) auto
  moreover have "(\<lambda>i. if i \<in> set ws then ByExit else ((sh_phase s)(w := ByExit)) i) =
      (\<lambda>i. if i \<in> set (w # ws) then ByExit else sh_phase s i)" by auto
  ultimately have "run_labels anyone req ans (map SeeExit ws) (at_phase w ByExit s) =
      Some ((at_phase w ByExit s)\<lparr>sh_phase := \<lambda>i. if i \<in> set (w # ws) then ByExit else sh_phase s i\<rparr>)"
    unfolding at_phase_sel by (simp only:)
  moreover have "run_labels anyone req ans (map SeeExit (w # ws)) s = run_labels anyone req ans (map SeeExit ws) (at_phase w ByExit s)"
    using Cons.prems by simp
  moreover have "(at_phase w ByExit s)\<lparr>sh_phase := f\<rparr> = s\<lparr>sh_phase := f\<rparr>" for f by (simp add: at_phase_def)
  ultimately show ?case by (simp only:)
qed simp

definition three_waiting :: shared where
  "three_waiting = \<lparr>sh_pipe = [], sh_out = [], sh_closed = True, sh_marks = [], sh_phase = (\<lambda>i. if i < 3 then InSelect else Absent)\<rparr>"

theorem exit_frees_every_waiter_witness:
  "map_option (\<lambda>s. map (sh_phase s) [0..<4]) (run_labels anyone two_requests reply_to (map SeeExit [2, 0, 1]) three_waiting) =
     Some [ByExit, ByExit, ByExit, Absent]"
proof -
  have "run_labels anyone two_requests reply_to (map SeeExit [2, 0, 1]) three_waiting =
      Some (three_waiting\<lparr>sh_phase := \<lambda>i. if i \<in> set [2, 0, 1] then ByExit else sh_phase three_waiting i\<rparr>)"
    by (rule exit_frees_every_waiter) (simp_all add: three_waiting_def)
  then show ?thesis by (simp add: three_waiting_def upt_rec)
qed

text \<open>Three schedules of two handlers.\<close>

definition crossed :: "nat \<Rightarrow> nat \<Rightarrow> label list" where
  "crossed i j = [Check i, Enter i, WriteBody i, WriteNewline i, Check j, Enter j, WriteBody j, WriteNewline j,
     Serve, Serve, Take j, Take i]"

definition merged :: "nat \<Rightarrow> nat \<Rightarrow> label list" where
  "merged i j = [Check i, Check j, Enter i, Enter j, WriteBody i, WriteBody j, WriteNewline j, WriteNewline i,
     Serve, Serve, Take i, Take j]"

definition erased :: "nat \<Rightarrow> nat \<Rightarrow> label list" where
  "erased i j = [Check i, Check j, Enter i, WriteBody i, WriteNewline i, Mark i (OpClose 7 zero_snapshot),
     Mark i (OpOpen 9 zero_snapshot), Enter j, Serve, Take i, ReadMarks i]"

text \<open>C17: with two activations at once neither the answers nor the marks are safe: there are runs in which
  each handler gets the other's answer; in which the two requests reach the process as one line, whose answer goes to one
  handler while the other gets the answer to an empty line; and in which a handler that was paused and resumed reads no marks at
  all, the other one's \<^verbatim>\<open>marks.reset\<close> having erased them.\<close>

theorem shared_executor_mixes:
  assumes "i \<noteq> j" "CHR 0x0A \<notin> set (req i)" "CHR 0x0A \<notin> set (req j)"
  shows "(\<exists>s. reach anyone req ans (crossed i j) s \<and>
            sh_phase s i = Answered (ans (req j)) \<and> sh_phase s j = Answered (ans (req i))) \<and>
         (\<exists>s. reach anyone req ans (merged i j) s \<and>
            sh_phase s i = Answered (ans (req i @ req j)) \<and> sh_phase s j = Answered (ans [])) \<and>
         (\<exists>s. reach anyone req ans (erased i j) s \<and>
            sh_phase s i = Gone (Some (ans (req i))) [] \<and> own_marks i (erased i j) \<noteq> [])"
proof (intro conjI)
  note nl = next_line_own[OF assms(2)] next_line_own[OF assms(3)] next_line_own[of "[]" "[]", simplified]
    next_line_own[of "req i @ req j", simplified]
  show "\<exists>s. reach anyone req ans (crossed i j) s \<and>
            sh_phase s i = Answered (ans (req j)) \<and> sh_phase s j = Answered (ans (req i))"
    using assms by (simp add: reach_run crossed_def fresh_def at_phase_def nl)
  show "\<exists>s. reach anyone req ans (merged i j) s \<and>
            sh_phase s i = Answered (ans (req i @ req j)) \<and> sh_phase s j = Answered (ans [])"
    using assms by (simp add: reach_run merged_def fresh_def at_phase_def nl)
  show "\<exists>s. reach anyone req ans (erased i j) s \<and>
            sh_phase s i = Gone (Some (ans (req i))) [] \<and> own_marks i (erased i j) \<noteq> []"
    using assms by (simp add: reach_run erased_def fresh_def at_phase_def nl own_marks_def marks_reset_def noteFreeze_def noteResume_def)
qed

theorem shared_executor_mixes_witness:
  "(\<exists>s. reach anyone two_requests reply_to (crossed 0 1) s \<and>
      sh_phase s 0 = Answered ''re:second'' \<and> sh_phase s 1 = Answered ''re:first'') \<and>
   (\<exists>s. reach anyone two_requests reply_to (merged 0 1) s \<and>
      sh_phase s 0 = Answered ''re:firstsecond'' \<and> sh_phase s 1 = Answered ''re:'')"
  using shared_executor_mixes[of 0 1 two_requests reply_to] by (simp add: two_requests_def reply_to_def)

text \<open>C16: the controller is shared too. While one activation is paused, another one that reaches its own
  threshold cannot freeze (the state is not \<^verbatim>\<open>RUNNING\<close>), takes that for a failed freeze and, unless its own class
  forbids it, kills the process; the paused activation, whatever its class, can then not be resumed.\<close>

theorem second_activation_kills_paused_one:
  assumes "acState (mctl m) = StateFrozen" "lastPauseID (mctl m) = p" "newPauseID (cy_random io) (cy_nano io) \<noteq> p"
    and "\<not> isNonInterruptibleForThisStep (Some energy)"
    and "killExecution h (newPauseID (cy_random io) (cy_nano io)) (k_io (cy_kill io)) (mctl m) = Some (None, fx, a)"
  shows "\<exists>m'. runPauseCycle h c io energy name step det at_j m = Returned (Fin 0, True, newPauseID (cy_random io) (cy_nano io)) m' \<and>
    MCgroup (CgWrite ''cgroup.kill'' ''1'') \<in> set (mfx m') \<and> acState (mctl m') = StateStopped \<and>
    resumeExecution h p rio (mctl m') = Some (Some (newTransitionError ''resume'' StateStopped p NeedsFrozen), [], mctl m')"
proof -
  have "acState a = StateStopped" "CgWrite ''cgroup.kill'' ''1'' \<in> set fx"
    using assms(1,5) by (auto simp: killExecution_def ac_stopped_def Let_def split: option.splits if_splits)
  with assms show ?thesis
    by (auto simp: runPauseCycle_def Let_def freezeExecution_def kill_and_end_def kill_now_def end_cycle_def resumeExecution_def)
qed

theorem second_activation_kills_paused_one_witness:
  "\<exists>m'. runPauseCycle bare_host cfg_example (act_cycle []) (act_energy ''tts'') ''tts'' (Fin 90) 0 (Fin 90)
      (act_mon\<lparr>mctl := frozen_controller\<rparr>) = Returned (Fin 0, True, ''pause-'') m' \<and> acState (mctl m') = StateStopped"
proof -
  have id: "newPauseID (cy_random (act_cycle [])) (cy_nano (act_cycle [])) = ''pause-''" by code_simp
  have "\<not> isNonInterruptibleForThisStep (Some (act_energy ''tts''))" by code_simp
  moreover have "killExecution bare_host ''pause-'' (k_io (cy_kill (act_cycle []))) (mctl (act_mon\<lparr>mctl := frozen_controller\<rparr>)) =
      Some (None, [CgWrite ''cgroup.kill'' ''1''], frozen_controller\<lparr>acState := StateStopped, acWaiter := Some None, lastPauseID := ''pause-''\<rparr>)"
    by code_simp
  ultimately show ?thesis
    using second_activation_kills_paused_one[of "act_mon\<lparr>mctl := frozen_controller\<rparr>" "''p1''" "act_cycle []"] id
    by (fastforce simp: frozen_controller_def)
qed

end
