(* ===== verification/AtomicExecutor.thy ===== *)
theory AtomicExecutor
  imports SharedExecutor
begin

text \<open>
  What an executor promises the handlers that use it one at a time, and that it keeps the promise: an abstract server
  without pipes, lines and phases, to which the interleaved steps of \<^verbatim>\<open>SharedExecutor\<close> are refined, and whose
  outcomes are exactly those of the executor.
\<close>

section \<open>Partial steps and forward simulation\<close>

text \<open>Runs of a partial step function, and the contract of a simulation with silent steps: a step that shows
  is answered by one matching event of the abstract side, any other by none. A run then has a matching
  run of the abstract side, its events those of the steps that show, in their order.\<close>

fun steps :: "('l \<Rightarrow> 's \<Rightarrow> 's option) \<Rightarrow> 'l list \<Rightarrow> 's \<Rightarrow> 's option" where
  "steps f [] s = Some s"
| "steps f (l # ls) s = Option.bind (f l s) (steps f ls)"

lemma steps_append: "steps f (ls @ ms) s = Option.bind (steps f ls s) (steps f ms)"
  by (induction ls arbitrary: s) (auto split: Option.bind_splits)

locale forward_simulation =
  fixes R :: "'c \<Rightarrow> 'a \<Rightarrow> bool"
    and cact :: "'l \<Rightarrow> 'c \<Rightarrow> 'c option"
    and aact :: "'e \<Rightarrow> 'a \<Rightarrow> 'a option"
    and shows_as :: "'l \<Rightarrow> 'e \<Rightarrow> bool"
    and silent :: "'l \<Rightarrow> bool"
  assumes silent_step: "R c a \<Longrightarrow> cact l c = Some c' \<Longrightarrow> silent l \<Longrightarrow> R c' a"
    and shown_step: "R c a \<Longrightarrow> cact l c = Some c' \<Longrightarrow> \<not> silent l \<Longrightarrow> \<exists>e a'. shows_as l e \<and> aact e a = Some a' \<and> R c' a'"
begin

lemma simulated:
  assumes "R c a" "steps cact ls c = Some c'"
  shows "\<exists>es a'. steps aact es a = Some a' \<and> R c' a' \<and> list_all2 shows_as (filter (\<lambda>l. \<not> silent l) ls) es"
  using assms
proof (induction ls arbitrary: c a)
  case Nil
  then show ?case by (auto intro: exI[of _ "[]"])
next
  case (Cons l ls)
  then obtain c1 where c1: "cact l c = Some c1" "steps cact ls c1 = Some c'" by (auto split: Option.bind_splits)
  show ?case
  proof (cases "silent l")
    case True
    then show ?thesis using Cons.IH[OF silent_step[OF Cons.prems(1) c1(1)] c1(2)] by simp
  next
    case False
    then obtain e a1 where e: "shows_as l e" "aact e a = Some a1" "R c1 a1" using shown_step[OF Cons.prems(1) c1(1)] by blast
    obtain es a' where "steps aact es a1 = Some a'" "R c' a'" "list_all2 shows_as (filter (\<lambda>l. \<not> silent l) ls) es"
      using Cons.IH[OF e(3) c1(2)] by blast
    with e False show ?thesis by (intro exI[of _ "e # es"] exI[of _ a']) simp
  qed
qed

end

section \<open>The atomic server\<close>

text \<open>The server has at most one caller, with the marks of its pauses so far, and the callers that have left,
  each with its answer, if any, and its marks. A caller comes in once, while the process lives and nobody else is in; it
  leaves with the answer to its own request, or without one when the process is gone.\<close>

record server =
  sv_alive :: bool
  sv_turn :: "(nat \<times> freezeMarks) option"
  sv_left :: "(nat \<times> string option \<times> freezeMarks) list"

definition server0 :: server where
  "server0 = \<lparr>sv_alive = True, sv_turn = None, sv_left = []\<rparr>"

datatype event = Begin nat | Noted seg_op | Reply | Abandon | Die

definition leave :: "string option \<Rightarrow> server \<Rightarrow> server option" where
  "leave x a = map_option (\<lambda>(i, m). a\<lparr>sv_turn := None, sv_left := (i, x, m) # sv_left a\<rparr>) (sv_turn a)"

fun atomic :: "nat \<Rightarrow> (nat \<Rightarrow> string) \<Rightarrow> (string \<Rightarrow> string) \<Rightarrow> event \<Rightarrow> server \<Rightarrow> server option" where
  "atomic n req ans (Begin i) a =
     (if sv_alive a \<and> sv_turn a = None \<and> i < n \<and> i \<notin> fst ` set (sv_left a) then Some (a\<lparr>sv_turn := Some (i, [])\<rparr>) else None)"
| "atomic n req ans (Noted u) a = map_option (\<lambda>(i, m). a\<lparr>sv_turn := Some (i, marks_op u m)\<rparr>) (sv_turn a)"
| "atomic n req ans Reply a = Option.bind (sv_turn a) (\<lambda>(i, m). leave (Some (ans (req i))) a)"
| "atomic n req ans Abandon a = (if sv_alive a then None else leave None a)"
| "atomic n req ans Die a = (if sv_alive a then Some (a\<lparr>sv_alive := False\<rparr>) else None)"

text \<open>The steps of the executor that show, and as which event. The others move bytes.\<close>

fun silent_label :: "label \<Rightarrow> bool" where
  "silent_label (Check _) \<longleftrightarrow> False"
| "silent_label (Mark _ _) \<longleftrightarrow> False"
| "silent_label (ReadMarks _) \<longleftrightarrow> False"
| "silent_label ExitProcess \<longleftrightarrow> False"
| "silent_label _ \<longleftrightarrow> True"

fun seen_as :: "label \<Rightarrow> event \<Rightarrow> bool" where
  "seen_as (Check i) e \<longleftrightarrow> e = Begin i"
| "seen_as (Mark i u) e \<longleftrightarrow> e = Noted u"
| "seen_as (ReadMarks i) e \<longleftrightarrow> e = Reply \<or> e = Abandon"
| "seen_as ExitProcess e \<longleftrightarrow> e = Die"
| "seen_as _ e \<longleftrightarrow> False"

text \<open>What a handler has left with, on either side.\<close>

definition outcomes :: "shared \<Rightarrow> nat \<rightharpoonup> string option \<times> freezeMarks" where
  "outcomes s i = (case sh_phase s i of Gone x m \<Rightarrow> Some (x, m) | _ \<Rightarrow> None)"

section \<open>The simulation\<close>

definition serial_act :: "nat \<Rightarrow> (nat \<Rightarrow> string) \<Rightarrow> (string \<Rightarrow> string) \<Rightarrow> label \<Rightarrow> shared \<Rightarrow> shared option" where
  "serial_act n req ans l s = (if alone n l s then act req ans l s else None)"

lemma steps_serial: "steps (serial_act n req ans) ls s = run_labels (alone n) req ans ls s"
  by (induction ls arbitrary: s) (auto simp: serial_act_def split: Option.bind_splits)

text \<open>The caller of the server is the handler that has not left; its marks are those on the executor,
  once it has reset them.\<close>

definition caller :: "shared \<Rightarrow> nat \<Rightarrow> freezeMarks option" where
  "caller s i = (if left (sh_phase s i) then None else Some (if sh_phase s i = Checked then [] else sh_marks s))"

definition server_rel :: "nat \<Rightarrow> (nat \<Rightarrow> string) \<Rightarrow> (string \<Rightarrow> string) \<Rightarrow> shared \<Rightarrow> server \<Rightarrow> bool" where
  "server_rel n req ans s a \<longleftrightarrow> serial_inv n req ans s \<and> (\<forall>i. CHR 0x0A \<notin> set (req i)) \<and>
     sv_alive a = (\<not> sh_closed s) \<and> (\<forall>i m. sv_turn a = Some (i, m) \<longleftrightarrow> caller s i = Some m) \<and> map_of (sv_left a) = outcomes s"

lemma server_rel_fresh: "(\<And>i. CHR 0x0A \<notin> set (req i)) \<Longrightarrow> server_rel n req ans fresh server0"
  using serial_inv_fresh by (auto simp: server_rel_def server0_def caller_def outcomes_def fresh_def fun_eq_iff)

lemma server_relD:
  assumes "server_rel n req ans s a"
  shows "serial_inv n req ans s" "CHR 0x0A \<notin> set (req i)" "sv_alive a = (\<not> sh_closed s)"
    "sv_turn a = Some (i, m) \<longleftrightarrow> caller s i = Some m" "map_of (sv_left a) = outcomes s"
  using assms by (simp_all add: server_rel_def)

lemma server_rel_step:
  assumes "server_rel n req ans s a" "serial_act n req ans l s = Some s'"
  shows "server_rel n req ans s' a' \<longleftrightarrow>
     sv_alive a' = (\<not> sh_closed s') \<and> (\<forall>i m. sv_turn a' = Some (i, m) \<longleftrightarrow> caller s' i = Some m) \<and> map_of (sv_left a') = outcomes s'"
proof -
  have "serial_inv n req ans s'"
    using serial_inv_step[OF server_relD(1)[OF assms(1)], of l s'] server_relD(2)[OF assms(1)] assms(2)
    by (auto simp: serial_act_def split: if_splits)
  then show ?thesis using server_relD(2)[OF assms(1)] by (simp add: server_rel_def)
qed


lemma outcomes_simps [simp]:
  "outcomes (s\<lparr>sh_marks := m\<rparr>) = outcomes s" "outcomes (s\<lparr>sh_pipe := q\<rparr>) = outcomes s" "outcomes (s\<lparr>sh_out := o'\<rparr>) = outcomes s"
  "outcomes (s\<lparr>sh_closed := b\<rparr>) = outcomes s" "outcomes (s\<lparr>sh_pipe := q, sh_out := o'\<rparr>) = outcomes s"
  "outcomes (at_phase i p s) = (outcomes s)(i := (case p of Gone x m \<Rightarrow> Some (x, m) | _ \<Rightarrow> None))"
  by (auto simp: outcomes_def fun_eq_iff)

lemma caller_same:
  "sh_phase s' = sh_phase s \<Longrightarrow> sh_marks s' = sh_marks s \<Longrightarrow> caller s' = caller s"
  by (simp add: caller_def fun_eq_iff)

lemma caller_own:
  assumes "serial_inv n req ans s" "\<not> left (sh_phase s i)" "sh_phase s' = (sh_phase s)(i := p)" "\<not> left p" "p \<noteq> Checked"
    and "sh_marks s' = (if sh_phase s i = Checked then [] else sh_marks s)"
  shows "caller s' = caller s"
proof
  fix j
  have "j = i \<or> left (sh_phase s j)" using serial_invD(2)[OF assms(1)] assms(2) by blast
  then show "caller s' j = caller s j" using assms(2-6) by (auto simp: caller_def)
qed

lemma silent_caller:
  assumes inv: "serial_inv n req ans s" and st: "act req ans l s = Some s'" and l: "silent_label l"
  shows "caller s' = caller s"
proof (cases l)
  case (Enter i)
  with st show ?thesis by (intro caller_own[OF inv, of i _ MarksReset]) (auto simp: marks_reset_def split: if_splits)
next
  case (WriteBody i)
  with st show ?thesis by (intro caller_own[OF inv, of i _ Wrote]) (auto split: if_splits)
next
  case (WriteNewline i)
  with st show ?thesis by (intro caller_own[OF inv, of i _ InSelect]) (auto split: if_splits)
next
  case (Take i)
  with st obtain x xs where "sh_phase s i = InSelect" "s' = at_phase i (Answered x) (s\<lparr>sh_out := xs\<rparr>)"
    by (auto split: list.splits if_splits)
  then show ?thesis by (intro caller_own[OF inv, of i _ "Answered x"]) auto
next
  case (SeeExit i)
  with st show ?thesis by (intro caller_own[OF inv, of i _ ByExit]) (auto split: if_splits)
next
  case (Drop i)
  with st show ?thesis by (intro caller_same) (auto split: list.splits if_splits)
next
  case Serve
  with st show ?thesis by (intro caller_same) (auto split: if_splits)
qed (use l in auto)

lemma silent_outcomes:
  assumes "act req ans l s = Some s'" "silent_label l"
  shows "outcomes s' = outcomes s" "sh_closed s' = sh_closed s"
  using assms by (cases l; auto simp: outcomes_def fun_eq_iff split: if_splits list.splits)+

lemma server_silent:
  "server_rel n req ans s a \<Longrightarrow> serial_act n req ans l s = Some s' \<Longrightarrow> silent_label l \<Longrightarrow> server_rel n req ans s' a"
  using silent_caller[of n req ans s l s'] silent_outcomes[of req ans l s s'] server_rel_step[of n req ans s a l s' a] server_relD[of n req ans s a]
  by (auto simp: serial_act_def split: if_splits)

lemma server_turn:
  assumes "server_rel n req ans s a" "\<not> left (sh_phase s i)"
  shows "sv_turn a = Some (i, if sh_phase s i = Checked then [] else sh_marks s)"
  using server_relD(4)[OF assms(1)] assms(2) by (simp add: caller_def)

lemma server_alone:
  assumes "server_rel n req ans s a" "\<not> left (sh_phase s i)" "j \<noteq> i"
  shows "left (sh_phase s j)"
  using serial_invD(2)[OF server_relD(1)[OF assms(1)]] assms(2,3) by blast

lemma server_one:
  "server_rel n req ans s a \<Longrightarrow> \<not> left (sh_phase s i) \<Longrightarrow> left (sh_phase s j) \<longleftrightarrow> j \<noteq> i"
  using server_alone by blast

lemma server_begin:
  assumes R: "server_rel n req ans s a" and st: "serial_act n req ans (Check i) s = Some s'"
  shows "atomic n req ans (Begin i) a = Some (a\<lparr>sv_turn := Some (i, [])\<rparr>)" "server_rel n req ans s' (a\<lparr>sv_turn := Some (i, [])\<rparr>)"
proof -
  note d = server_relD[OF R]
  have i: "i < n" "sh_phase s i = Absent" "\<not> sh_closed s" "s' = at_phase i Checked s" "alone n (Check i) s"
    using st by (auto simp: serial_act_def alone_def split: if_splits)
  have o: "left (sh_phase s j)" for j
    using i(5) serial_invD(1)[OF d(1), of j] by (cases "j < n") (auto simp: alone_def list_all_iff)
  have t: "sv_turn a = None" using d(4) o by (cases "sv_turn a") (auto simp: caller_def)
  have "map_of (sv_left a) i = None" using d(5) i(2) by (simp add: outcomes_def)
  then have "i \<notin> fst ` set (sv_left a)" by (simp add: map_of_eq_None_iff)
  then show "atomic n req ans (Begin i) a = Some (a\<lparr>sv_turn := Some (i, [])\<rparr>)" using i t d(3) by simp
  show "server_rel n req ans s' (a\<lparr>sv_turn := Some (i, [])\<rparr>)"
    unfolding server_rel_step[OF R st] using i d(3,5) o by (auto simp: caller_def outcomes_def fun_eq_iff)
qed

lemma server_shown:
  assumes R: "server_rel n req ans s a" and st: "serial_act n req ans l s = Some s'" and l: "\<not> silent_label l"
  shows "\<exists>e a'. seen_as l e \<and> atomic n req ans e a = Some a' \<and> server_rel n req ans s' a'"
proof -
  note rel = server_rel_step[OF R st] and d = server_relD[OF R]
  have a: "act req ans l s = Some s'" using st by (auto simp: serial_act_def split: if_splits)
  show ?thesis
  proof (cases l)
    case (Check i)
    then show ?thesis using server_begin[OF R, of i s'] st by fastforce
  next
    case (ReadMarks i)
    then obtain x where x: "s' = at_phase i (Gone x (sh_marks s)) s" "\<not> left (sh_phase s i)" "sh_phase s i \<noteq> Checked"
      "sh_phase s i = ByExit \<and> x = None \<or> (\<exists>y. sh_phase s i = Answered y \<and> x = Some y)"
      using a by (auto split: phase.splits)
    let ?a = "a\<lparr>sv_turn := None, sv_left := (i, x, sh_marks s) # sv_left a\<rparr>"
    have lv: "leave x a = Some ?a" using server_turn[OF R x(2)] x(3) by (simp add: leave_def)
    have "server_rel n req ans s' ?a"
      unfolding rel using d(3,5) x(1) server_one[OF R x(2)] by (auto simp: caller_def)
    moreover have "\<exists>e. seen_as l e \<and> atomic n req ans e a = Some ?a"
      using x(4) lv d(3) server_turn[OF R x(2)] x(3) serial_invD(3,7)[OF d(1), of i] ReadMarks by fastforce
    ultimately show ?thesis by blast
  next
    case (Mark i u)
    then have i: "\<not> left (sh_phase s i)" "sh_phase s i \<noteq> Checked" "s' = s\<lparr>sh_marks := marks_op u (sh_marks s)\<rparr>"
      using a by (cases "sh_phase s i"; auto)+
    let ?a = "a\<lparr>sv_turn := Some (i, marks_op u (sh_marks s))\<rparr>"
    have "server_rel n req ans s' ?a"
      unfolding rel using d(3,5) i by (auto simp: caller_def server_one[OF R i(1)])
    moreover have "atomic n req ans (Noted u) a = Some ?a" using server_turn[OF R i(1)] i(2) by simp
    ultimately show ?thesis using Mark by fastforce
  next
    case ExitProcess
    then have i: "\<not> sh_closed s" "s' = s\<lparr>sh_closed := True\<rparr>" using a by (auto split: if_splits)
    then have "server_rel n req ans s' (a\<lparr>sv_alive := False\<rparr>)"
      unfolding rel using d by (auto simp: caller_def)
    then show ?thesis using ExitProcess i d(3) by auto
  qed (use l in auto)
qed

interpretation serial: forward_simulation "server_rel n req ans" "serial_act n req ans" "atomic n req ans" seen_as silent_label
  for n req ans
  by unfold_locales (rule server_silent server_shown; assumption)+

section \<open>Every run of the server is one of the executor\<close>

text \<open>Steps that carry out an event: a caller's request is written and answered at once, the answer waits in the
  pipe until it leaves.\<close>

fun schedule :: "event \<Rightarrow> server \<Rightarrow> label list" where
  "schedule (Begin i) a = [Check i, Enter i, WriteBody i, WriteNewline i, Serve]"
| "schedule (Noted u) a = (case sv_turn a of Some (i, _) \<Rightarrow> [Mark i u] | None \<Rightarrow> [])"
| "schedule Reply a = (case sv_turn a of Some (i, _) \<Rightarrow> [Take i, ReadMarks i] | None \<Rightarrow> [])"
| "schedule Abandon a = (case sv_turn a of Some (i, _) \<Rightarrow> [SeeExit i, ReadMarks i] | None \<Rightarrow> [])"
| "schedule Die a = [ExitProcess]"

definition waiting :: "nat \<Rightarrow> (nat \<Rightarrow> string) \<Rightarrow> (string \<Rightarrow> string) \<Rightarrow> shared \<Rightarrow> server \<Rightarrow> bool" where
  "waiting n req ans s a \<longleftrightarrow> server_rel n req ans s a \<and>
     (\<forall>i. \<not> left (sh_phase s i) \<longrightarrow> sh_phase s i = InSelect \<and> sh_out s = [ans (req i)])"

lemma serial_inv_steps:
  "steps (serial_act n req ans) ls s = Some s' \<Longrightarrow> serial_inv n req ans s \<Longrightarrow> (\<And>i. CHR 0x0A \<notin> set (req i)) \<Longrightarrow> serial_inv n req ans s'"
proof (induction ls arbitrary: s)
  case (Cons l ls)
  then obtain s1 where s1: "serial_act n req ans l s = Some s1" "steps (serial_act n req ans) ls s1 = Some s'"
    by (auto split: Option.bind_splits)
  then have "serial_inv n req ans s1"
    using serial_inv_step[OF Cons.prems(2) _ _ Cons.prems(3)] by (auto simp: serial_act_def split: if_splits)
  with Cons s1 show ?case by blast
qed simp

lemma waiting_steps:
  assumes "waiting n req ans s a" "steps (serial_act n req ans) ls s = Some s'"
    and "sv_alive a' = (\<not> sh_closed s')" "\<And>i m. sv_turn a' = Some (i, m) \<longleftrightarrow> caller s' i = Some m" "map_of (sv_left a') = outcomes s'"
    and "\<And>i. \<not> left (sh_phase s' i) \<Longrightarrow> sh_phase s' i = InSelect \<and> sh_out s' = [ans (req i)]"
  shows "waiting n req ans s' a'"
  using assms serial_inv_steps[OF assms(2)] by (auto simp: waiting_def server_rel_def)

lemma left_cases: "left p \<Longrightarrow> (p = Absent \<Longrightarrow> P) \<Longrightarrow> (\<And>x m. p = Gone x m \<Longrightarrow> P) \<Longrightarrow> P"
  by (cases p) auto

lemma waiting_turn:
  assumes "waiting n req ans s a" "sv_turn a = Some (i, m)"
  shows "sh_phase s i = InSelect" "sh_out s = [ans (req i)]" "m = sh_marks s" "j \<noteq> i \<Longrightarrow> left (sh_phase s j)"
proof -
  have R: "server_rel n req ans s a" using assms(1) by (simp add: waiting_def)
  then have c: "caller s i = Some m" using server_relD(4) assms(2) by blast
  then have nl: "\<not> left (sh_phase s i)" by (auto simp: caller_def split: if_splits)
  then show "sh_phase s i = InSelect" "sh_out s = [ans (req i)]" "j \<noteq> i \<Longrightarrow> left (sh_phase s j)"
    using assms(1) server_alone[OF R nl] by (auto simp: waiting_def)
  then show "m = sh_marks s" using c by (simp add: caller_def)
qed

lemma waiting_free:
  assumes "waiting n req ans s a" "sv_turn a = None"
  shows "left (sh_phase s i)" "i \<notin> fst ` set (sv_left a) \<Longrightarrow> sh_phase s i = Absent"
proof -
  have R: "server_rel n req ans s a" using assms(1) by (simp add: waiting_def)
  have "caller s i = None" using server_relD(4)[OF R] assms(2) by (cases "caller s i") auto
  then show *: "left (sh_phase s i)" by (auto simp: caller_def split: if_splits)
  assume "i \<notin> fst ` set (sv_left a)"
  then have "outcomes s i = None" using server_relD(5)[OF R] by (metis map_of_eq_None_iff)
  with * show "sh_phase s i = Absent" by (elim left_cases) (auto simp: outcomes_def)
qed

lemma scheduled_begin:
  assumes W: "waiting n req ans s a" and a: "sv_alive a" "sv_turn a = None" "i < n" "i \<notin> fst ` set (sv_left a)"
  shows "\<exists>s'. steps (serial_act n req ans) (schedule (Begin i) a) s = Some s' \<and> waiting n req ans s' (a\<lparr>sv_turn := Some (i, [])\<rparr>)"
proof -
  have R: "server_rel n req ans s a" using W by (simp add: waiting_def)
  note d = server_relD[OF R] and f = waiting_free[OF W a(2)]
  let ?s = "at_phase i InSelect (s\<lparr>sh_marks := [], sh_out := [ans (req i)]\<rparr>)"
  have e: "sh_pipe s = []" "sh_out s = []" using serial_invD(6)[OF d(1)] f(1) a(1) d(3) by auto
  have "steps (serial_act n req ans) (schedule (Begin i) a) s = Some ?s"
    using e f a d(3) next_line_own[OF d(2), of i "[]"] by (simp add: serial_act_def alone_def list_all_iff marks_reset_def at_phase_def)
  moreover have "waiting n req ans ?s (a\<lparr>sv_turn := Some (i, [])\<rparr>)"
    by (rule waiting_steps[OF W calculation])
      (use f(1) f(2)[OF a(4)] d(3,5) in \<open>auto simp: caller_def outcomes_def fun_eq_iff split: if_splits\<close>)
  ultimately show ?thesis by blast
qed

lemma scheduled_leave:
  assumes W: "waiting n req ans s a" and t: "sv_turn a = Some (i, m)" "leave x a = Some a'"
    and l: "steps (serial_act n req ans) ls s = Some s'" "sh_phase s' = (sh_phase s)(i := Gone x m)" "sh_closed s' = sh_closed s"
  shows "waiting n req ans s' a'"
proof -
  have R: "server_rel n req ans s a" using W by (simp add: waiting_def)
  show ?thesis
    by (rule waiting_steps[OF W l(1)])
      (use server_relD(3,5)[OF R] waiting_turn[OF W t(1)] t l(2,3) in
        \<open>auto simp: leave_def caller_def outcomes_def fun_eq_iff split: if_splits\<close>)
qed

lemma scheduled_noted:
  assumes W: "waiting n req ans s a" and i: "sv_turn a = Some (i, m)"
  shows "\<exists>s'. steps (serial_act n req ans) (schedule (Noted u) a) s = Some s' \<and>
    waiting n req ans s' (a\<lparr>sv_turn := Some (i, marks_op u m)\<rparr>)"
proof -
  have R: "server_rel n req ans s a" using W by (simp add: waiting_def)
  note t = waiting_turn[OF W i]
  let ?s = "s\<lparr>sh_marks := marks_op u (sh_marks s)\<rparr>"
  have o: "left (sh_phase s j) \<longleftrightarrow> j \<noteq> i" for j using server_one[OF R] t(1) by simp
  have st: "steps (serial_act n req ans) (schedule (Noted u) a) s = Some ?s" using i t(1) by (simp add: serial_act_def alone_def)
  have "waiting n req ans ?s (a\<lparr>sv_turn := Some (i, marks_op u m)\<rparr>)"
    by (rule waiting_steps[OF W st]) (use server_relD(3,5)[OF R] t in \<open>auto simp: caller_def o\<close>)
  with st show ?thesis by blast
qed

lemma scheduled:
  assumes W: "waiting n req ans s a" and e: "atomic n req ans e a = Some a'"
  shows "\<exists>s'. steps (serial_act n req ans) (schedule e a) s = Some s' \<and> waiting n req ans s' a'"
proof -
  have R: "server_rel n req ans s a" using W by (simp add: waiting_def)
  note d = server_relD[OF R]
  show ?thesis
  proof (cases e)
    case (Begin i)
    then show ?thesis using e scheduled_begin[OF W] by (auto split: if_splits)
  next
    case (Noted u)
    then show ?thesis using e scheduled_noted[OF W] by auto
  next
    case Reply
    then obtain i m where i: "sv_turn a = Some (i, m)" "leave (Some (ans (req i))) a = Some a'" using e by (auto split: Option.bind_splits)
    note t = waiting_turn[OF W i(1)]
    let ?s = "at_phase i (Gone (Some (ans (req i))) (sh_marks s)) (s\<lparr>sh_out := []\<rparr>)"
    have st: "steps (serial_act n req ans) (schedule e a) s = Some ?s"
      using Reply i(1) t by (simp add: serial_act_def alone_def at_phase_def)
    from scheduled_leave[OF W i st] t(3) st show ?thesis by simp
  next
    case Abandon
    then obtain i m where i: "sv_turn a = Some (i, m)" "leave None a = Some a'" "sh_closed s"
      using e d(3) by (auto simp: leave_def split: if_splits)
    note t = waiting_turn[OF W i(1)]
    have st: "steps (serial_act n req ans) (schedule e a) s = Some (at_phase i (Gone None (sh_marks s)) s)"
      using Abandon i t by (simp add: serial_act_def alone_def at_phase_def)
    from scheduled_leave[OF W i(1,2) st] t(3) st show ?thesis by simp
  next
    case Die
    then have i: "sv_alive a" "a' = a\<lparr>sv_alive := False\<rparr>" using e by (auto split: if_splits)
    have st: "steps (serial_act n req ans) (schedule e a) s = Some (s\<lparr>sh_closed := True\<rparr>)"
      using Die i d(3) by (simp add: serial_act_def alone_def)
    have "waiting n req ans (s\<lparr>sh_closed := True\<rparr>) a'"
      by (rule waiting_steps[OF W st]) (use d i W in \<open>auto simp: caller_def waiting_def\<close>)
    with st show ?thesis by blast
  qed
qed

lemma realised:
  "steps (atomic n req ans) es a = Some a' \<Longrightarrow> waiting n req ans s a \<Longrightarrow>
     \<exists>ls s'. steps (serial_act n req ans) ls s = Some s' \<and> waiting n req ans s' a'"
proof (induction es arbitrary: a s)
  case Nil
  then show ?case by (auto intro: exI[of _ "[]"])
next
  case (Cons e es)
  then obtain a1 where a1: "atomic n req ans e a = Some a1" "steps (atomic n req ans) es a1 = Some a'"
    by (auto split: Option.bind_splits)
  obtain s1 where s1: "steps (serial_act n req ans) (schedule e a) s = Some s1" "waiting n req ans s1 a1"
    using scheduled[OF Cons.prems(2) a1(1)] by blast
  obtain ls s' where "steps (serial_act n req ans) ls s1 = Some s'" "waiting n req ans s' a'"
    using Cons.IH[OF a1(2) s1(2)] by blast
  with s1(1) show ?case by (intro exI[of _ "schedule e a @ ls"]) (simp add: steps_append)
qed

section \<open>Properties\<close>

text \<open>C12: an executor used one activation at a time is an atomic server. Every interleaving of the handler, its
  monitor, the process and the readers left behind has a run of the server whose events are the steps that show, in their order,
  and after which every handler has left with the same answer and the same marks.\<close>

theorem serial_refines_atomic:
  assumes "reach (alone n) req ans ls s" "\<And>i. CHR 0x0A \<notin> set (req i)"
  shows "\<exists>es a. steps (atomic n req ans) es server0 = Some a \<and> list_all2 seen_as (filter (\<lambda>l. \<not> silent_label l) ls) es
     \<and> map_of (sv_left a) = outcomes s \<and> sv_alive a = (\<not> sh_closed s)"
proof -
  have "steps (serial_act n req ans) ls fresh = Some s" using assms(1) by (simp add: steps_serial reach_run)
  from serial.simulated[OF server_rel_fresh[OF assms(2)] this] show ?thesis using server_relD(3,5) by blast
qed

theorem serial_refines_atomic_witness:
  "\<exists>es a. steps (atomic 2 two_requests reply_to) es server0 = Some a
     \<and> list_all2 seen_as (filter (\<lambda>l. \<not> silent_label l) (turn 0 @ turn 1)) es \<and> length es = 8
     \<and> map_option fst (map_of (sv_left a) 1) = Some (Some ''re:second'')"
proof -
  obtain s m where r: "run_labels (alone 2) two_requests reply_to (turn 0 @ turn 1) fresh = Some s"
    and p: "sh_phase s 1 = Gone (Some ''re:second'') m"
    by (simp add: shared_run upt_rec noteFreeze_def noteResume_def)
  from r have "reach (alone 2) two_requests reply_to (turn 0 @ turn 1) s" by (simp only: reach_run)
  from serial_refines_atomic[OF this two_requests_plain] obtain es a where
    es: "steps (atomic 2 two_requests reply_to) es server0 = Some a"
      "list_all2 seen_as (filter (\<lambda>l. \<not> silent_label l) (turn 0 @ turn 1)) es" "map_of (sv_left a) = outcomes s" by blast
  have "length es = 8" using list_all2_lengthD[OF es(2)] by (simp add: turn_def)
  moreover have "map_option fst (map_of (sv_left a) 1) = Some (Some ''re:second'')" using p es(3) by (simp add: outcomes_def)
  ultimately show ?thesis using es(1,2) by blast
qed

text \<open>C13: the server promises no more than the executor does. What the handlers can have left with, together, is the same
  for both: every outcome of the server has an interleaving that leads to it.\<close>

theorem atomic_outcomes_exact:
  assumes "\<And>i. CHR 0x0A \<notin> set (req i)"
  shows "(\<exists>ls s. reach (alone n) req ans ls s \<and> outcomes s = f) \<longleftrightarrow>
    (\<exists>es a. steps (atomic n req ans) es server0 = Some a \<and> map_of (sv_left a) = f)"
proof
  assume "\<exists>ls s. reach (alone n) req ans ls s \<and> outcomes s = f"
  then obtain ls s where s: "steps (serial_act n req ans) ls fresh = Some s" "outcomes s = f" by (auto simp: steps_serial reach_run)
  from serial.simulated[OF server_rel_fresh[OF assms] s(1)] s(2)
  show "\<exists>es a. steps (atomic n req ans) es server0 = Some a \<and> map_of (sv_left a) = f" using server_relD(5) by blast
next
  assume "\<exists>es a. steps (atomic n req ans) es server0 = Some a \<and> map_of (sv_left a) = f"
  then obtain es a where a: "steps (atomic n req ans) es server0 = Some a" "map_of (sv_left a) = f" by blast
  have "waiting n req ans fresh server0" using server_rel_fresh[OF assms] by (simp add: waiting_def fresh_def)
  from realised[OF a(1) this] obtain ls s where "steps (serial_act n req ans) ls fresh = Some s" "waiting n req ans s a" by blast
  moreover from this have "outcomes s = f" using a(2) server_relD(5)[of n req ans s a] by (simp add: waiting_def)
  ultimately show "\<exists>ls s. reach (alone n) req ans ls s \<and> outcomes s = f" unfolding steps_serial reach_run by blast
qed

theorem atomic_outcomes_exact_witness:
  "\<exists>ls s. reach (alone 2) two_requests reply_to ls s \<and>
     outcomes s = map_of [(0, None, []), (1, Some ''re:second'', [])]"
proof -
  have "steps (atomic 2 two_requests reply_to) [Begin 1, Reply, Begin 0, Die, Abandon] server0 =
      Some \<lparr>sv_alive = False, sv_turn = None, sv_left = [(0, None, []), (1, Some ''re:second'', [])]\<rparr>"
    by (simp add: server0_def leave_def two_requests_def reply_to_def)
  then have "\<exists>es a. steps (atomic 2 two_requests reply_to) es server0 = Some a \<and>
      map_of (sv_left a) = map_of [(0, None, []), (1, Some ''re:second'', [])]"
    by (intro exI conjI) (assumption, simp only: server.simps)
  then show ?thesis by (simp only: atomic_outcomes_exact[OF two_requests_plain])
qed

end
