(* ===== verification/Incidents.thy ===== *)
theory Incidents
  imports RunHandler
begin

text \<open>
  The structured safety incidents of the runtime. Each \<^verbatim>\<open>logSafety...\<close> function builds a JSON object and logs
  it after the tag \<^verbatim>\<open>[safety]\<close>; when the object cannot be encoded it logs a plain text instead. An object is its
  fields in the order \<^verbatim>\<open>encoding/json\<close> writes the keys of a map, which is sorted. A float is the only kind of value here that
  encoding can refuse, when it is not finite. Texts are UTF-8 bytes.
\<close>

section \<open>Encoding\<close>

datatype field = FStr string | FInt int | FFloat f64 | FNames "(string \<times> string) list option"

datatype log_line = Structured "(string \<times> field) list" | Plain string

fun unsupported :: "field \<Rightarrow> string option" where
  "unsupported (FFloat PInf) = Some ''+Inf''"
| "unsupported (FFloat NInf) = Some ''-Inf''"
| "unsupported (FFloat NaN) = Some ''NaN''"
| "unsupported _ = None"

text \<open>The encoder stops at the first value it does not support, in the order of the keys.\<close>

definition marshal_fields :: "(string \<times> field) list \<Rightarrow> string + (string \<times> field) list" where
  "marshal_fields fs = (let sorted_fs = sort_key fst fs in
     case first_some (\<lambda>kv. unsupported (snd kv)) sorted_fs of
       Some v \<Rightarrow> Inl (''json: unsupported value: '' @ v)
     | None \<Rightarrow> Inr sorted_fs)"

definition log_safety :: "(string \<Rightarrow> string) \<Rightarrow> (string \<times> field) list \<Rightarrow> log_line" where
  "log_safety plain fs = (case marshal_fields fs of
       Inl err \<Rightarrow> Plain (''[safety] '' @ plain err)
     | Inr encoded \<Rightarrow> Structured encoded)"



section \<open>The incidents\<close>


















section \<open>Laws\<close>


lemma unsupported_iff: "unsupported f = None \<longleftrightarrow> (\<forall>x. f = FFloat x \<longrightarrow> f_finite x)"
  by (cases f rule: unsupported.cases) (auto simp: f_finite_def)



lemma log_safety_plain:
  assumes "(k, FFloat x) \<in> set fs" "\<not> f_finite x"
  shows "\<exists>t. log_safety plain fs = Plain t"
proof -
  have "first_some (\<lambda>kv. unsupported (snd kv)) (sort_key fst fs) \<noteq> None"
    unfolding first_some_None using assms unsupported_iff by fastforce
  then show ?thesis by (auto simp: log_safety_def marshal_fields_def Let_def)
qed









section \<open>The incidents of a run\<close>






















end
