(* ===== verification/Examples.thy ===== *)
theory Examples
  imports Launcher
begin

text \<open>
  The example actions of \<^verbatim>\<open>src/examples\<close>: the four greetings that a launcher wraps (single-main,
  single-hello, module-main, package-main) and the standalone program, which runs the loop of a launcher itself. A
  function gives what it prints and the map it returns. The debug line of module-main goes through a third-party
  logger and is left out. The AWS client of aws-main is a parameter: from the credentials and the region it gives an
  error or the instances of each reservation, with the identifiers that are set, or \<open>None\<close> when the session panics.
\<close>

section \<open>The functions\<close>

type_synonym example = "params option \<Rightarrow> string \<times> params"

text \<open>\<^verbatim>\<open>obj["name"].(string)\<close>; a nil map has no entries.\<close>

definition string_at :: "params option \<Rightarrow> string \<Rightarrow> string option" where
  "string_at obj k = (case obj of
       None \<Rightarrow> None
     | Some m \<Rightarrow> (case map_of m k of Some (JStr s) \<Rightarrow> Some s | _ \<Rightarrow> None))"

definition name_or_world :: "params option \<Rightarrow> string" where
  "name_or_world obj = (case string_at obj ''name'' of Some s \<Rightarrow> s | None \<Rightarrow> ''world'')"

definition single_main_Main :: example where
  "single_main_Main obj = (let name = name_or_world obj in
     (''name='' @ name @ [CHR 0x0A], [(''single-main'', JStr (''Hello, '' @ name @ ''!''))]))"

definition single_hello_Hello :: example where
  "single_hello_Hello obj = (let name = name_or_world obj in
     (''name='' @ name @ [CHR 0x0A], [(''single-hello'', JStr (''Hello, '' @ name @ ''!''))]))"

definition module_main_Main :: example where
  "module_main_Main obj = (let name = name_or_world obj in
     ([], [(''module-main'', JStr (''Hello, '' @ name @ ''!''))]))"

definition package_hello_Hello :: example where
  "package_hello_Hello args =
     (let greetings = (case string_at args ''name'' of Some name \<Rightarrow> name | None \<Rightarrow> ''world'')
      in (''Hello, '' @ greetings @ [CHR 0x0A], [(''package-main'', JStr (''Hello, '' @ greetings))]))"

definition package_main_Main :: example where
  "package_main_Main args = (case package_hello_Hello args of
     (printed, res) \<Rightarrow> (''Main'' @ CHR 0x0A # printed, res))"

definition standalone_Main :: example where
  "standalone_Main obj = (let name = name_or_world obj in
     (''name='' @ name @ [CHR 0x0A], [(''standalone'', JStr (''Hello, '' @ name @ ''!''))]))"

definition aws_instances :: "string option list list \<Rightarrow> string list option" where
  "aws_instances reservations =
     (if list_ex (\<lambda>i. i = None) (concat reservations) then None else Some (map the (concat reservations)))"

definition aws_main_Main :: "(string \<Rightarrow> string \<Rightarrow> string \<Rightarrow> (string + string option list list) option) \<Rightarrow> params option
    \<Rightarrow> params option" where
  "aws_main_Main describe obj = (case (string_at obj ''id'', string_at obj ''key'', string_at obj ''region'') of
       (Some ident, Some key, Some region) \<Rightarrow> Option.bind (describe ident key region) (\<lambda>r. case r of
           Inl err \<Rightarrow> Some [(''error'', JStr err)]
         | Inr reservations \<Rightarrow> map_option (\<lambda>is. [(''instances'', JArr (map JStr is))]) (aws_instances reservations))
     | _ \<Rightarrow> Some [(''help'', JStr ''required id, key and region'')])"

section \<open>Wrapped by a launcher\<close>

text \<open>The launcher calls a function of a map by reflection, which panics when it is given an array.\<close>

definition on_object :: "example \<Rightarrow> action_main" where
  "on_object f = \<lparr>mn_kind = KindMap, mn_call = (\<lambda>p env. case p of
     ObjectPayload obj \<Rightarrow> Some (env, Inr (JObj (snd (f obj)))) | ArrayPayload _ \<Rightarrow> None)\<rparr>"

section \<open>The standalone program\<close>

text \<open>The line is decoded twice, the second time into the map of the first; the second error is not looked
  at. Only an object is taken as the payload. The result is a map of strings, which always encodes.\<close>

definition unmarshal_again :: "in_line \<Rightarrow> params \<Rightarrow> params" where
  "unmarshal_again l input = (case ln_json l of
       Some (JObj kvs) \<Rightarrow> go_map kvs input
     | Some JNull \<Rightarrow> []
     | _ \<Rightarrow> input)"

definition standalone_payload :: "params \<Rightarrow> params option" where
  "standalone_payload input = (case map_of input ''value'' of
       Some (JObj kvs) \<Rightarrow> Some (go_map kvs [])
     | _ \<Rightarrow> None)"

fun standalone_loop :: "in_line list \<Rightarrow> vars \<Rightarrow> out_line list \<times> vars" where
  "standalone_loop [] env = ([], env)"
| "standalone_loop (l # ls) env = (case unmarshal_input l of
       Inl err \<Rightarrow> (case standalone_loop ls env of (outs, env') \<Rightarrow> (ErrorLine err # outs, env'))
     | Inr input \<Rightarrow>
         (let input2 = unmarshal_again l input;
              env1 = set_variables input2 env;
              result = snd (standalone_Main (standalone_payload input2))
          in case standalone_loop ls env1 of (outs, env') \<Rightarrow> (ResultLine (JObj result) # outs, env')))"

definition standalone_main :: "in_line list \<Rightarrow> vars \<Rightarrow> launcher_end \<times> out_line list" where
  "standalone_main ls env = (EndOfInput, AckLine # fst (standalone_loop ls env))"

section \<open>Laws\<close>

lemma go_map_map_of: "map_of (go_map kvs m) = map_of m ++ map_of (rev kvs)"
proof (induction kvs arbitrary: m)
  case (Cons kv kvs)
  then show ?case by (cases kv) (simp add: go_map_def update_conv' map_add_upd_left map_add_assoc[symmetric], simp add: map_add_def fun_eq_iff split: option.splits)
qed (simp add: go_map_def)

lemma go_map_distinct: "distinct (map fst m) \<Longrightarrow> distinct (map fst (go_map kvs m))"
  by (induction kvs arbitrary: m) (auto simp: go_map_def distinct_update)

lemma go_map_fixes_keys: "fst ` set kvs \<subseteq> fst ` set m \<Longrightarrow> map fst (go_map kvs m) = map fst m"
proof (induction kvs arbitrary: m)
  case (Cons kv kvs)
  obtain k v where kv: "kv = (k, v)" by fastforce
  have u: "map fst (AList.update k v m) = map fst m" using Cons.prems kv by (simp add: update_keys)
  then have "fst ` set (AList.update k v m) = fst ` set m" by (metis set_map)
  with Cons kv u show ?case by (simp add: go_map_def)
qed (simp add: go_map_def)

lemma alist_eqI: "map fst xs = map fst ys \<Longrightarrow> distinct (map fst xs) \<Longrightarrow> map_of xs = map_of ys \<Longrightarrow> xs = ys"
proof (induction xs arbitrary: ys)
  case (Cons x xs)
  then obtain y zs where ys: "ys = y # zs" "fst y = fst x" "map fst zs = map fst xs" by (cases ys) auto
  have "snd y = snd x" using fun_cong[OF Cons.prems(3), of "fst x"] ys by (cases x; cases y) simp
  moreover have "map_of xs = map_of zs"
  proof
    fix k
    show "map_of xs k = map_of zs k"
    proof (cases "k = fst x")
      case True
      then have "k \<notin> set (map fst xs)" "k \<notin> set (map fst zs)" using Cons.prems(2) ys(3) by auto
      then show ?thesis by (metis map_of_eq_None_iff set_map)
    next
      case False
      then show ?thesis using fun_cong[OF Cons.prems(3), of k] ys by (cases x; cases y) simp
    qed
  qed
  ultimately show ?case using Cons ys by (auto intro: prod_eqI)
qed simp

text \<open>Decoding the same line into the same map again changes nothing.\<close>

lemma go_map_twice: "go_map kvs (go_map kvs []) = go_map kvs []"
proof (rule alist_eqI)
  have "dom (map_of (go_map kvs [])) = fst ` set kvs" by (simp add: go_map_map_of dom_map_of_conv_image_fst)
  then have "fst ` set kvs \<subseteq> fst ` set (go_map kvs [])" by (simp add: dom_map_of_conv_image_fst)
  then show "map fst (go_map kvs (go_map kvs [])) = map fst (go_map kvs [])" by (rule go_map_fixes_keys)
  show "distinct (map fst (go_map kvs (go_map kvs [])))" by (intro go_map_distinct) simp
  show "map_of (go_map kvs (go_map kvs [])) = map_of (go_map kvs [])"
    by (auto simp: go_map_map_of map_add_def fun_eq_iff split: option.splits)
qed

lemma unmarshal_twice: "unmarshal_input l = Inr input \<Longrightarrow> unmarshal_again l input = input"
  by (auto simp: unmarshal_input_def unmarshal_again_def go_map_twice split: option.splits json.splits)

text \<open>The standalone function as a launcher's action: an array is no payload for it.\<close>

definition standalone_action :: action_main where
  "standalone_action = \<lparr>mn_kind = KindMap, mn_call = (\<lambda>p env. Some (env, Inr (JObj (snd (standalone_Main
     (case p of ObjectPayload obj \<Rightarrow> obj | ArrayPayload _ \<Rightarrow> None))))))\<rparr>"

lemma standalone_payload_value:
  "standalone_payload input = (case payload_value input of ObjectPayload obj \<Rightarrow> obj | ArrayPayload _ \<Rightarrow> None)"
  by (auto simp: standalone_payload_def payload_value_def split: option.splits json.splits)

lemma standalone_call:
  "mn_call standalone_action p env = Some (env, Inr (JObj (snd (standalone_Main
     (case p of ObjectPayload obj \<Rightarrow> obj | ArrayPayload _ \<Rightarrow> None)))))"
  by (simp add: standalone_action_def)

lemma standalone_repl:
  "repl standalone_action ls env = (fst (standalone_loop ls env), snd (standalone_loop ls env), True)"
proof (induction ls arbitrary: env)
  case (Cons l ls)
  show ?case
    by (cases "unmarshal_input l")
       (simp_all add: launcher_step_def standalone_call Cons.IH unmarshal_twice standalone_payload_value Let_def split: prod.split)
qed simp

text \<open>A line of a request whose payload, if any, is an object: the payload, or what is no object.\<close>

definition object_request :: "in_line \<Rightarrow> bool" where
  "object_request l = (case unmarshal_input l of
       Inl _ \<Rightarrow> False
     | Inr input \<Rightarrow> (case payload_value input of ObjectPayload _ \<Rightarrow> True | ArrayPayload _ \<Rightarrow> False))"

definition request_payload :: "in_line \<Rightarrow> params option" where
  "request_payload l = (case unmarshal_input l of
       Inl _ \<Rightarrow> None
     | Inr input \<Rightarrow> (case payload_value input of ObjectPayload obj \<Rightarrow> obj | ArrayPayload _ \<Rightarrow> None))"

lemma on_object_repl:
  "list_all object_request ls \<Longrightarrow> \<exists>env'. repl (on_object f) ls env = (map (\<lambda>l. ResultLine (JObj (snd (f (request_payload l))))) ls, env', True)"
proof (induction ls arbitrary: env)
  case (Cons l ls)
  then obtain input obj where l: "unmarshal_input l = Inr input" "payload_value input = ObjectPayload obj"
    by (auto simp: object_request_def split: sum.splits payload.splits)
  then have "launcher_step (on_object f) l env = Some (ResultLine (JObj (snd (f (request_payload l)))), set_variables input env)"
    by (simp add: launcher_step_def on_object_def request_payload_def)
  then show ?case using Cons.IH[of "set_variables input env"] Cons.prems by auto
qed simp

section \<open>Properties\<close>

text \<open>The standalone example speaks the launcher's protocol: on every input it writes exactly what the launcher of
  the runtime, without an execution environment to check, writes around its function, an array payload being taken as none.\<close>

theorem standalone_is_a_launcher: "standalone_main ls env = golang124_main [] standalone_action ls env"
proof -
  have "mn_kind standalone_action \<noteq> KindOther" by (simp add: standalone_action_def)
  then show ?thesis
    by (simp add: standalone_main_def golang124_main_def checked_launcher_def run_launcher_def standalone_repl)
qed

text \<open>What \<^verbatim>\<open>src/examples/test.expected\<close> lists: the key of each example and the end of its
  greeting.\<close>

definition greets :: "string \<Rightarrow> string \<Rightarrow> example \<Rightarrow> bool" where
  "greets key after_name f \<longleftrightarrow> (\<forall>obj. snd (f obj) = [(key, JStr (''Hello, '' @ name_or_world obj @ after_name))])"

lemma examples_greet:
  "greets ''single-main'' ''!'' single_main_Main" "greets ''single-hello'' ''!'' single_hello_Hello"
  "greets ''module-main'' ''!'' module_main_Main" "greets ''package-main'' [] package_main_Main"
  "greets ''standalone'' ''!'' standalone_Main"
  by (simp_all add: greets_def single_main_Main_def single_hello_Hello_def module_main_Main_def package_main_Main_def
      package_hello_Hello_def standalone_Main_def name_or_world_def Let_def)

text \<open>An example answers. Around any of the greeting functions, a launcher of the runtime acknowledges the start
  and then gives each request, in order, one object with the example's key and the greeting of the name in that request, or of the
  world when it has none, and the proxy takes each of these lines for a proper result.\<close>

theorem example_answers_every_request:
  assumes "(key, after_name, f) \<in> {(''single-main'', ''!'', single_main_Main), (''single-hello'', ''!'', single_hello_Hello),
       (''module-main'', ''!'', module_main_Main), (''package-main'', [], package_main_Main)}"
    and "list_all object_request ls"
  shows "golang124_main [] (on_object f) ls env = (EndOfInput, AckLine #
       map (\<lambda>l. ResultLine (JObj [(key, JStr (''Hello, '' @ name_or_world (request_payload l) @ after_name))])) ls) \<and>
     list_all (\<lambda>l. classify_result (line_json l) \<noteq> ResultBad) (lines_for_runs True (snd (golang124_main [] (on_object f) ls env)))"
proof -
  have f: "snd (f obj) = [(key, JStr (''Hello, '' @ name_or_world obj @ after_name))]" for obj
    using assms(1) examples_greet by (auto simp: greets_def)
  have k: "mn_kind (on_object f) \<noteq> KindOther" by (simp add: on_object_def)
  obtain env' where "repl (on_object f) ls env = (map (\<lambda>l. ResultLine (JObj (snd (f (request_payload l))))) ls, env', True)"
    using on_object_repl[OF assms(2)] by blast
  then have *: "golang124_main [] (on_object f) ls env = (EndOfInput, AckLine #
       map (\<lambda>l. ResultLine (JObj [(key, JStr (''Hello, '' @ name_or_world (request_payload l) @ after_name))])) ls)"
    using k by (simp add: golang124_main_def checked_launcher_def run_launcher_def f)
  then show ?thesis by (simp add: lines_for_runs_def list_all_iff classify_result_def)
qed

definition mike_and_nobody :: "in_line list" where
  "mike_and_nobody = [\<lparr>ln_json = Some (JObj [(''value'', JObj [(''name'', JStr ''Mike'')])]), ln_error = []\<rparr>,
     \<lparr>ln_json = Some (JObj [(''value'', JObj [])]), ln_error = []\<rparr>]"

theorem example_answers_every_request_witness:
  "golang124_main [] (on_object package_main_Main) mike_and_nobody [] = (EndOfInput,
     [AckLine, ResultLine (JObj [(''package-main'', JStr ''Hello, Mike'')]), ResultLine (JObj [(''package-main'', JStr ''Hello, world'')])])"
proof -
  have o: "list_all object_request mike_and_nobody" by code_simp
  have "map (\<lambda>l. name_or_world (request_payload l)) mike_and_nobody = [''Mike'', ''world'']" by code_simp
  then have "map (\<lambda>l. ResultLine (JObj [(''package-main'', JStr (''Hello, '' @ name_or_world (request_payload l) @ []))])) mike_and_nobody =
      map (\<lambda>n. ResultLine (JObj [(''package-main'', JStr (''Hello, '' @ n))])) [''Mike'', ''world'']"
    by (metis (no_types, lifting) append_Nil2 map_map comp_def map_cong)
  then show ?thesis
    using example_answers_every_request[of "''package-main''" "[]" package_main_Main mike_and_nobody "[]"] o by simp
qed

end
