(* ===== verification/Diagnostics.thy ===== *)
theory Diagnostics
  imports Executor Monitor_Laws
begin

text \<open>
  The diagnostics: \<^verbatim>\<open>src/openwhisk/debug.go\<close>, \<^verbatim>\<open>version.go\<close> and the pod check \<^verbatim>\<open>src/cmd/verify_cgroup_pod\<close>,
  which drives the executor against a scheduler of its own and prints the outcome of each check. What the program observes
  (whether scripts and executors could be made, what an interaction returned, what files read) is given in advance; the
  texts of the details are left out. As it stands the program does not compile, since it takes three results from \<^verbatim>\<open>Interact\<close>,
  which returns four; the model takes the three it names.
\<close>

section \<open>Debug output\<close>

definition Debug :: "bool \<Rightarrow> string \<Rightarrow> string list" where
  "Debug debugging line = (if debugging then [line] else [])"

definition DebugLimit :: "bool \<Rightarrow> string \<Rightarrow> string \<Rightarrow> nat \<Rightarrow> string list" where
  "DebugLimit debugging msg inp bound =
     (if length inp < bound then Debug debugging (msg @ '':'' @ inp)
      else Debug debugging (msg @ '':'' @ take bound inp @ ''...''))"

definition Version :: string where
  "Version = ''1.17.1''"

section \<open>Probes\<close>

definition readEnergyProbe :: "host \<Rightarrow> int \<times> read_error option" where
  "readEnergyProbe h =
     (let path = getenv h ''RAPL_PATH'';
          path' = (if path = [] then ''/sys/class/powercap/intel-rapl/intel-rapl:0/energy_uj'' else path)
      in case files h path' of
           None \<Rightarrow> (0, Some EFile)
         | Some dat \<Rightarrow> (case ParseInt (TrimSpace dat) of (v, e) \<Rightarrow> (v, map_option ENum e)))"

text \<open>A line \<^verbatim>\<open>usage_usec\<close> with one number.\<close>

definition usage_pair :: "string \<Rightarrow> int option" where
  "usage_pair line = (case Fields line of
       [k, v] \<Rightarrow> if k = ''usage_usec'' then (case ParseInt v of (n, None) \<Rightarrow> Some n | _ \<Rightarrow> None) else None
     | _ \<Rightarrow> None)"

definition readUsageUsec :: "host \<Rightarrow> string \<Rightarrow> int" where
  "readUsageUsec h cpuStatPath = (case files h cpuStatPath of
       None \<Rightarrow> 0
     | Some dat \<Rightarrow> (case first_some usage_pair (Split dat (CHR 0x0A)) of Some n \<Rightarrow> n | None \<Rightarrow> 0))"

text \<open>The loop of the third section takes the last such line instead.\<close>

definition sample_usec :: "string \<Rightarrow> int" where
  "sample_usec dat = fold (\<lambda>line usec. case usage_pair line of Some n \<Rightarrow> n | None \<Rightarrow> usec) (Split dat (CHR 0x0A)) 0"

section \<open>Checks\<close>

record diag =
  dg_failed :: bool
  dg_checks :: "(string \<times> bool) list"

definition no_checks :: diag where
  "no_checks = \<lparr>dg_failed = False, dg_checks = []\<rparr>"

definition check :: "string \<Rightarrow> bool \<Rightarrow> diag \<Rightarrow> diag" where
  "check name ok d = d\<lparr>dg_failed := (dg_failed d \<or> \<not> ok), dg_checks := dg_checks d @ [(name, ok)]\<rparr>"

text \<open>The steps of writing a script: the file, its text, closing it, its mode.\<close>

definition writeScript :: "bool \<Rightarrow> bool \<Rightarrow> bool \<Rightarrow> bool \<Rightarrow> string \<Rightarrow> string option" where
  "writeScript made written shut chmodded path =
     (if \<not> made then None else if \<not> written then None else if \<not> shut then None
      else if \<not> chmodded then None else Some path)"

section \<open>The scheduler's stand-in\<close>

record standin =
  pausedEventReceived :: bool
  killedEventReceived :: bool

datatype standin_reply = ReplyCommand json | ReplyAck | ReplyBadRequest

text \<open>A string field of the event. The decoder takes keys up to case, skips what has the wrong type and
  goes on; the last one wins.\<close>

definition event_field :: "string \<Rightarrow> params \<Rightarrow> string" where
  "event_field name body = fold (\<lambda>(k, j) acc. if fold_key k = name then (case j of JStr s \<Rightarrow> s | _ \<Rightarrow> acc) else acc) body []"

definition encode_command :: "SchedulerCommand \<Rightarrow> json" where
  "encode_command cmd = JObj (
     [(''command'', JStr (Command cmd)), (''trace_id'', JStr (sc_TraceID cmd)),
      (''reservation_id'', JStr (sc_ReservationID cmd)), (''pause_id'', JStr (sc_PauseID cmd))] @
     (if NewExecutionThresholdJ cmd = Fin 0 then [] else [(''new_execution_threshold_j'', JNum (NewExecutionThresholdJ cmd))]) @
     (if sc_Reason cmd = [] then [] else [(''reason'', JStr (sc_Reason cmd))]))"

definition standin_handle :: "json option \<Rightarrow> standin \<Rightarrow> standin_reply \<times> standin" where
  "standin_handle body s = (case body of
       Some (JObj kvs) \<Rightarrow>
         (if map_of (rev kvs) ''event'' = Some (JStr ''EXECUTION_PAUSED'') then
            (ReplyCommand (encode_command \<lparr>Command = ''RESUME_EXECUTION'', sc_TraceID = event_field ''trace_id'' kvs,
               sc_ReservationID = event_field ''reservation_id'' kvs, sc_PauseID = event_field ''pause_id'' kvs,
               NewExecutionThresholdJ = Fin 1000000000, sc_Reason = []\<rparr>), s\<lparr>pausedEventReceived := True\<rparr>)
          else if map_of (rev kvs) ''event'' = Some (JStr ''EXECUTION_KILLED'') then
            (ReplyAck, s\<lparr>killedEventReceived := True\<rparr>)
          else (ReplyBadRequest, s))
     | _ \<Rightarrow> (ReplyBadRequest, s))"

text \<open>What the runtime gets from it: the command or the acknowledgement as JSON, or an empty body.\<close>

definition standin_response :: "standin_reply \<Rightarrow> response" where
  "standin_response r = (case r of
       ReplyCommand j \<Rightarrow> BodyJson j
     | ReplyAck \<Rightarrow> BodyJson (JObj [(''ack'', JBool True)])
     | ReplyBadRequest \<Rightarrow> BodyUndecodable)"

definition standin_serve :: "json option list \<Rightarrow> standin \<Rightarrow> standin" where
  "standin_serve bodies s = fold (\<lambda>b st. snd (standin_handle b st)) bodies s"

section \<open>The program\<close>

text \<open>A section goes on, exits with code 1, or is stuck in a call that does not return.\<close>

datatype stage = Continue diag standin | Abort diag | Blocked diag

record probe1 =
  p1_rapl :: bool
  p1_script :: bool
  p1_proc :: bool
  p1_started :: bool
  p1_before :: string
  p1_after_stop :: string
  p1_after_wait :: string

definition section1 :: "probe1 \<Rightarrow> diag \<Rightarrow> standin \<Rightarrow> stage" where
  "section1 io d s =
     (if \<not> p1_rapl io then Abort d
      else if \<not> p1_script io then Abort d
      else (let d1 = check ''NewExecutor'' (p1_proc io) d in
        if \<not> p1_proc io then Abort d1
        else (let d2 = check ''Executor.Start'' (p1_started io) d1;
                  d3 = check ''counter process is progressing before Stop'' (p1_before io \<noteq> []) d2;
                  d4 = check ''Executor.Stop kills the counter process'' (p1_after_stop io = p1_after_wait io) d3
              in Continue d4 s)))"

text \<open>An interaction with the bodies the stand-in received during it: output, error, kill. \<open>None\<close>: it does not return.\<close>

type_synonym seen_interaction = "((string \<times> string option \<times> EnergyKillInfo option) \<times> json option list) option"

record probe2 =
  p2_script :: bool
  p2_proc :: bool
  p2_started :: bool
  p2_interact :: seen_interaction

definition section2 :: "probe2 \<Rightarrow> diag \<Rightarrow> standin \<Rightarrow> stage" where
  "section2 io d s =
     (if \<not> p2_script io then Abort d
      else (let d1 = check ''NewExecutor #2'' (p2_proc io) d in
        if \<not> p2_proc io then Abort d1
        else (let d2 = check ''Executor.Start #2'' (p2_started io) d1 in
          case p2_interact io of
            None \<Rightarrow> Blocked d2
          | Some ((out, ierr, killInfo), bodies) \<Rightarrow>
              (let s1 = standin_serve bodies s;
                   d3 = check ''EXECUTION_PAUSED sent to embedded scheduler'' (pausedEventReceived s1) d2;
                   d4 = check ''no EXECUTION_KILLED'' (\<not> killedEventReceived s1) d3;
                   d5 = check ''process resumed and completed'' (killInfo = None) d4;
                   d6 = check ''real output received'' (ierr = None \<and> out \<noteq> []) d5
               in Continue d6 s1))))"

record probe3 =
  p3_script :: bool
  p3_proc :: bool
  p3_started :: bool
  p3_host :: host
  p3_pid :: int
  p3_controllerPath :: string
  p3_reads :: "string option list"

definition growing :: "int list \<Rightarrow> bool" where
  "growing samples \<longleftrightarrow> 2 \<le> length samples \<and> samples ! 0 < samples ! (length samples - 1)"

definition section3 :: "probe3 \<Rightarrow> diag \<Rightarrow> standin \<Rightarrow> stage" where
  "section3 io d s =
     (if \<not> p3_script io then Abort d
      else (let d1 = check ''NewExecutor #3'' (p3_proc io) d in
        if \<not> p3_proc io then Abort d1
        else if \<not> p3_started io then Abort d1
        else (let resolved = ResolveCgroupCPUStatPath (p3_host io) (p3_pid io);
                  d2 = check ''Path match'' (resolved = Some (p3_controllerPath io @ ''/cpu.stat'')) d1;
                  samples = (if resolved = None then [] else map sample_usec (List.map_filter id (take 8 (p3_reads io))));
                  d3 = check ''usage_usec actually grows'' (growing samples) d2
              in Continue d3 s)))"

record probe4 =
  p4_host :: host
  p4_after :: host
  p4_script :: bool
  p4_proc :: bool
  p4_interact :: seen_interaction

definition io_threshold :: f64 where
  "io_threshold = to_f64 (1 / 20)"

definition section4 :: "probe4 \<Rightarrow> diag \<Rightarrow> standin \<Rightarrow> stage" where
  "section4 io d s =
     (if snd (readEnergyProbe (p4_host io)) \<noteq> None then Continue d s
      else if \<not> p4_script io then Abort d
      else (let d1 = check ''NewExecutor #4'' (p4_proc io) d in
        if \<not> p4_proc io then Continue d1 s
        else (let s0 = s\<lparr>pausedEventReceived := False, killedEventReceived := False\<rparr> in
          case p4_interact io of
            None \<Rightarrow> Blocked d1
          | Some ((out, ierr, killInfo), bodies) \<Rightarrow>
              (let s1 = standin_serve bodies s0;
                   realDeltaRAPLJ = joules (i64 (fst (readEnergyProbe (p4_after io)) - fst (readEnergyProbe (p4_host io))));
                   d2 = check ''Interact() completed without error'' (ierr = None) d1;
                   neverFroze = (\<not> pausedEventReceived s1 \<and> \<not> killedEventReceived s1 \<and> killInfo = None)
               in Continue (if f_lt io_threshold realDeltaRAPLJ then check ''HYPOTHESIS'' neverFroze d2 else d2) s1))))"

definition and_then :: "stage \<Rightarrow> (diag \<Rightarrow> standin \<Rightarrow> stage) \<Rightarrow> stage" where
  "and_then st f = (case st of Continue d s \<Rightarrow> f d s | Abort d \<Rightarrow> Abort d | Blocked d \<Rightarrow> Blocked d)"

text \<open>The exit code, if the program ends, and the checks it printed.\<close>

definition verify_main :: "probe1 \<Rightarrow> probe2 \<Rightarrow> probe3 \<Rightarrow> probe4 \<Rightarrow> int option \<times> diag" where
  "verify_main io1 io2 io3 io4 =
     (case and_then (and_then (and_then (section1 io1 no_checks \<lparr>pausedEventReceived = False, killedEventReceived = False\<rparr>)
             (section2 io2)) (section3 io3)) (section4 io4) of
        Continue d _ \<Rightarrow> (Some (if dg_failed d then 1 else 0), d)
      | Abort d \<Rightarrow> (Some 1, d)
      | Blocked d \<Rightarrow> (None, d))"

section \<open>Laws\<close>

text \<open>Whether all the checks so far passed, and that the flag says so.\<close>

abbreviation all_passed :: "diag \<Rightarrow> bool" where
  "all_passed d \<equiv> list_all snd (dg_checks d)"

lemma check_sel [simp]:
  "dg_failed (check name ok d) = (dg_failed d \<or> \<not> ok)" "all_passed (check name ok d) \<longleftrightarrow> all_passed d \<and> ok"
  by (auto simp: check_def)

fun stage_diag :: "stage \<Rightarrow> diag" where
  "stage_diag (Continue d _) = d" | "stage_diag (Abort d) = d" | "stage_diag (Blocked d) = d"

text \<open>A section keeps the flag true to the checks, and goes on with all checks passed exactly when its needs were
  met.\<close>

definition sound_stage :: "bool \<Rightarrow> diag \<Rightarrow> stage \<Rightarrow> bool" where
  "sound_stage needs d st \<longleftrightarrow> dg_failed (stage_diag st) = (\<not> all_passed (stage_diag st)) \<and>
     (all_passed (stage_diag st) \<longrightarrow> all_passed d) \<and>
     (all_passed (stage_diag st) \<longrightarrow> (\<exists>s. st = Continue (stage_diag st) s) = needs)"

lemma sections_sound:
  assumes "dg_failed d = (\<not> all_passed d)"
  shows "sound_stage (p1_rapl io1 \<and> p1_script io1) d (section1 io1 d s)"
    "sound_stage (p2_script io2 \<and> p2_interact io2 \<noteq> None) d (section2 io2 d s)"
    "sound_stage (p3_script io3 \<and> p3_started io3) d (section3 io3 d s)"
    "sound_stage (snd (readEnergyProbe (p4_host io4)) = None \<longrightarrow> p4_script io4 \<and> p4_interact io4 \<noteq> None) d (section4 io4 d s)"
  using assms
  by (auto simp: sound_stage_def section1_def section2_def section3_def section4_def Let_def split: option.split prod.split)

lemma and_then_sound:
  assumes "sound_stage n d st" "\<And>d s. dg_failed d = (\<not> all_passed d) \<Longrightarrow> sound_stage n' d (f d s)"
  shows "sound_stage (n \<and> n') d (and_then st f)"
proof (cases st)
  case (Continue d1 s1)
  with assms(1) have "sound_stage n' d1 (f d1 s1)" by (intro assms(2)) (simp add: sound_stage_def)
  then show ?thesis using assms(1) Continue by (auto simp: sound_stage_def and_then_def)
qed (use assms(1) in \<open>auto simp: sound_stage_def and_then_def\<close>)

lemma probe_is_readEnergy: "readEnergyProbe h = readEnergy h"
  by (simp add: readEnergyProbe_def readEnergy_def raplPath_def Let_def)

lemma sample_single:
  assumes "length (filter (\<lambda>l. usage_pair l \<noteq> None) (Split dat (CHR 0x0A))) \<le> 1" "files h path = Some dat"
  shows "sample_usec dat = readUsageUsec h path"
proof -
  have *: "fold (\<lambda>line usec. case usage_pair line of Some n \<Rightarrow> n | None \<Rightarrow> usec) ls u =
      (case first_some usage_pair ls of Some n \<Rightarrow> n | None \<Rightarrow> u)"
    if "length (filter (\<lambda>l. usage_pair l \<noteq> None) ls) \<le> 1" for ls u
    using that
  proof (induction ls arbitrary: u)
    case (Cons l ls)
    show ?case
    proof (cases "usage_pair l")
      case (Some n)
      then have "first_some usage_pair ls = None" using Cons.prems by (auto simp: first_some_None filter_empty_conv)
      moreover have "length (filter (\<lambda>l. usage_pair l \<noteq> None) ls) \<le> 1" using Cons.prems Some by simp
      ultimately show ?thesis using Cons.IH[of n] Some by simp
    qed (use Cons in simp)
  qed simp
  show ?thesis using *[OF assms(1), of 0] assms(2) by (simp add: sample_usec_def readUsageUsec_def)
qed

section \<open>Properties\<close>

text \<open>The verdict of the pod check. It exits with 0 exactly when every check it printed passed, none of its preparations
  failed and the interactions it waits for returned.\<close>

theorem verify_verdict:
  assumes "verify_main io1 io2 io3 io4 = (code, d)"
  shows "code = Some 0 \<longleftrightarrow> list_all snd (dg_checks d) \<and> p1_rapl io1 \<and> p1_script io1 \<and> p2_script io2 \<and> p2_interact io2 \<noteq> None \<and>
    p3_script io3 \<and> p3_started io3 \<and>
    (snd (readEnergy (p4_host io4)) = None \<longrightarrow> p4_script io4 \<and> p4_interact io4 \<noteq> None)"
proof -
  let ?s0 = "\<lparr>pausedEventReceived = False, killedEventReceived = False\<rparr>"
  let ?st = "and_then (and_then (and_then (section1 io1 no_checks ?s0) (section2 io2)) (section3 io3)) (section4 io4)"
  have "dg_failed no_checks = (\<not> all_passed no_checks)" by (simp add: no_checks_def)
  then have "sound_stage ((((p1_rapl io1 \<and> p1_script io1) \<and> p2_script io2 \<and> p2_interact io2 \<noteq> None) \<and> p3_script io3 \<and> p3_started io3) \<and>
      (snd (readEnergyProbe (p4_host io4)) = None \<longrightarrow> p4_script io4 \<and> p4_interact io4 \<noteq> None)) no_checks ?st"
    by (intro and_then_sound sections_sound)
  then show ?thesis using assms
    by (cases ?st) (auto simp: verify_main_def sound_stage_def probe_is_readEnergy)
qed

text \<open>The event as the runtime encodes it.\<close>

definition encode_paused :: "ExecutionPausedEvent \<Rightarrow> json" where
  "encode_paused e = JObj
     [(''event'', JStr (pe_Event e)), (''trace_id'', JStr (pe_TraceID e)), (''reservation_id'', JStr (pe_ReservationID e)),
      (''pause_id'', JStr (pe_PauseID e)), (''action_name'', JStr (pe_ActionName e)), (''execution_phase'', JStr (pe_ExecutionPhase e)),
      (''energy_consumed_j'', JNum (pe_EnergyConsumedJ e)), (''pause_requested_at'', JNum (PauseRequestedAt e)),
      (''pause_effective_at'', JNum (PauseEffectiveAt e)), (''freeze_latency_ms'', JNum (FreezeLatencyMs e))]"

lemma event_keys:
  "fold_key ''event'' = ''event''" "fold_key ''trace_id'' = ''trace_id''" "fold_key ''reservation_id'' = ''reservation_id''"
  "fold_key ''pause_id'' = ''pause_id''" "fold_key ''action_name'' = ''action_name''" "fold_key ''execution_phase'' = ''execution_phase''"
  "fold_key ''energy_consumed_j'' = ''energy_consumed_j''" "fold_key ''pause_requested_at'' = ''pause_requested_at''"
  "fold_key ''pause_effective_at'' = ''pause_effective_at''" "fold_key ''freeze_latency_ms'' = ''freeze_latency_ms''"
  "fold_key ''command'' = ''command''" "fold_key ''new_execution_threshold_j'' = ''new_execution_threshold_j''"
  by code_simp+

lemma standin_command:
  assumes "pe_Event e = ''EXECUTION_PAUSED''"
  shows "\<exists>j. standin_handle (Some (encode_paused e)) s = (ReplyCommand j, s\<lparr>pausedEventReceived := True\<rparr>) \<and>
    decode_command j = Some \<lparr>Command = ''RESUME_EXECUTION'', sc_TraceID = pe_TraceID e, sc_ReservationID = pe_ReservationID e,
      sc_PauseID = pe_PauseID e, NewExecutionThresholdJ = Fin 1000000000, sc_Reason = []\<rparr>"
proof -
  let ?kvs = "case encode_paused e of JObj kvs \<Rightarrow> kvs | _ \<Rightarrow> []"
  have f: "event_field ''trace_id'' ?kvs = pe_TraceID e" "event_field ''reservation_id'' ?kvs = pe_ReservationID e"
    "event_field ''pause_id'' ?kvs = pe_PauseID e"
    by (simp_all add: event_field_def encode_paused_def event_keys del: fold_key.simps)
  have ev: "map_of (rev ?kvs) ''event'' = Some (JStr ''EXECUTION_PAUSED'')" using assms by (simp add: encode_paused_def)
  have k: "encode_paused e = JObj ?kvs" by (simp add: encode_paused_def)
  have d: "decode_command (encode_command \<lparr>Command = a, sc_TraceID = b, sc_ReservationID = c, sc_PauseID = q,
      NewExecutionThresholdJ = Fin 1000000000, sc_Reason = []\<rparr>) = Some \<lparr>Command = a, sc_TraceID = b, sc_ReservationID = c, sc_PauseID = q,
      NewExecutionThresholdJ = Fin 1000000000, sc_Reason = []\<rparr>" for a b c q
    by (simp add: encode_command_def set_command_field_def event_keys set_str_def set_num_def zero_command_def Let_def del: fold_key.simps)
  show ?thesis
    by (subst k) (simp add: standin_handle_def ev f d del: rev.simps)
qed

text \<open>The stand-in resumes. A pause whose event is posted to the stand-in comes back from that round with the command to resume
  this very pause and a threshold of a billion joules; when the kernel confirms the thaw the cycle ends running and not
  killed, and the stand-in has noted the event.\<close>

theorem standin_resumes_the_pause:
  assumes "pe_Event ev = ''EXECUTION_PAUSED''" "event_finite ev" "pi_url_ok (rd_call rd)"
    and "pi_response (rd_call rd) = standin_response (fst (standin_handle (Some (encode_paused ev)) s))"
    and "resumeExecution h (pe_PauseID ev) (rd_resume rd) (mctl m) = Some (None, fx, a)"
  shows "pausedEventReceived (snd (standin_handle (Some (encode_paused ev)) s)) \<and>
    (\<exists>cy' m'. pause_round h c energy (pe_PauseID ev) ev rd cy m = Ended (Fin 1000000000, False, pe_PauseID ev) cy' m' \<and>
       Outcome cy' = ''resumed'' \<and> mctl m' = a)"
proof -
  obtain j where j: "standin_handle (Some (encode_paused ev)) s = (ReplyCommand j, s\<lparr>pausedEventReceived := True\<rparr>)"
    "decode_command j = Some \<lparr>Command = ''RESUME_EXECUTION'', sc_TraceID = pe_TraceID ev, sc_ReservationID = pe_ReservationID ev,
      sc_PauseID = pe_PauseID ev, NewExecutionThresholdJ = Fin 1000000000, sc_Reason = []\<rparr>"
    using standin_command[OF assms(1)] by blast
  obtain command tr where p: "postExecutionPaused (rd_call rd) ev = (Some command, tr, None)" "Command command = ''RESUME_EXECUTION''"
    "sc_PauseID command = pe_PauseID ev" "NewExecutionThresholdJ command = Fin 1000000000"
    using assms(2-4) j by (simp add: postExecutionPaused_def standin_response_def Let_def)
  obtain cy1 m1 where r: "refineCycleWhileFrozen c (rd_frozen rd) (ConsumedBeforeJ energy) (note_call rd tr cy, emit [MPost ev] m) = (cy1, m1)"
    by fastforce
  have "mctl m1 = mctl m" using refine_facts(1)[OF r] by simp
  then show ?thesis
    using j p r assms(5) by (simp add: pause_round_def resume_round_def Let_def)
qed

section \<open>A run of the check\<close>

definition probe_host :: host where
  "probe_host = \<lparr>getenv = (\<lambda>_. []), files = (\<lambda>p. if p = ''/proc/7/cgroup'' then Some ''0::/x''
     else if p = ''/sys/fs/cgroup/x/cpu.stat'' then Some ''usage_usec 5'' else None), now = 0\<rparr>"

definition good1 :: probe1 where
  "good1 = \<lparr>p1_rapl = True, p1_script = True, p1_proc = True, p1_started = True, p1_before = ''3'', p1_after_stop = ''5'', p1_after_wait = ''5''\<rparr>"

definition good2 :: probe2 where
  "good2 = \<lparr>p2_script = True, p2_proc = True, p2_started = True,
     p2_interact = Some ((''ok'', None, None), [Some (JObj [(''event'', JStr ''EXECUTION_PAUSED'')])])\<rparr>"

definition good3 :: probe3 where
  "good3 = \<lparr>p3_script = True, p3_proc = True, p3_started = True, p3_host = probe_host, p3_pid = 7,
     p3_controllerPath = ''/sys/fs/cgroup/x'', p3_reads = [Some ''usage_usec 5'', None, Some ''usage_usec 9'']\<rparr>"

definition skipped4 :: probe4 where
  "skipped4 = \<lparr>p4_host = probe_host, p4_after = probe_host, p4_script = False, p4_proc = False, p4_interact = None\<rparr>"

theorem verify_verdict_witness: "fst (verify_main good1 good2 good3 skipped4) = Some 0"
proof -
  obtain code d where r: "verify_main good1 good2 good3 skipped4 = (code, d)" by fastforce
  have "list_all snd (dg_checks (snd (verify_main good1 good2 good3 skipped4)))" by code_simp
  moreover have "snd (readEnergy (p4_host skipped4)) \<noteq> None" by code_simp
  ultimately have "code = Some 0"
    using verify_verdict[OF r] r by (auto simp: good1_def good2_def good3_def)
  with r show ?thesis by simp
qed

definition standin_event :: ExecutionPausedEvent where
  "standin_event = \<lparr>pe_Event = ''EXECUTION_PAUSED'', pe_TraceID = ''t'', pe_ReservationID = ''r'', pe_PauseID = ''p1'', pe_ActionName = ''a'',
     pe_ExecutionPhase = ''forward'', pe_EnergyConsumedJ = Fin 1, PauseRequestedAt = Fin 0, PauseEffectiveAt = Fin 0, FreezeLatencyMs = Fin 0\<rparr>"

definition standin_round :: round_io where
  "standin_round = (act_round [] act_thaw)\<lparr>rd_call := \<lparr>pi_url_ok = True, pi_start = 0, pi_notes = [],
     pi_response = standin_response (fst (standin_handle (Some (encode_paused standin_event))
       \<lparr>pausedEventReceived = False, killedEventReceived = False\<rparr>)), pi_end = 500\<rparr>\<rparr>"

theorem standin_resumes_the_pause_witness:
  "\<exists>cy' m'. pause_round bare_host cfg_example (act_energy ''tts'') ''p1'' standin_event standin_round
       (new_cycle ''p1'' 0 (Fin 90) (Fin 50)) (act_mon\<lparr>mctl := frozen_controller\<rparr>) = Ended (Fin 1000000000, False, ''p1'') cy' m' \<and>
     acState (mctl m') = StateRunning"
proof -
  have "resumeExecution bare_host ''p1'' act_thaw frozen_controller =
      Some (None, [CgWrite ''cgroup.freeze'' ''0''], frozen_controller\<lparr>acState := StateRunning\<rparr>)" by code_simp
  then have "resumeExecution bare_host (pe_PauseID standin_event) (rd_resume standin_round) (mctl (act_mon\<lparr>mctl := frozen_controller\<rparr>)) =
      Some (None, [CgWrite ''cgroup.freeze'' ''0''], frozen_controller\<lparr>acState := StateRunning\<rparr>)"
    by (simp add: standin_event_def standin_round_def act_round_def)
  from standin_resumes_the_pause[OF _ _ _ _ this, of "\<lparr>pausedEventReceived = False, killedEventReceived = False\<rparr>" cfg_example "act_energy ''tts''"
      "new_cycle ''p1'' 0 (Fin 90) (Fin 50)"]
  show ?thesis
    by (fastforce simp: standin_event_def standin_round_def event_finite_def f_finite_def)
qed

end
