(* ===== verification/Wire.thy ===== *)
theory Wire
  imports InitHandler
begin

text \<open>
  The answers of the proxy as bytes: \<^verbatim>\<open>sendError\<close> of \<^verbatim>\<open>runHandler.go\<close> and \<^verbatim>\<open>sendOK\<close> of
  \<^verbatim>\<open>initHandler.go\<close>. The text of an error is written as \<^verbatim>\<open>encoding/json\<close> writes a string: bytes below 128 are
  escaped one by one, the ones HTML gives a meaning included (the backspace and the form feed by their short names, as Go has it
  since 1.22). Other bytes are decoded as UTF-8: a valid rune is copied, the line separators U+2028 and U+2029 are
  escaped, and a byte that begins no valid rune is replaced by the escape of U+FFFD. The cause of an error can be any bytes, such as
  what a compiler printed.
\<close>

section \<open>Strings in JSON\<close>

definition json_char :: "char \<Rightarrow> string" where
  "json_char c =
     (if c = CHR 0x22 \<or> c = CHR 0x5C then [CHR 0x5C, c]
      else if c = CHR 0x08 then [CHR 0x5C, CHR ''b'']
      else if c = CHR 0x0C then [CHR 0x5C, CHR ''f'']
      else if c = CHR 0x0A then [CHR 0x5C, CHR ''n'']
      else if c = CHR 0x0D then [CHR 0x5C, CHR ''r'']
      else if c = CHR 0x09 then [CHR 0x5C, CHR ''t'']
      else if (of_char c :: nat) < 32 \<or> c = CHR ''<'' \<or> c = CHR ''>'' \<or> c = CHR ''&''
      then CHR 0x5C # ''u00'' @ hex_byte c
      else [c])"

text \<open>The number of bytes of the rune at the head of a text, as \<^verbatim>\<open>utf8.DecodeRuneInString\<close> finds it beyond ASCII: 0 when
  there is no valid one (a byte that cannot begin a rune, an overlong form, a surrogate, a code point
  that is too large, a continuation that is missing).\<close>

definition continuation :: "nat \<Rightarrow> nat \<Rightarrow> char \<Rightarrow> bool" where
  "continuation lo hi c \<longleftrightarrow> lo \<le> (of_char c :: nat) \<and> (of_char c :: nat) \<le> hi"

definition utf8_size :: "string \<Rightarrow> nat" where
  "utf8_size s = (case s of
       a # b # r \<Rightarrow>
         (let x = of_char a :: nat;
              second = continuation (if x = 0xE0 then 0xA0 else if x = 0xF0 then 0x90 else 0x80)
                         (if x = 0xED then 0x9F else if x = 0xF4 then 0x8F else 0xBF) b;
              more = takeWhile (continuation 0x80 0xBF) r
          in if \<not> second then 0
             else if 0xC2 \<le> x \<and> x \<le> 0xDF then 2
             else if 0xE0 \<le> x \<and> x \<le> 0xEF then (if 1 \<le> length more then 3 else 0)
             else if 0xF0 \<le> x \<and> x \<le> 0xF4 then (if 2 \<le> length more then 4 else 0)
             else 0)
     | _ \<Rightarrow> 0)"

fun json_chars :: "string \<Rightarrow> string" where
  "json_chars [] = []"
| "json_chars (c # cs) =
     (if (of_char c :: nat) < 128 then json_char c @ json_chars cs
      else if utf8_size (c # cs) = 0 then CHR 0x5C # ''ufffd'' @ json_chars cs
      else (let rune = take (utf8_size (c # cs)) (c # cs); rest = drop (utf8_size (c # cs) - 1) cs
        in (if rune = [CHR 0xE2, CHR 0x80, CHR 0xA8] then CHR 0x5C # ''u2028''
            else if rune = [CHR 0xE2, CHR 0x80, CHR 0xA9] then CHR 0x5C # ''u2029''
            else rune) @ json_chars rest))"

definition json_string :: "string \<Rightarrow> string" where
  "json_string s = CHR 0x22 # json_chars s @ [CHR 0x22]"

section \<open>The answers\<close>

record wire =
  wr_code :: int
  wr_headers :: "(string \<times> string) list"
  wr_body :: string

definition sendError :: "int \<Rightarrow> string \<Rightarrow> wire" where
  "sendError code cause = \<lparr>wr_code = code, wr_headers = [(''Content-Type'', ''application/json'')],
     wr_body = (''{'' @ json_string ''error'' @ '':'' @ json_string cause @ ''}'') @ [CHR 0x0A]\<rparr>"

definition sendOK :: wire where
  "sendOK = (let buf = ''{'' @ [CHR 0x22] @ ''ok'' @ [CHR 0x22] @ '':true}'' @ [CHR 0x0A] in
     \<lparr>wr_code = 200, wr_headers = [(''Content-Type'', ''application/json''), (''Content-Length'', itoa (int (length buf)))],
      wr_body = buf\<rparr>)"

section \<open>Reading them back\<close>

text \<open>The inside of a JSON string up to its closing quote, and what follows it. An escape by code point is read as the UTF-8
  bytes of the code point; surrogates are not read.\<close>

definition hex_value :: "char \<Rightarrow> nat option" where
  "hex_value c = (let n = of_char c in
     if 48 \<le> n \<and> n \<le> 57 then Some (n - 48) else if 97 \<le> n \<and> n \<le> 102 then Some (n - 87)
     else if 65 \<le> n \<and> n \<le> 70 then Some (n - 55) else None)"

definition short_escape :: "char \<Rightarrow> char option" where
  "short_escape c =
     (if c = CHR 0x22 \<or> c = CHR 0x5C \<or> c = CHR ''/'' then Some c
      else if c = CHR ''b'' then Some (CHR 0x08) else if c = CHR ''f'' then Some (CHR 0x0C)
      else if c = CHR ''n'' then Some (CHR 0x0A) else if c = CHR ''r'' then Some (CHR 0x0D)
      else if c = CHR ''t'' then Some (CHR 0x09) else None)"

definition utf8_of :: "nat \<Rightarrow> string option" where
  "utf8_of n = (if n < 0x80 then Some [char_of n]
     else if n < 0x800 then Some [char_of (0xC0 + n div 64), char_of (0x80 + n mod 64)]
     else if 0xD800 \<le> n \<and> n < 0xE000 then None
     else Some [char_of (0xE0 + n div 4096), char_of (0x80 + n div 64 mod 64), char_of (0x80 + n mod 64)])"

text \<open>One character of the inside, as it is written.\<close>

fun read_char :: "string \<Rightarrow> (string \<times> string) option" where
  "read_char [] = None"
| "read_char (c # cs) =
     (if c = CHR 0x22 \<or> (of_char c :: nat) < 32 then None
      else if c \<noteq> CHR 0x5C then Some ([c], cs)
      else (case cs of
          [] \<Rightarrow> None
        | d # ds \<Rightarrow>
            if d = CHR ''u'' then (case ds of
                z # y # a # b # r \<Rightarrow> (case (hex_value z, hex_value y, hex_value a, hex_value b) of
                    (Some k, Some l, Some m, Some n) \<Rightarrow>
                      map_option (\<lambda>bs. (bs, r)) (utf8_of (4096 * k + 256 * l + 16 * m + n))
                  | _ \<Rightarrow> None)
              | _ \<Rightarrow> None)
            else map_option (\<lambda>e. ([e], ds)) (short_escape d)))"

lemma read_char_shorter: "read_char s = Some (c, r) \<Longrightarrow> length r < length s"
  by (cases s) (auto split: if_splits list.splits option.splits prod.splits bool.splits)

function read_string :: "string \<Rightarrow> (string \<times> string) option" where
  "read_string s = (case s of
       [] \<Rightarrow> None
     | c # cs \<Rightarrow> if c = CHR 0x22 then Some ([], cs)
         else (case read_char s of
             None \<Rightarrow> None
           | Some (d, r) \<Rightarrow> map_option (\<lambda>(t, rest). (d @ t, rest)) (read_string r)))"
  by pat_completeness auto
termination
  by (relation "measure length") (auto dest!: read_char_shorter simp del: read_char.simps)

declare read_string.simps [simp del]

definition error_of :: "string \<Rightarrow> string option" where
  "error_of body = (let lead = ''{'' @ json_string ''error'' @ '':'' @ [CHR 0x22] in
     if take (length lead) body \<noteq> lead then None
     else (case read_string (drop (length lead) body) of
         Some (cause, r) \<Rightarrow> if r = ''}'' @ [CHR 0x0A] then Some cause else None
       | None \<Rightarrow> None))"

section \<open>Laws\<close>

text \<open>A text with every byte that begins no valid rune replaced by U+FFFD, and the texts that have none.\<close>

fun to_valid :: "string \<Rightarrow> string" where
  "to_valid [] = []"
| "to_valid (c # cs) =
     (if (of_char c :: nat) < 128 then c # to_valid cs
      else if utf8_size (c # cs) = 0 then [CHR 0xEF, CHR 0xBF, CHR 0xBD] @ to_valid cs
      else take (utf8_size (c # cs)) (c # cs) @ to_valid (drop (utf8_size (c # cs) - 1) cs))"

fun valid_utf8 :: "string \<Rightarrow> bool" where
  "valid_utf8 [] \<longleftrightarrow> True"
| "valid_utf8 (c # cs) \<longleftrightarrow>
     (if (of_char c :: nat) < 128 then valid_utf8 cs
      else utf8_size (c # cs) \<noteq> 0 \<and> valid_utf8 (drop (utf8_size (c # cs) - 1) cs))"

lemma utf8_size_bytes:
  assumes "utf8_size s \<noteq> 0"
  shows "list_all (\<lambda>c. 128 \<le> (of_char c :: nat)) (take (utf8_size s) s)" "utf8_size s \<le> length s"
proof -
  obtain a b r where s: "s = a # b # r" using assms by (auto simp: utf8_size_def split: list.splits)
  have more: "list_all (\<lambda>c. 128 \<le> (of_char c :: nat)) (take n r)" "n \<le> length r"
    if "n \<le> length (takeWhile (continuation 0x80 0xBF) r)" for n
  proof -
    have "take n r = take n (takeWhile (continuation 0x80 0xBF) r)"
      using that by (metis takeWhile_eq_take take_take min_def)
    then show "list_all (\<lambda>c. 128 \<le> (of_char c :: nat)) (take n r)"
      by (auto simp: list_all_iff continuation_def dest!: in_set_takeD set_takeWhileD)
    show "n \<le> length r" using that length_takeWhile_le le_trans by blast
  qed
  show "list_all (\<lambda>c. 128 \<le> (of_char c :: nat)) (take (utf8_size s) s)" "utf8_size s \<le> length s"
    using assms more[of 1] more[of 2] unfolding s
    by (auto simp: utf8_size_def Let_def continuation_def numeral_eq_Suc split: if_splits)
qed

lemma to_valid_length: "length s \<le> length (to_valid s)"
proof (induction s rule: to_valid.induct)
  case (2 c cs)
  then show ?case using utf8_size_bytes(2)[of "c # cs"] by (cases "utf8_size (c # cs)") auto
qed simp

lemma to_valid_iff: "to_valid s = s \<longleftrightarrow> valid_utf8 s"
proof (induction s rule: to_valid.induct)
  case (2 c cs)
  show ?case
  proof (cases "(of_char c :: nat) < 128")
    case True
    with 2 show ?thesis by simp
  next
    case False
    show ?thesis
    proof (cases "utf8_size (c # cs)")
      case 0
      have "to_valid (c # cs) \<noteq> c # cs"
      proof
        assume "to_valid (c # cs) = c # cs"
        then have "length (to_valid (c # cs)) = Suc (length cs)" by simp
        with 0 False to_valid_length[of cs] show False by simp
      qed
      with 0 False show ?thesis by simp
    next
      case (Suc n)
      have "c # cs = take (Suc n) (c # cs) @ drop n cs" by simp
      then have "to_valid (c # cs) = c # cs \<longleftrightarrow> to_valid (drop n cs) = drop n cs"
        using Suc False by (metis append_same_eq diff_Suc_1 nat.simps(3) same_append_eq to_valid.simps(2))
      with 2(3) Suc False show ?thesis by simp
    qed
  qed
qed simp

lemma hex_value_char: "d < 16 \<Longrightarrow> hex_value (hex_char d) = Some d"
  by (auto simp: hex_value_def hex_char_def Let_def)

lemma read_hex: "(of_char c :: nat) < 128 \<Longrightarrow> read_char (CHR 0x5C # ''u00'' @ hex_byte c @ r) = Some ([c], r)"
proof -
  assume c: "(of_char c :: nat) < 128"
  let ?n = "of_char c :: nat"
  have "hex_value CHR ''0'' = Some 0" by code_simp
  moreover have "?n div 16 < 16" "?n mod 16 < 16" using c by auto
  moreover have "16 * (?n div 16) + ?n mod 16 = ?n" by (rule mult_div_mod_eq)
  moreover have "utf8_of ?n = Some [c]" using c by (simp add: utf8_of_def)
  ultimately show ?thesis by (simp add: hex_byte_def hex_value_char)
qed

lemma read_json_char: "(of_char c :: nat) < 128 \<Longrightarrow> read_char (json_char c @ r) = Some ([c], r)"
proof (cases "(of_char c :: nat) < 32 \<or> c = CHR ''<'' \<or> c = CHR ''>'' \<or> c = CHR ''&''")
  case True
  assume "(of_char c :: nat) < 128"
  with True show ?thesis using read_hex[of c r]
    by (simp add: json_char_def short_escape_def del: read_char.simps) (simp add: short_escape_def)
next
  case False
  then show ?thesis by (simp add: json_char_def short_escape_def)
qed

lemma json_char_start: "\<exists>d ds. json_char c = d # ds \<and> d \<noteq> CHR 0x22"
  by (simp add: json_char_def)

text \<open>A piece that reads as some bytes, at the head of the inside of a string.\<close>

lemma read_piece:
  assumes "read_char (p @ t) = Some (bs, t)" "p = d # ds" "d \<noteq> CHR 0x22"
  shows "read_string (p @ t) = map_option (\<lambda>(u, rest). (bs @ u, rest)) (read_string t)"
  using assms by (subst read_string.simps) (simp del: read_char.simps)

lemma read_raw:
  "list_all (\<lambda>c. 128 \<le> (of_char c :: nat)) bs \<Longrightarrow>
     read_string (bs @ t) = map_option (\<lambda>(u, rest). (bs @ u, rest)) (read_string t)"
proof (induction bs)
  case (Cons b bs)
  then have b: "b \<noteq> CHR 0x22" "b \<noteq> CHR 0x5C" "\<not> (of_char b :: nat) < 32" by auto
  then have "read_char ([b] @ bs @ t) = Some ([b], bs @ t)" by simp
  from read_piece[OF this refl b(1)] Cons show ?case by (cases "read_string t") auto
qed (cases "read_string t", auto)

lemma read_code_point:
  assumes "hex_value z = Some k" "hex_value y = Some l" "hex_value a = Some m" "hex_value b = Some n"
    and "utf8_of (4096 * k + 256 * l + 16 * m + n) = Some bs"
  shows "read_char ((CHR 0x5C # CHR ''u'' # [z, y, a, b]) @ t) = Some (bs, t)"
  using assms by simp

lemma hex_values:
  "hex_value CHR ''f'' = Some 15" "hex_value CHR ''d'' = Some 13" "hex_value CHR ''2'' = Some 2" "hex_value CHR ''0'' = Some 0"
  "hex_value CHR ''8'' = Some 8" "hex_value CHR ''9'' = Some 9"
  by code_simp+

lemma utf8_values:
  "utf8_of (4096 * 15 + 256 * 15 + 16 * 15 + 13) = Some [CHR 0xEF, CHR 0xBF, CHR 0xBD]"
  "utf8_of (4096 * 2 + 256 * 0 + 16 * 2 + 8) = Some [CHR 0xE2, CHR 0x80, CHR 0xA8]"
  "utf8_of (4096 * 2 + 256 * 0 + 16 * 2 + 9) = Some [CHR 0xE2, CHR 0x80, CHR 0xA9]"
  by (simp_all add: utf8_of_def) code_simp+

lemmas read_escapes =
  read_code_point[OF hex_values(1,1,1,2) utf8_values(1)] read_code_point[OF hex_values(3,4,3,5) utf8_values(2)]
  read_code_point[OF hex_values(3,4,3,6) utf8_values(3)]

lemma read_json_chars: "read_string (json_chars s @ CHR 0x22 # r) = Some (to_valid s, r)"
proof (induction s rule: json_chars.induct)
  case 1
  then show ?case by (simp add: read_string.simps)
next
  case (2 c cs)
  note escaped = read_escapes[THEN read_piece, OF refl]
  show ?case
  proof (cases "(of_char c :: nat) < 128")
    case True
    obtain d ds where d: "json_char c = d # ds" "d \<noteq> CHR 0x22" using json_char_start by blast
    from read_piece[OF read_json_char[OF True] d] 2(1)[OF True] True show ?thesis by simp
  next
    case False
    show ?thesis
    proof (cases "utf8_size (c # cs) = 0")
      case True
      with False 2(2) escaped(1)[of "json_chars cs @ CHR 0x22 # r"] show ?thesis by simp
    next
      case ne: False
      let ?n = "utf8_size (c # cs)"
      let ?t = "json_chars (drop (?n - 1) cs) @ CHR 0x22 # r"
      have IH: "read_string ?t = Some (to_valid (drop (?n - 1) cs), r)" using 2(3)[OF False ne refl refl] .
      note raw = read_raw[OF utf8_size_bytes(1)[OF ne], of ?t]
      let ?rune = "take ?n (c # cs)"
      have out: "json_chars (c # cs) = (if ?rune = [CHR 0xE2, CHR 0x80, CHR 0xA8] then CHR 0x5C # ''u2028''
            else if ?rune = [CHR 0xE2, CHR 0x80, CHR 0xA9] then CHR 0x5C # ''u2029'' else ?rune) @ json_chars (drop (?n - 1) cs)"
        "to_valid (c # cs) = ?rune @ to_valid (drop (?n - 1) cs)"
        using False ne by (simp_all only: json_chars.simps to_valid.simps Let_def if_False)
      consider "?rune = [CHR 0xE2, CHR 0x80, CHR 0xA8]" | "?rune = [CHR 0xE2, CHR 0x80, CHR 0xA9]"
        | "?rune \<noteq> [CHR 0xE2, CHR 0x80, CHR 0xA8]" "?rune \<noteq> [CHR 0xE2, CHR 0x80, CHR 0xA9]" by blast
      then show ?thesis
      proof cases
        case 1
        with IH escaped(2)[of ?t] show ?thesis unfolding out by simp
      next
        case 2
        with IH escaped(3)[of ?t] show ?thesis unfolding out by simp
      next
        case 3
        with IH raw show ?thesis unfolding out if_not_P[OF 3(1)] if_not_P[OF 3(2)] append_assoc by simp
      qed
    qed
  qed
qed

lemma json_char_no_newline: "CHR 0x0A \<notin> set (json_char c)"
proof -
  have "hex_char d \<noteq> CHR 0x0A" if "d < 16" for d
    using hex_value_char[OF that] by (auto simp: hex_value_def)
  moreover have "(of_char c :: nat) div 16 < 16" "(of_char c :: nat) mod 16 < 16"
    using nat_of_char_less_256[of c] by (simp_all add: less_mult_imp_div_less)
  ultimately have "CHR 0x0A \<notin> set (hex_byte c)" by (metis hex_byte_def empty_iff empty_set set_ConsD)
  then show ?thesis by (simp add: json_char_def)
qed

lemma json_chars_no_newline: "CHR 0x0A \<notin> set (json_chars s)"
proof (induction s rule: json_chars.induct)
  case (2 c cs)
  have "CHR 0x0A \<notin> set (take (utf8_size (c # cs)) (c # cs))" if "utf8_size (c # cs) \<noteq> 0"
    using utf8_size_bytes(1)[OF that] by (fastforce simp: list_all_iff)
  with 2 show ?case by (auto simp: Let_def json_char_no_newline)
qed simp

section \<open>Properties\<close>

text \<open>C39: an error answer reads back. Whatever bytes the cause of an error is, the body of the answer is one line with a JSON object
  whose error field is that cause, with U+FFFD in place of each byte that begins no valid rune; it is the cause itself exactly
  when that is valid UTF-8.\<close>

theorem error_answer_reads_back:
  "error_of (wr_body (sendError code cause)) = Some (to_valid cause) \<and>
   (to_valid cause = cause \<longleftrightarrow> valid_utf8 cause) \<and>
   (\<exists>line. wr_body (sendError code cause) = line @ [CHR 0x0A] \<and> CHR 0x0A \<notin> set line)"
proof (intro conjI)
  let ?lead = "''{'' @ json_string ''error'' @ '':'' @ [CHR 0x22]"
  have b: "wr_body (sendError code cause) = ?lead @ json_chars cause @ CHR 0x22 # ''}'' @ [CHR 0x0A]"
    by (simp add: sendError_def json_string_def)
  show "error_of (wr_body (sendError code cause)) = Some (to_valid cause)"
    unfolding b by (simp only: error_of_def Let_def append_eq_conv_conj take_append) (simp add: read_json_chars)
  show "to_valid cause = cause \<longleftrightarrow> valid_utf8 cause" by (rule to_valid_iff)
  have "CHR 0x0A \<notin> set (json_string t)" for t using json_chars_no_newline by (auto simp: json_string_def)
  then show "\<exists>line. wr_body (sendError code cause) = line @ [CHR 0x0A] \<and> CHR 0x0A \<notin> set line"
    by (auto simp: sendError_def)
qed

text \<open>An accented letter is copied; a lone byte, an overlong form and a surrogate are replaced byte by byte; a line separator is
  escaped.\<close>

lemma json_chars_examples:
  "json_chars [CHR 0xC3, CHR 0xA9] = [CHR 0xC3, CHR 0xA9]"
  "json_chars [CHR 0xFF, CHR ''a''] = CHR 0x5C # ''ufffda''"
  "json_chars [CHR 0xC0, CHR 0x80] = CHR 0x5C # ''ufffd'' @ CHR 0x5C # ''ufffd''"
  "json_chars [CHR 0xED, CHR 0xA0, CHR 0x80] = concat (replicate 3 (CHR 0x5C # ''ufffd''))"
  "json_chars [CHR 0xE2, CHR 0x80, CHR 0xA8] = CHR 0x5C # ''u2028''"
  "json_chars [CHR 0xF0, CHR 0x9F, CHR 0x98, CHR 0x80] = [CHR 0xF0, CHR 0x9F, CHR 0x98, CHR 0x80]"
  by code_simp+

lemma ok_content_length: "map_of (wr_headers sendOK) ''Content-Length'' = Some (itoa (int (length (wr_body sendOK))))"
  by (simp add: sendOK_def Let_def)

end
