(* ===== verification/Spec2Isabelle.thy ===== *)
theory Spec2Isabelle
  imports Segments Freezer EnergyState Channel Monitor_Laws Metrics Executor RunHandler
    Archive ActionFiles InitHandler Launcher AtomicExecutor Incidents Examples Diagnostics Wire
begin

text \<open>
  The OpenWhisk Go runtime with energy monitoring, as in \<^verbatim>\<open>src/\<close>: an HTTP proxy that runs in
  every action container, receives the action (\<^verbatim>\<open>/init\<close>), runs it (\<^verbatim>\<open>/run\<close>) as a child process in a
  cgroup of its own, measures the energy it consumes, freezes it when it passes its energy threshold,
  asks a scheduler what to do with it, and reports every measurement to a collector.

  \<^bold>\<open>The parts and how they interact.\<close> \<^verbatim>\<open>runHandler\<close> strips the energy state from a request,
  and calls \<^verbatim>\<open>Executor.Interact\<close>, which writes one line to the action's launcher and starts
  \<^verbatim>\<open>monitorEnergy\<close> beside it. The monitor samples the RAPL counter and the CPU time of the
  process; over the threshold it runs a pause cycle: it freezes the process through the
  \<^verbatim>\<open>ActivationController\<close>, closes the execution segment, posts \<^verbatim>\<open>EXECUTION_PAUSED\<close> on the
  scheduler channel, and resumes or kills as it is told. When the interaction is over the handler either
  pushes the measurement, reports \<^verbatim>\<open>EXECUTION_KILLED\<close> and forgets the executor, or adds the
  measured energy to the state, hands it on in the result and pushes the measurement.
  \<^verbatim>\<open>initHandler\<close> unpacks and compiles an action and starts its executor.

  \<^bold>\<open>Theories and sources\<close> (all paths below \<^verbatim>\<open>src/openwhisk\<close> unless another is given).
  \<^item> \<^verbatim>\<open>Prelude\<close>: 64-bit integers, the used parts of \<^verbatim>\<open>strings\<close>, \<^verbatim>\<open>strconv\<close>,
    \<^verbatim>\<open>filepath\<close>, the host at an instant (\<open>host\<close>: variables, files, clock); the locales
    \<open>simulation\<close> and \<open>invariant_steps\<close>. \<^verbatim>\<open>Float64\<close>: IEEE 754 binary64 with rounding to
    nearest even, and the locale \<open>rounding\<close> of the laws the measurements use. \<^verbatim>\<open>Paths\<close>: lexical
    facts about paths.
  \<^item> \<^verbatim>\<open>Attribution\<close>: \<^verbatim>\<open>metrics_helpers.go\<close>, the readers of the counters, the correction of a
    wrap-around, and the share of the node's energy a process is given. \<^verbatim>\<open>Segments\<close>:
    \<^verbatim>\<open>energySegments.go\<close>, the freeze marks of an executor (\<open>freezeMarks\<close>), the meter of a monitor
    (\<open>stepMeter\<close>), and the attribution over the segments between the marks.
  \<^item> \<^verbatim>\<open>Freezer\<close>: \<^verbatim>\<open>cgroupFreezer.go\<close>, the controller of one activation with its states,
    the polling of \<^verbatim>\<open>cgroup.events\<close>, and the wait shared by everybody who waits for the process.
  \<^item> \<^verbatim>\<open>EnergyState\<close>: \<^verbatim>\<open>energy_state.go\<close>, the state that travels with a sequence of actions, its
    extraction from the arguments and its reinjection into the result.
  \<^item> \<^verbatim>\<open>Delivery\<close>: the locale of a bounded number of attempts with growing waits.
    \<^verbatim>\<open>Channel\<close>: \<^verbatim>\<open>schedulerChannel.go\<close>, the cached address, its resolution, the
    connection recorder, the pause call, the delivery of a kill.
  \<^item> \<^verbatim>\<open>Monitor\<close>: \<^verbatim>\<open>energyMonitor.go\<close>, with the properties in \<^verbatim>\<open>Monitor_Laws\<close>.
    \<^verbatim>\<open>Metrics\<close>: \<^verbatim>\<open>metricHandler.go\<close>, \<^verbatim>\<open>pushgateway.go\<close>, and the recording half of
    \<^verbatim>\<open>metrics_helpers.go\<close>. \<^verbatim>\<open>Executor\<close>: \<^verbatim>\<open>executor.go\<close>. \<^verbatim>\<open>RunHandler\<close>:
    \<^verbatim>\<open>runHandler.go\<close>.
  \<^item> \<^verbatim>\<open>Archive\<close>: \<^verbatim>\<open>zip.go\<close>, \<^verbatim>\<open>tar.go\<close>. \<^verbatim>\<open>ActionFiles\<close>:
    \<^verbatim>\<open>filetype.go\<close>, \<^verbatim>\<open>extractor.go\<close>, \<^verbatim>\<open>compiler.go\<close>, \<^verbatim>\<open>ExtractAndCompile\<close>.
    \<^verbatim>\<open>InitHandler\<close>: \<^verbatim>\<open>initHandler.go\<close>, \<^verbatim>\<open>actionProxy.go\<close>, \<^verbatim>\<open>src/main/proxy.go\<close>.
  \<^item> \<^verbatim>\<open>Launcher\<close>: \<^verbatim>\<open>src/golang1.22/lib/launcher.go\<close> and its copies for 1.23 and 1.24,
    \<^verbatim>\<open>src/common/gobuild.py.launcher.go\<close>. \<^verbatim>\<open>Examples\<close>: the example actions of
    \<^verbatim>\<open>src/examples\<close> and the standalone program.
  \<^item> \<^verbatim>\<open>SharedExecutor\<close>: \<^verbatim>\<open>executor.go\<close> again, for several activations on one executor: the pipes, the
    channel \<^verbatim>\<open>exited\<close> and the freeze marks they share, with the steps of every handler interleaved.
    \<^verbatim>\<open>AtomicExecutor\<close>: the abstract server that an executor is for handlers that come one at a time, and the
    locale \<open>forward_simulation\<close> by which it is refined.
  \<^item> \<^verbatim>\<open>Incidents\<close>: the structured safety events of all these files (\<^verbatim>\<open>logSafety...\<close> and the like), as
    JSON objects, and those that go with a run. \<^verbatim>\<open>Wire\<close>: the bytes of \<^verbatim>\<open>sendError\<close> and \<^verbatim>\<open>sendOK\<close>.
  \<^item> \<^verbatim>\<open>Diagnostics\<close>: \<^verbatim>\<open>debug.go\<close>, \<^verbatim>\<open>version.go\<close> and the pod check
    \<^verbatim>\<open>src/cmd/verify_cgroup_pod\<close>.

  \<^bold>\<open>How code became definitions.\<close> A struct is a record, with a prefix on field names that would
  clash; an operation is a function from its state to its result, its new state and, where it acts on
  the outside, the list of its effects in order. What the outside answers (counters at each
  reading, the kernel's files at each poll, HTTP responses, the lines of the action, the outcome of a
  system call) is an argument, so a statement for all arguments holds for every behaviour of the
  outside. A call that panics or never returns is \<open>None\<close> (\<open>Stuck\<close> in the monitor). JSON texts come
  with their values; archives with what the standard library reads in them. Goroutines that
  share state are sequences of the events they exchange: the monitor runs on a list of ticks
  and a stop, the executor's select on what it sees first, late notes of the connection recorder on a sequence of
  notes. These run one activation at a time on an executor; the interleaving of several is the step relation \<open>reach\<close> of
  \<^verbatim>\<open>SharedExecutor\<close>, whose policy says who may come in when.

  \<^bold>\<open>What is shown.\<close> Measurement: bounds of the attribution, agreement of meter and marks over every
  sequence of freezes and resumes, a freeze costs nothing, CPU time is counted once. Control: the states of an
  activation, confirmation of every change by the kernel, an UNKILLABLE step is never killed, only the
  command for the pause at hand resumes a step, every cycle is recorded once, a kill is measured, then
  reported, then answered, the energies told to scheduler and collector are those of the same segments but for where the first begins, and a
  container whose action was killed runs nothing more. Data: the state is handed on with the measured energy added
  at every step, the store refines the history it keeps the end of, the payload loses nothing, every push
  and every kill report is tried a bounded number of times, every safety incident of a run is a structured object
  under its own name, an error answer reads back as its cause as far as that is UTF-8. Actions: at most one initialisation, what is
  started is what was uploaded, packing and unpacking rebuild a tree, archives stay below their destination
  exactly as far as their names do, requests and answers of the launcher stay in step, the standalone example is a launcher. Sharing:
  one activation at a time, each handler gets its own answer and its own marks, the executor refines an
  atomic server and has exactly its outcomes, and the exit of the process frees everyone who waits. Theorems that
  show a defect say so in their text: a kill after a failed freeze or resume is refused, a failed resume of an
  UNKILLABLE step never ends, an archive entry can leave its directory, fields of a request do not reach the action, and with two
  activations on one executor answers and marks get mixed and one of them can have the other, paused, killed.

  \<^bold>\<open>Bounds and fuel.\<close> Loops with a bound in the code recurse on it (attempts, resolution rounds). A polling loop recurses on the
  list of polls the outside answers, and is stuck when it is used up before the time limit; \<open>polling_terminates\<close> gives
  the number of polls that always suffices. The monitor's and the pause cycle's loops recurse on
  the events given; statements about them hold for every list, and \<open>failed_resume_never_ends\<close> for all
  lengths.

  \<^bold>\<open>Not modelled.\<close> Log lines without structure, the texts of the details of the pod check, the internals of
  \<^verbatim>\<open>net/http\<close> (the transport, the server), of the archive readers and of the AWS client, which are given by
  their results; the texts of the errors of a cgroup operation. In \<^verbatim>\<open>SharedExecutor\<close> a single write is atomic and the process answers a line with
  a line; the handlers and monitors of the activations are reduced to what they do to the executor they share.
\<close>

section \<open>The energy of a killed step on both channels\<close>

lemma joules_0 [simp]: "joules 0 = Fin 0"
  by code_simp

lemma no_fallback [simp]: "with_fallback a (joules a) = (a, False)"
  by (cases "a = 0") (simp_all add: with_fallback_def)

text \<open>What the monitor hands back for a step that ends frozen.\<close>

lemma monitored_settled:
  assumes "monitored h c io (Some st) (proc\<lparr>ex_marks := []\<rparr>) = Some (Some ki, life, energy', fx, proc')"
    and "readEnergy (ix_start io) = (e0, None)" "open_mark (ex_marks proc')"
  shows "ki_EnergyConsumedJ ki = joules (AttributedUJ (segmentedAttribution c e0 e
      (readCPUSnapshot (ix_start io) (ac_Pid (ex_controller proc))) s (ex_marks proc')))"
    and "wf_marks (ex_marks proc')"
proof -
  let ?s0 = "readCPUSnapshot (ix_start io) (ac_Pid (ex_controller proc))"
  let ?m = "\<lparr>mctl = ex_controller proc, mmeter = newStepMeter e0 ?s0, mmarks = [], mres = new_result, mfx = []\<rparr>"
  obtain en m where m: "monitorEnergy h c (ix_start io) st (ix_events io) (ex_controller proc) [] = Returned (True, en) m"
    "mr_killed (mres m)" "ki_EnergyConsumedJ ki = mr_consumedJ (mres m)" "ex_marks proc' = mmarks m"
    using assms(1) by (auto simp: monitored_def result_get_def Let_def split: if_splits run.splits prod.splits bool.splits)
  have "monitor_loop h c st (ix_events io) ?m = Returned (True, en) m"
    using m(1) assms(2) by (simp add: monitorEnergy_def Let_def)
  then have a: "agree c e0 ?s0 (mmeter m) (mmarks m)"
    "frozen (mmeter m) \<Longrightarrow> mr_consumedJ (mres m) = closedJ (mmeter m)"
    using monitor_loop_settled[of c e0 ?s0 ?m] agree_new m(2) by (auto simp: newStepMeter_def new_result_def)
  moreover have "frozen (mmeter m)" using agree_frozen[OF a(1)] assms(3) m(4) by simp
  ultimately show "ki_EnergyConsumedJ ki = joules (AttributedUJ (segmentedAttribution c e0 e ?s0 s (ex_marks proc')))"
    using agree_stepJ[OF a(1), of e s] m(3,4) by (simp add: stepJ_def)
  show "wf_marks (ex_marks proc')" using a(1) m(4) by (simp add: agree_def)
qed

text \<open>The energy of a step that ended frozen: its first segment, which starts at the reading given, and the segments that the
  marks delimit.\<close>

definition frozen_total :: "rapl_cfg \<Rightarrow> int \<Rightarrow> CPUSnapshot \<Rightarrow> freezeMark \<Rightarrow> freezeMark list \<Rightarrow> int" where
  "frozen_total c e s first later = i64 (attributedEnergyUJ c e (FreezeEnergyUJ first) s (FreezeCPU first) +
     closed_sum c (ResumeEnergyUJ first) (ResumeCPU first) later)"

lemma frozen_total:
  assumes "wf_marks (first # later)" "open_mark (first # later)"
  shows "AttributedUJ (segmentedAttribution c e x s y (first # later)) = frozen_total c e s first later"
  using assms by (simp add: segmentedAttribution_attributed frozen_total_def)

text \<open>C4: what the scheduler and the collector are told of a killed step. When a run is killed while it is frozen, the
  energy in \<^verbatim>\<open>EXECUTION_KILLED\<close> is what the earlier steps consumed plus the energy of the segments between the freeze
  marks, the first one from the monitor's own first reading of the counters; the pushed \<^verbatim>\<open>/run\<close> measurement is the energy of
  the same segments, the first one from the handler's reading, which it took a moment earlier (or the monitor's value, when that is
  zero). The two agree on everything after the first freeze, and neither depends on what the counters read when the measurement is
  taken.\<close>

theorem killed_energy_on_both_channels:
  assumes "runHandler h c io ap = Some (fx, ap')" "KillReported ev d \<in> set fx"
    and "ap_theExecutor ap = Some proc" "rn_body io = Inr body"
    and "Interact h c (rn_interact io) (strip_newlines (pr_input (prepare h body (rn_json io) (rn_extract_ns io))))
           (pr_energy (prepare h body (rn_json io) (rn_extract_ns io))) proc = Some ir"
    and "pr_energy (prepare h body (rn_json io) (rn_extract_ns io)) = Some st"
    and "ex_marks (ir_exec ir) = first # later" "open_mark (first # later)"
    and "readEnergy (rn_start_h io) = (e0, None)" "readCPUSnapshot (rn_cpu_h io) (Executor_Pid proc) = s0"
    and "readEnergy (ix_start (rn_interact io)) = (e1, None)"
    and "readCPUSnapshot (ix_start (rn_interact io)) (ac_Pid (ex_controller proc)) = s1"
  shows "ke_EnergyConsumedJ ev = f_add (joules (frozen_total c e1 s1 first later)) (ConsumedBeforeJ st)
     \<and> (\<exists>en. Metric (Push True ''/run'' en) \<in> set fx \<and> EnergyAttributed en =
          fst (with_fallback (frozen_total c e0 s0 first later) (joules (frozen_total c e1 s1 first later))))"
  using assms(1)
proof (cases rule: runHandler_cases)
  case early
  with assms(2) show ?thesis by simp
next
  case (ran body' proc' pr ir' gx)
  have same: "body' = body" "proc' = proc" "pr = prepare h body (rn_json io) (rn_extract_ns io)" "ir' = ir"
    using ran(1-4) assms(3-5) by auto
  have k: "KillReported ev d \<in> set gx" using assms(2) ran(5) by simp
  obtain ki where ki: "ir_kill ir = Some ki"
    using k ran(6) same(4) by (cases "ir_kill ir") (auto simp: after_interact_def Let_def dest: after_answer_no_kill split: if_splits)
  obtain life energy' mfx proc1 where
    m: "monitored h c (rn_interact io) (Some st) (proc\<lparr>ex_marks := []\<rparr>) = Some (Some ki, life, energy', mfx, proc1)"
    and p1: "ex_marks proc1 = first # later" "ir_energy ir = energy'"
    using assms(5-7) ki by (auto simp: Interact_def Let_def marks_reset_def split: option.splits prod.splits if_splits)
  obtain x where x: "energy' = Some (st\<lparr>ExecutionThresholdJ := x\<rparr>)" using monitored_energy(4)[OF m] by auto
  note settled = monitored_settled[OF m assms(11), unfolded p1(1), OF assms(8)]
  note sum = frozen_total[OF settled(2) assms(8)]
  have kj: "ki_EnergyConsumedJ ki = joules (frozen_total c e1 s1 first later)"
    using settled(1) assms(12) by (simp add: sum)
  let ?meta = "merge_lifecycle (ir_lifecycle ir) (pr_meta pr)"
  obtain rfx m' where r: "recordMetricsImpl (rn_end_h io) c (rn_end io) (Some (exec_view_of (ir_exec ir))) ''/run''
      (rn_start io) e0 s0 (Some ?meta) True (ki_EnergyConsumedJ ki) (ap_metrics ap) = (rfx, m')" by fastforce
  have a: "AttributedUJ (run_detail (rn_end_h io) c (rn_end io) (Some (exec_view_of (ir_exec ir))) ''/run'' e0 s0) =
      frozen_total c e0 s0 first later"
    using assms(7) by (simp add: run_detail_def view_FreezeMarks_def exec_view_of_def marks_snapshot_def sum)
  obtain pre en where en: "rfx = pre @ [Push True ''/run'' en]"
    "EnergyAttributed en = fst (with_fallback (frozen_total c e0 s0 first later) (ki_EnergyConsumedJ ki))"
    using record_run_pushes[OF r] a by auto
  have g: "gx = map Metric rfx @ [KillReported (killed_event (st\<lparr>ExecutionThresholdJ := x\<rparr>) ki (pr_value pr) ?meta)
      (postExecutionKilled h (rn_sched io) (killed_event_finite (killed_event (st\<lparr>ExecutionThresholdJ := x\<rparr>) ki (pr_value pr) ?meta))),
      Answer (HttpError 400 ''energy budget exceeded: action killed'')]"
    using ran(6) ki r p1(2) x assms(9,10) same
    by (simp add: after_interact_def after_kill_def recordMetricsSyncWithFallback_def Let_def)
  then have "ke_EnergyConsumedJ ev = f_add (joules (frozen_total c e1 s1 first later)) (ConsumedBeforeJ st)"
    using k kj by (auto simp: killed_event_def)
  with g en kj ran(5) show ?thesis by auto
qed

section \<open>After a kill\<close>

text \<open>C5: a kill ends the container. After a run of an initialised proxy has reported a kill, every
  further request returns and leaves the proxy as it is: an \<^verbatim>\<open>/init\<close> is refused with 403, a
  \<^verbatim>\<open>/run\<close> with 400 or 500 and without reaching an action, and only the metrics are still served.\<close>

theorem kill_ends_container:
  assumes "ap_initialized ap" "runHandler h c io ap = Some (fx, ap')" "KillReported ev d \<in> set fx"
  shows "\<exists>fxs. serve h' False c' rqs ap' = Some (fxs, ap') \<and> list_all (list_all refusal) fxs"
  using ended.stays_stuck[of ap'] runHandler_frame[OF assms(2)] assms(1,3) by (simp add: serve_def)

section \<open>The launcher's errors at the proxy\<close>

lemma after_kill_reports:
  assumes "after_kill h c io es cs ir st ki v meta a = (gx, a')"
  shows "\<exists>ev d. KillReported ev d \<in> set gx"
  using assms
  by (intro exI[of _ "killed_event st ki v meta"] exI[of _ "postExecutionKilled h (rn_sched io) (killed_event_finite (killed_event st ki v meta))"])
    (auto simp: after_kill_def Let_def split: prod.splits)

text \<open>C40: an error the launcher reports never reaches the caller as such. When the action's line is the
  launcher's \<^verbatim>\<open>{ error: "..."}\<close>, a run that is not killed answers 502 and says that the action did not return
  a dictionary; the text of the error is lost, the run is not measured, and the energy state is not handed on.\<close>

theorem launcher_error_is_bad_gateway:
  assumes "runHandler h c io ap = Some (fx, ap')" "ToAction i \<in> set fx"
    and "ix_answer (rn_interact io) = Some (AnswerLine t)" "t \<noteq> []" "rn_result io = line_json (ErrorLine e)"
    and "\<forall>ev d. KillReported ev d \<notin> set fx"
  shows "\<exists>m. fx = [ToAction i, Monitored m, Answer (HttpError 502 ''The action did not return a dictionary or array.'')]"
  using assms(1)
proof (cases rule: runHandler_cases)
  case early
  with assms(2) show ?thesis by simp
next
  case (ran body proc pr ir gx)
  have e: "ir_err ir = None"
    using ran(4) assms(3,4) by (auto simp: Interact_def Let_def select_answer_def split: option.splits prod.splits if_splits)
  have k: "ir_kill ir = None"
    using ran(5,6) assms(6) by (cases "ir_kill ir") (auto simp: after_interact_def Let_def dest!: after_kill_reports)
  have "gx = [Answer (HttpError 502 ''The action did not return a dictionary or array.'')]"
    using ran(6) e k assms(5) by (simp add: after_interact_def after_answer_def classify_result_def Let_def)
  with ran(5) assms(2) show ?thesis by auto
qed

section \<open>A killed run, and a failing action\<close>

text \<open>A request that may be paused, over its threshold, whose pause is answered by a kill.\<close>

definition pausable_value :: params where
  "pausable_value = [(''energy_trace_id'', JStr ''t-1''), (''energy_reservation_id'', JStr ''r-1''), (''energy_execution_phase'', JStr ''forward''),
     (''energy_execution_threshold_j'', JNum (Fin 50)), (''energy_pause_enabled'', JBool True), (''energy_pause_mode'', JStr ''FREEZE''),
     (''energy_max_pause_duration_ms'', JNum (Fin 60000)), (''energy_max_pause_count'', JNum (Fin 3)),
     (''energy_interruption_class'', JObj [(''ocr'', JStr ''UNKILLABLE''), (''tts'', JStr ''KILL_SAFE'')]), (''x'', JStr ''hi'')]"

definition frozen_kill_io :: run_io where
  "frozen_kill_io = (run_example (run_request pausable_value) ProcessExited)
     \<lparr>rn_cpu_h := act_host ''0'' ''0'' (- 7),
        rn_interact := \<lparr>ix_answer = Some ProcessExited, ix_start = act_host ''0'' ''0'' 0,
        ix_events = [MonTick (act_tick [act_round ''KILL_EXECUTION'' act_thaw]), MonStop]\<rparr>\<rparr>"

abbreviation frozen_kill_request :: prepared where
  "frozen_kill_request \<equiv> prepare bare_host ''{...}'' (rn_json frozen_kill_io) (rn_extract_ns frozen_kill_io)"

lemma frozen_kill_state: "pr_energy frozen_kill_request = Some (act_energy ''tts'')"
  by code_simp

lemma frozen_kill_monitor:
  obtains m where "act_run ''tts'' [act_round ''KILL_EXECUTION'' act_thaw] = Returned (True, act_energy ''tts'') m"
    "mr_killed (mres m)" "open_mark (mmarks m)"
proof -
  let ?r = "act_pause ''tts'' [act_round ''KILL_EXECUTION'' act_thaw]"
  obtain thr q m1 where m1: "?r = Returned (thr, True, q) m1" "frozen (mmeter m1)" "closedJ (mmeter m1) = Fin 100"
    using act_killed by (auto split: run.splits)
  define m where "m = m1\<lparr>mres := setKilled (Fin 100) q (mres m1)\<rparr>"
  have run: "act_run ''tts'' [act_round ''KILL_EXECUTION'' act_thaw] = Returned (True, act_energy ''tts'') m"
    using m1 by (simp add: act_run_cycle m_def)
  let ?m0 = "\<lparr>mctl = started_controller, mmeter = newStepMeter 0 (readCPUSnapshot (act_host ''0'' ''0'' 0) (ac_Pid started_controller)),
      mmarks = [], mres = new_result, mfx = []\<rparr>"
  have "monitor_loop bare_host cfg_example (act_energy ''tts'') [MonTick (act_tick [act_round ''KILL_EXECUTION'' act_thaw]), MonStop] ?m0
      = Returned (True, act_energy ''tts'') m"
    using run by (simp add: act_run_def monitorEnergy_def act_start Let_def del: monitor_loop.simps)
  from monitor_loop_settled[OF _ _ _ this] have "agree cfg_example 0 (readCPUSnapshot (act_host ''0'' ''0'' 0) (ac_Pid started_controller)) (mmeter m) (mmarks m)"
    using agree_new by (auto simp: newStepMeter_def new_result_def)
  then have "open_mark (mmarks m)" using agree_frozen m1(2) by (simp add: m_def)
  with run that show thesis by (simp add: m_def)
qed

lemma frozen_kill_interaction:
  obtains ir where "Interact bare_host cfg_example (rn_interact frozen_kill_io) (strip_newlines (pr_input frozen_kill_request))
      (Some (act_energy ''tts'')) (the (ap_theExecutor warm_proxy)) = Some ir" "ir_kill ir \<noteq> None" "open_mark (ex_marks (ir_exec ir))"
proof -
  obtain m where m: "act_run ''tts'' [act_round ''KILL_EXECUTION'' act_thaw] = Returned (True, act_energy ''tts'') m"
    "mr_killed (mres m)" "open_mark (mmarks m)" by (rule frozen_kill_monitor)
  have "fst (shouldMonitorEnergy (Some (act_energy ''tts'')))" by code_simp
  then show thesis
    using m by (intro that) (auto simp: Interact_def frozen_kill_io_def monitored_def warm_proxy_def marks_reset_def act_run_def
        select_answer_def result_get_def finalThreshold_def Let_def)
qed

theorem killed_energy_on_both_channels_witness:
  "\<exists>fx ap' ev d s0 s1 first later. runHandler bare_host cfg_example frozen_kill_io warm_proxy = Some (fx, ap') \<and> KillReported ev d \<in> set fx
     \<and> WallNs s0 < WallNs s1
     \<and> ke_EnergyConsumedJ ev = f_add (joules (frozen_total cfg_example 0 s1 first later)) (ConsumedBeforeJ (the (pr_energy frozen_kill_request)))
     \<and> (\<exists>en. Metric (Push True ''/run'' en) \<in> set fx \<and> EnergyAttributed en =
          fst (with_fallback (frozen_total cfg_example 0 s0 first later) (joules (frozen_total cfg_example 0 s1 first later))))"
proof -
  obtain proc where p: "ap_theExecutor warm_proxy = Some proc" "\<not> Exited proc" by (simp add: warm_proxy_def Exited_def)
  define st where "st = act_energy ''tts''"
  have st: "pr_energy frozen_kill_request = Some st" using frozen_kill_state by (simp add: st_def)
  obtain ir ki where ir: "Interact bare_host cfg_example (rn_interact frozen_kill_io) (strip_newlines (pr_input frozen_kill_request)) (Some st) proc = Some ir"
      "open_mark (ex_marks (ir_exec ir))" and ki: "ir_kill ir = Some ki"
    using frozen_kill_interaction unfolding p(1) st_def option.sel by blast
  obtain first later where marks: "ex_marks (ir_exec ir) = first # later" "open_mark (first # later)"
    using ir(2) by (cases "ex_marks (ir_exec ir)") auto
  have b: "rn_body frozen_kill_io = Inr ''{...}''" by (simp add: frozen_kill_io_def run_example_def)
  have e: "readEnergy (rn_start_h frozen_kill_io) = (0, None)" "readEnergy (ix_start (rn_interact frozen_kill_io)) = (0, None)"
    by code_simp+
  let ?s0 = "readCPUSnapshot (rn_cpu_h frozen_kill_io) (Executor_Pid proc)"
  let ?s1 = "readCPUSnapshot (ix_start (rn_interact frozen_kill_io)) (ac_Pid (ex_controller proc))"
  have "WallNs (readCPUSnapshot (rn_cpu_h frozen_kill_io) (Executor_Pid (the (ap_theExecutor warm_proxy)))) <
      WallNs (readCPUSnapshot (ix_start (rn_interact frozen_kill_io)) (ac_Pid (ex_controller (the (ap_theExecutor warm_proxy)))))"
    by code_simp
  then have w: "WallNs ?s0 < WallNs ?s1" unfolding p(1) option.sel .
  obtain st' where st': "ir_energy ir = Some st'" using Interact_facts(1)[OF ir(1)] ki by auto
  let ?r = "after_kill bare_host cfg_example frozen_kill_io 0 ?s0 ir st' ki
      (pr_value frozen_kill_request) (merge_lifecycle (ir_lifecycle ir) (pr_meta frozen_kill_request))
      (warm_proxy\<lparr>ap_theExecutor := Some (ir_exec ir)\<rparr>)"
  have r: "runHandler bare_host cfg_example frozen_kill_io warm_proxy =
      Some (ToAction (ir_input ir) # Monitored (ir_fx ir) # fst ?r, snd ?r)"
    unfolding runHandler_def using p b e ir(1) ki st st' by (simp add: after_interact_def Let_def split_def)
  obtain ev d where "KillReported ev d \<in> set (fst ?r)" using after_kill_reports[of _ _ _ _ _ _ _ _ _ _ _ "fst ?r" "snd ?r"] by fastforce
  then have ev: "KillReported ev d \<in> set (ToAction (ir_input ir) # Monitored (ir_fx ir) # fst ?r)" by simp
  from killed_energy_on_both_channels[OF r ev p(1) b, unfolded st, OF ir(1) refl marks e(1) refl e(2) refl] r ev w
  show ?thesis unfolding st option.sel by blast
qed

abbreviation killed_io :: run_io where
  "killed_io \<equiv> run_example (run_request (run_value ''KILL_SAFE'')) ProcessExited"

theorem kill_ends_container_witness:
  "\<exists>fx ap' fxs. runHandler bare_host cfg_example killed_io warm_proxy = Some (fx, ap')
     \<and> serve bare_host False cfg_example [RunRequest killed_io, InitRequest (init_example [] ''code''), MetricRequest] ap' = Some (fxs, ap')
     \<and> list_all (list_all refusal) fxs"
proof -
  obtain fx ap' where r: "runHandler bare_host cfg_example killed_io warm_proxy = Some (fx, ap')"
    and k: "list_ex reports_kill fx" using killed_run by (auto split: option.splits)
  then obtain ev d where ev: "KillReported ev d \<in> set fx" using reports_kill_iff by blast
  have "ap_initialized warm_proxy" by (simp add: warm_proxy_def)
  from kill_ends_container[OF this r ev, of bare_host cfg_example] r show ?thesis by blast
qed

definition failing_io :: run_io where
  "failing_io = (run_example None (AnswerLine ''{ error: ...}''))\<lparr>rn_result := line_json (ErrorLine ''bad'')\<rparr>"

lemma failing_run:
  "case runHandler bare_host cfg_example failing_io warm_proxy of None \<Rightarrow> False
   | Some (fx, _) \<Rightarrow> list_ex (\<lambda>x. case x of ToAction _ \<Rightarrow> True | _ \<Rightarrow> False) fx \<and> \<not> list_ex reports_kill fx"
  by (simp add: failing_io_def run_example_def runHandler_def warm_proxy_def Exited_def prepare_def Interact_def monitored_def
      select_answer_def after_interact_def after_answer_def classify_result_def Let_def)

theorem launcher_error_is_bad_gateway_witness:
  "\<exists>i m ap'. runHandler bare_host cfg_example failing_io warm_proxy =
     Some ([ToAction i, Monitored m, Answer (HttpError 502 ''The action did not return a dictionary or array.'')], ap')"
proof -
  obtain fx ap' where r: "runHandler bare_host cfg_example failing_io warm_proxy = Some (fx, ap')"
    and f: "list_ex (\<lambda>x. case x of ToAction _ \<Rightarrow> True | _ \<Rightarrow> False) fx" "\<not> list_ex reports_kill fx"
    using failing_run by (auto split: option.splits)
  have "(case x of ToAction _ \<Rightarrow> True | _ \<Rightarrow> False) \<longleftrightarrow> (\<exists>i. x = ToAction i)" for x by (cases x) auto
  with f(1) obtain i where i: "ToAction i \<in> set fx" by (auto simp: list_ex_iff)
  have a: "ix_answer (rn_interact failing_io) = Some (AnswerLine ''{ error: ...}'')" "''{ error: ...}'' \<noteq> []"
    "rn_result failing_io = line_json (ErrorLine ''bad'')"
    by (simp_all add: failing_io_def run_example_def)
  have "\<forall>ev d. KillReported ev d \<notin> set fx" using f(2) reports_kill_iff by blast
  from launcher_error_is_bad_gateway[OF r i a this] r show ?thesis by blast
qed

end
